(* ===== verification/Prelude.thy ===== *)
theory Prelude
  imports Main "HOL-Library.Word"
begin

text \<open>
  Shared vocabulary of the development: the integers and clock values of the C++ code, the
  character classes of \<open><cctype>\<close>, and the few facts on maps, sets and lists that several
  components use.

  A \<open>steady_clock::time_point\<close> is the number of nanoseconds since the clock's epoch; the
  value-initialised \<open>time_point{}\<close> is 0. The code's \<open>int64_t\<close> nanosecond count
  overflows after 292 years, so a mathematical integer is used for it. Counters and epochs
  declared \<open>uint64_t\<close> are 64-bit words and wrap.

  A class whose methods all take the same mutex for their whole body is a record and one
  function per method: the lock makes each call one atomic step.
\<close>

named_theorems clock_simps \<open>durations written out in nanoseconds\<close>
named_theorems char_simps \<open>character classes as ranges of codes\<close>

section \<open>Machine integers and clock values\<close>

type_synonym u64 = "64 word"
type_synonym u32 = "32 word"
type_synonym time = int

abbreviation (input) no_time :: time where
  "no_time \<equiv> 0"

definition seconds :: "int \<Rightarrow> int" where
  [clock_simps]: "seconds n = n * 1000000000"

definition millis :: "int \<Rightarrow> int" where
  [clock_simps]: "millis n = n * 1000000"

lemma seconds_pos [simp]: "0 < seconds n \<longleftrightarrow> 0 < n"
  by (simp add: clock_simps)

lemma seconds_nonneg [simp]: "0 \<le> seconds n \<longleftrightarrow> 0 \<le> n"
  by (simp add: clock_simps)

lemma seconds_neg [simp]: "seconds n < 0 \<longleftrightarrow> n < 0"
  by (simp add: clock_simps)

lemma millis_pos [simp]: "0 < millis n \<longleftrightarrow> 0 < n"
  by (simp add: clock_simps)

lemma millis_nonneg [simp]: "0 \<le> millis n \<longleftrightarrow> 0 \<le> n"
  by (simp add: clock_simps)

lemma seconds_le [simp]: "seconds m \<le> seconds n \<longleftrightarrow> m \<le> n"
  by (simp add: clock_simps)

section \<open>Characters, as the C locale classifies them\<close>

definition code :: "char \<Rightarrow> nat" where
  [char_simps]: "code c = of_char c"

definition is_upper :: "char \<Rightarrow> bool" where
  [char_simps]: "is_upper c \<longleftrightarrow> 65 \<le> code c \<and> code c \<le> 90"

definition is_lower :: "char \<Rightarrow> bool" where
  [char_simps]: "is_lower c \<longleftrightarrow> 97 \<le> code c \<and> code c \<le> 122"

definition is_alpha :: "char \<Rightarrow> bool" where
  [char_simps]: "is_alpha c \<longleftrightarrow> is_upper c \<or> is_lower c"

definition is_digit :: "char \<Rightarrow> bool" where
  [char_simps]: "is_digit c \<longleftrightarrow> 48 \<le> code c \<and> code c \<le> 57"

definition is_alnum :: "char \<Rightarrow> bool" where
  [char_simps]: "is_alnum c \<longleftrightarrow> is_alpha c \<or> is_digit c"

definition is_space :: "char \<Rightarrow> bool" where
  [char_simps]: "is_space c \<longleftrightarrow> code c = 32 \<or> (9 \<le> code c \<and> code c \<le> 13)"

definition to_lower :: "char \<Rightarrow> char" where
  [char_simps]: "to_lower c = (if is_upper c then char_of (code c + 32) else c)"

lemma code_less_256: "code c < 256"
  unfolding code_def by (metis of_char_mod_256 mod_less_divisor zero_less_numeral)

lemma code_to_lower: "code (to_lower c) = (if is_upper c then code c + 32 else code c)"
proof (cases "is_upper c")
  case True
  then have "code c + 32 < 256" by (simp add: is_upper_def)
  then have "(code c + 32) mod 256 = code c + 32" by simp
  with True show ?thesis by (simp add: to_lower_def code_def)
qed (simp add: to_lower_def)

lemma to_lower_idem [simp]: "to_lower (to_lower c) = to_lower c"
proof -
  have "\<not> is_upper (to_lower c)"
    by (simp add: is_upper_def [of "to_lower c"] code_to_lower is_upper_def [of c])
  then show ?thesis by (simp add: to_lower_def [of "to_lower c"])
qed

lemma map_to_lower_idem [simp]: "map (to_lower \<circ> to_lower) s = map to_lower s"
  by (rule map_cong) simp_all

section \<open>Maps and lists\<close>

text \<open>The erase loops of the code drop every entry whose value fails a test.\<close>

definition keep_entries :: "('k \<Rightarrow> 'v \<Rightarrow> bool) \<Rightarrow> ('k \<rightharpoonup> 'v) \<Rightarrow> 'k \<rightharpoonup> 'v" where
  "keep_entries P m = (\<lambda>k. case m k of None \<Rightarrow> None | Some v \<Rightarrow> if P k v then Some v else None)"

lemma keep_entries_Some [simp]:
  "keep_entries P m k = Some v \<longleftrightarrow> m k = Some v \<and> P k v"
  by (auto simp: keep_entries_def split: option.splits)

lemma keep_entries_None:
  "keep_entries P m k = None \<longleftrightarrow> (\<forall>v. m k = Some v \<longrightarrow> \<not> P k v)"
  by (auto simp: keep_entries_def split: option.splits)

lemma keep_entries_empty [simp]: "keep_entries P Map.empty = Map.empty"
  by (simp add: keep_entries_def)

lemma keep_entries_upd [simp]:
  "keep_entries P (m(k \<mapsto> v)) =
     (if P k v then (keep_entries P m)(k \<mapsto> v) else (keep_entries P m)(k := None))"
  by (rule ext) (simp add: keep_entries_def)

lemma dom_keep_entries: "dom (keep_entries P m) \<subseteq> dom m"
  by (auto simp: keep_entries_def split: option.splits)

lemma keep_entries_conj:
  "keep_entries P (keep_entries Q m) = keep_entries (\<lambda>k v. P k v \<and> Q k v) m"
  by (rule ext) (auto simp: keep_entries_def split: option.splits)

lemma subset_card_eq: "finite B \<Longrightarrow> A \<subseteq> B \<Longrightarrow> card A = card B \<longleftrightarrow> A = B"
  by (auto dest: card_subset_eq)

end
