(* ===== verification/Doubles.thy ===== *)
theory Doubles
  imports Prelude Complex_Main "HOL-Library.Log_Nat"
begin

text \<open>
  IEEE-754 binary64, the C++ \<open>double\<close>, in round-to-nearest-even: a value is a rational, an
  infinity or NaN, and every operation is the exact operation followed by one rounding
  \<open>rnd\<close> to 53 significant bits (with the gradual underflow and the overflow of the format).
  The two zeros are identified: no modelled code looks at the sign of a zero or divides by one
  that can be negative.
\<close>

section \<open>The binary exponent of a positive rational\<close>

definition ilog2 :: "rat \<Rightarrow> int" where
  "ilog2 x = (let (n, d) = quotient_of x; e = bitlen n - bitlen d
              in if 2 powi e \<le> x then e else e - 1)"

lemma two_powi_pos [simp]: "(0::rat) < 2 powi e"
  by (simp add: zero_less_power_int)

lemma two_powi_mono: "a \<le> b \<Longrightarrow> (2::rat) powi a \<le> 2 powi b"
  by (rule power_int_increasing) auto

lemma two_powi_add: "(2::rat) powi (a + b) = 2 powi a * 2 powi b"
  by (simp add: power_int_add)

lemma bitlen_powi_bounds:
  assumes "0 < (n::int)"
  shows "2 powi (bitlen n - 1) \<le> (of_int n :: rat) \<and> (of_int n :: rat) < 2 powi (bitlen n)"
proof -
  have b: "1 \<le> bitlen n"
    using assms by (metis bitlen_eq_zero_iff bitlen_nonneg int_one_le_iff_zero_less leD less_le)
  have lo: "(of_int (2 ^ nat (bitlen n - 1)) :: rat) \<le> of_int n"
    using bitlen_bounds [OF assms] by (simp only: of_int_le_iff)
  have hi: "(of_int n :: rat) < of_int (2 ^ nat (bitlen n))"
    using bitlen_bounds [OF assms] by (simp only: of_int_less_iff)
  show ?thesis
    using lo hi b by (simp add: power_int_def)
qed

lemma ilog2_bounds:
  assumes "0 < x"
  shows "2 powi ilog2 x \<le> x \<and> x < 2 powi (ilog2 x + 1)"
proof -
  obtain n d where q: "quotient_of x = (n, d)" by (cases "quotient_of x")
  then have d: "0 < d" by (rule quotient_of_denom_pos)
  have xeq: "x = of_int n / of_int d" using q by (rule quotient_of_div)
  have n: "0 < n" using assms xeq d by (simp add: zero_less_divide_iff)
  let ?N = "bitlen n" and ?D = "bitlen d"
  have upper: "x < 2 powi (?N - ?D + 1)"
  proof -
    have "of_int n < (2::rat) powi ?N" using bitlen_powi_bounds [OF n] by simp
    also have "\<dots> = 2 powi (?N - ?D + 1) * 2 powi (?D - 1)"
      by (simp add: power_int_add [symmetric])
    also have "\<dots> \<le> 2 powi (?N - ?D + 1) * of_int d"
      using bitlen_powi_bounds [OF d] by (intro mult_left_mono) auto
    finally show ?thesis using d by (simp add: xeq divide_less_eq)
  qed
  have lower: "2 powi (?N - ?D - 1) \<le> x"
  proof -
    have "2 powi (?N - ?D - 1) * of_int d \<le> (2::rat) powi (?N - ?D - 1) * 2 powi ?D"
      using bitlen_powi_bounds [OF d] by (intro mult_left_mono) auto
    also have "\<dots> = 2 powi (?N - 1)" by (simp add: power_int_add [symmetric])
    also have "\<dots> \<le> of_int n" using bitlen_powi_bounds [OF n] by simp
    finally show ?thesis using d by (simp add: xeq le_divide_eq)
  qed
  show ?thesis
  proof (cases "2 powi (?N - ?D) \<le> x")
    case True
    then show ?thesis using upper by (simp add: ilog2_def q Let_def)
  next
    case False
    then show ?thesis using lower by (simp add: ilog2_def q Let_def)
  qed
qed

lemma ilog2_mono:
  assumes "0 < x" "x \<le> y"
  shows "ilog2 x \<le> ilog2 y"
proof (rule ccontr)
  assume "\<not> ilog2 x \<le> ilog2 y"
  then have "ilog2 y + 1 \<le> ilog2 x" by simp
  then have "2 powi (ilog2 y + 1) \<le> (2::rat) powi ilog2 x" by (rule two_powi_mono)
  with ilog2_bounds [of x] ilog2_bounds [of y] assms show False by auto
qed

section \<open>Rounding\<close>

definition rne :: "rat \<Rightarrow> int" where
  "rne x = (let f = floor x; r = x - of_int f
            in if r < 1/2 then f else if 1/2 < r then f + 1 else if even f then f else f + 1)"

definition ulp :: "rat \<Rightarrow> rat" where
  "ulp x = 2 powi (max (ilog2 \<bar>x\<bar> - 52) (-1074))"

definition rnd :: "rat \<Rightarrow> rat" where
  "rnd x = (if x = 0 then 0 else of_int (rne (x / ulp x)) * ulp x)"

lemma rne_cases: "rne x = floor x \<or> rne x = floor x + 1"
  by (simp add: rne_def Let_def)

lemma rne_of_int [simp]: "rne (of_int n) = n"
  by (simp add: rne_def Let_def)

lemma rne_mono:
  assumes "x \<le> y"
  shows "rne x \<le> rne y"
proof (cases "floor x = floor y")
  case True
  then show ?thesis using assms by (auto simp: rne_def Let_def)
next
  case False
  have "floor x \<le> floor y" using assms by (rule floor_mono)
  with False have "floor x + 1 \<le> floor y" by simp
  then show ?thesis using rne_cases [of x] rne_cases [of y] by auto
qed

lemma ulp_pos [simp]: "0 < ulp x"
  by (simp add: ulp_def)

lemma rne_le_int: "x \<le> of_int n \<Longrightarrow> rne x \<le> n"
  using rne_mono [of x "of_int n"] by simp

lemma rne_ge_int: "of_int n \<le> x \<Longrightarrow> n \<le> rne x"
  using rne_mono [of "of_int n" x] by simp

lemma rne_minus: "rne (- x) = - rne x"
proof (cases "x = of_int (floor x)")
  case True
  then obtain n where "x = of_int n" by blast
  then show ?thesis using rne_of_int [of "- n"] by simp
next
  case False
  then have "ceiling x = floor x + 1"
    by (metis ceiling_altdef)
  then have "floor (- x) = - floor x - 1"
    by (simp add: floor_minus)
  then show ?thesis
    by (auto simp: rne_def Let_def)
qed

lemma ulp_minus [simp]: "ulp (- x) = ulp x"
  by (simp add: ulp_def)

lemma rnd_minus: "rnd (- x) = - rnd x"
  by (simp add: rnd_def rne_minus)

lemma rnd_0 [simp]: "rnd 0 = 0"
  by (simp add: rnd_def)

lemma rnd_nonneg: "0 \<le> x \<Longrightarrow> 0 \<le> rnd x"
  using rne_ge_int [of 0 "x / ulp x"]
  by (auto simp: rnd_def less_imp_le [OF ulp_pos])

lemma rnd_le_boundary:
  assumes "0 < x" "x \<le> of_int n * ulp x"
  shows "rnd x \<le> of_int n * ulp x"
proof -
  have "x / ulp x \<le> of_int n" using assms(2) by (simp add: divide_le_eq)
  then have "rne (x / ulp x) \<le> n" by (rule rne_le_int)
  then show ?thesis using assms(1) by (simp add: rnd_def mult_right_mono less_imp_le [OF ulp_pos])
qed

lemma rnd_ge_boundary:
  assumes "0 < x" "of_int n * ulp x \<le> x"
  shows "of_int n * ulp x \<le> rnd x"
proof -
  have "of_int n \<le> x / ulp x" using assms(2) by (simp add: le_divide_eq)
  then have "n \<le> rne (x / ulp x)" by (rule rne_ge_int)
  then show ?thesis using assms(1) by (simp add: rnd_def mult_right_mono less_imp_le [OF ulp_pos])
qed

lemma rnd_mono_pos:
  assumes x: "0 < x" and xy: "x \<le> y"
  shows "rnd x \<le> rnd y"
proof -
  have y: "0 < y" using x xy by simp
  define kx where "kx = max (ilog2 x - 52) (-1074)"
  define ky where "ky = max (ilog2 y - 52) (-1074)"
  have ux: "ulp x = 2 powi kx" and uy: "ulp y = 2 powi ky"
    using x y by (simp_all add: ulp_def kx_def ky_def)
  have k: "kx \<le> ky" using ilog2_mono [OF x xy] by (simp add: kx_def ky_def)
  show ?thesis
  proof (cases "kx = ky")
    case True
    then have u: "ulp x = ulp y" using ux uy by simp
    have "x / ulp y \<le> y / ulp y" using xy by (intro divide_right_mono) (auto intro: less_imp_le)
    then have "rne (x / ulp x) \<le> rne (y / ulp y)" unfolding u by (rule rne_mono)
    then show ?thesis using x y u by (simp add: rnd_def mult_right_mono less_imp_le [OF ulp_pos])
  next
    case False
    then have kk: "ky = ilog2 y - 52" "kx < ky" using k by (auto simp: kx_def ky_def max_def split: if_splits)
    then have lxy: "ilog2 x + 1 \<le> ilog2 y" by (simp add: kx_def)
    let ?B = "(2::rat) powi ilog2 y"
    have Bx: "?B = of_int (2 ^ nat (ilog2 y - kx)) * ulp x"
      using kk by (simp add: ux power_int_def [of 2 "ilog2 y - kx", symmetric] power_int_nonneg_exp [symmetric]
          power_int_add [symmetric])
    have By: "?B = of_int (2 ^ 52) * ulp y"
      using kk power_int_add [of "2::rat" 52 ky] by (simp add: uy)
    have "x \<le> ?B"
      using ilog2_bounds [OF x] two_powi_mono [OF lxy] by simp
    then have "rnd x \<le> ?B" unfolding Bx by (rule rnd_le_boundary [OF x])
    moreover have "?B \<le> y" using ilog2_bounds [OF y] by simp
    then have "?B \<le> rnd y" unfolding By by (rule rnd_ge_boundary [OF y])
    ultimately show ?thesis by simp
  qed
qed

lemma rnd_mono: "x \<le> y \<Longrightarrow> rnd x \<le> rnd y"
proof (cases "0 < x")
  case True
  then show "x \<le> y \<Longrightarrow> rnd x \<le> rnd y" by (rule rnd_mono_pos)
next
  case False
  assume xy: "x \<le> y"
  show ?thesis
  proof (cases "0 \<le> y")
    case True
    have "0 \<le> rnd (- x)" using False by (intro rnd_nonneg) simp
    with rnd_nonneg [OF True] show ?thesis by (simp add: rnd_minus)
  next
    case False
    then have "rnd (- y) \<le> rnd (- x)" using xy by (intro rnd_mono_pos) auto
    then show ?thesis by (simp add: rnd_minus)
  qed
qed

lemma rnd_exact:
  assumes "x = of_int m * ulp x"
  shows "rnd x = x"
proof -
  have "x / ulp x = of_int m" using assms less_imp_neq [OF ulp_pos [of x]] by (simp add: divide_eq_eq)
  then show ?thesis using assms by (simp add: rnd_def)
qed

text \<open>Integers below $2^{53}$ are values of the format.\<close>

lemma rnd_of_int_pos:
  assumes "0 < n" "n < 2 ^ 53"
  shows "rnd (of_int n) = of_int n"
proof -
  let ?x = "of_int n :: rat"
  have x: "0 < ?x" using assms by simp
  define k where "k = max (ilog2 ?x - 52) (-1074)"
  have "?x < of_int (2 ^ 53)" using assms(2) by (simp only: of_int_less_iff)
  then have "?x < 2 powi 53" by simp
  with ilog2_bounds [OF x] have "(2::rat) powi ilog2 ?x < 2 powi 53" by linarith
  then have "ilog2 ?x < 53" using two_powi_mono [of 53 "ilog2 ?x"] by (cases "ilog2 ?x < 53") auto
  then have k: "k \<le> 0" by (simp add: k_def)
  have u: "ulp ?x = 2 powi k" using x by (simp add: ulp_def k_def)
  have "(2::rat) powi k * 2 ^ nat (- k) = 2 powi k * 2 powi (- k)"
    using k by (simp add: power_int_nonneg_exp)
  also have "\<dots> = 1" by (simp add: power_int_add [symmetric])
  finally have "?x = of_int (n * 2 ^ nat (- k)) * ulp ?x" by (simp add: u mult.commute mult.left_commute)
  then show ?thesis by (rule rnd_exact)
qed

lemma rnd_of_int: "\<bar>n\<bar> < 2 ^ 53 \<Longrightarrow> rnd (of_int n) = of_int n"
proof (cases "n = 0")
  case False
  assume n: "\<bar>n\<bar> < 2 ^ 53"
  show ?thesis
  proof (cases "0 < n")
    case True
    then show ?thesis using n by (intro rnd_of_int_pos) auto
  next
    case False
    then have "rnd (of_int (- n)) = of_int (- n)"
      using n \<open>n \<noteq> 0\<close> by (intro rnd_of_int_pos) auto
    then show ?thesis using rnd_minus [of "of_int n"] by simp
  qed
qed simp

section \<open>Values and operations\<close>

text \<open>
  \<open>DInf True\<close> is the negative infinity. Comparisons with NaN are false, as in C++;
  \<open>std::max(a, b)\<close> is \<open>a < b ? b : a\<close> and \<open>std::min(a, b)\<close> is \<open>b < a ? b : a\<close>.
\<close>

datatype dbl = DFin rat | DInf bool | DNaN

definition mk_dbl :: "rat \<Rightarrow> dbl" where
  "mk_dbl x = (let r = rnd x in if 2 ^ 1024 \<le> \<bar>r\<bar> then DInf (x < 0) else DFin r)"

definition dbl_of_int :: "int \<Rightarrow> dbl" where
  "dbl_of_int n = mk_dbl (of_int n)"

fun dlt :: "dbl \<Rightarrow> dbl \<Rightarrow> bool" where
  "dlt (DFin a) (DFin b) = (a < b)"
| "dlt (DFin a) (DInf n) = (\<not> n)"
| "dlt (DInf n) (DFin b) = n"
| "dlt (DInf m) (DInf n) = (m \<and> \<not> n)"
| "dlt _ _ = False"

fun deq :: "dbl \<Rightarrow> dbl \<Rightarrow> bool" where
  "deq (DFin a) (DFin b) = (a = b)"
| "deq (DInf m) (DInf n) = (m = n)"
| "deq _ _ = False"

definition dle :: "dbl \<Rightarrow> dbl \<Rightarrow> bool" where
  "dle a b \<longleftrightarrow> dlt a b \<or> deq a b"

definition is_finite :: "dbl \<Rightarrow> bool" where
  "is_finite a = (case a of DFin _ \<Rightarrow> True | _ \<Rightarrow> False)"

definition dmax :: "dbl \<Rightarrow> dbl \<Rightarrow> dbl" where
  "dmax a b = (if dlt a b then b else a)"

definition dmin :: "dbl \<Rightarrow> dbl \<Rightarrow> dbl" where
  "dmin a b = (if dlt b a then b else a)"

fun dneg :: "dbl \<Rightarrow> dbl" where
  "dneg (DFin a) = DFin (- a)"
| "dneg (DInf n) = DInf (\<not> n)"
| "dneg DNaN = DNaN"

fun dabs :: "dbl \<Rightarrow> dbl" where
  "dabs (DFin a) = DFin \<bar>a\<bar>"
| "dabs (DInf n) = DInf False"
| "dabs DNaN = DNaN"

fun dadd :: "dbl \<Rightarrow> dbl \<Rightarrow> dbl" where
  "dadd (DFin a) (DFin b) = mk_dbl (a + b)"
| "dadd (DFin a) (DInf n) = DInf n"
| "dadd (DInf m) (DFin b) = DInf m"
| "dadd (DInf m) (DInf n) = (if m = n then DInf m else DNaN)"
| "dadd _ _ = DNaN"

definition dsub :: "dbl \<Rightarrow> dbl \<Rightarrow> dbl" where
  "dsub a b = dadd a (dneg b)"

fun dmul :: "dbl \<Rightarrow> dbl \<Rightarrow> dbl" where
  "dmul (DFin a) (DFin b) = mk_dbl (a * b)"
| "dmul (DFin a) (DInf n) = (if a = 0 then DNaN else DInf (n \<noteq> (a < 0)))"
| "dmul (DInf m) (DFin b) = (if b = 0 then DNaN else DInf (m \<noteq> (b < 0)))"
| "dmul (DInf m) (DInf n) = DInf (m \<noteq> n)"
| "dmul _ _ = DNaN"

fun ddiv :: "dbl \<Rightarrow> dbl \<Rightarrow> dbl" where
  "ddiv (DFin a) (DFin b) = (if b = 0 then if a = 0 then DNaN else DInf (a < 0) else mk_dbl (a / b))"
| "ddiv (DFin a) (DInf n) = DFin 0"
| "ddiv (DInf m) (DFin b) = DInf (m \<noteq> (b < 0))"
| "ddiv _ _ = DNaN"

text \<open>
  \<open>std::ceil\<close>: the exact ceiling is a value of the format, so no rounding is needed.
\<close>

fun dceil :: "dbl \<Rightarrow> dbl" where
  "dceil (DFin a) = DFin (of_int (ceiling a))"
| "dceil d = d"

section \<open>Order facts\<close>

lemma dle_Fin [simp]: "dle (DFin a) (DFin b) \<longleftrightarrow> a \<le> b"
  by (auto simp: dle_def)

lemma is_finite_Fin [simp]: "is_finite (DFin a)"
  by (simp add: is_finite_def)

lemma dle_Inf [simp]:
  "dle (DFin a) (DInf n) = (\<not> n)"
  "dle (DInf n) (DFin a) = n"
  "dle (DInf m) (DInf n) = (m \<or> \<not> n)"
  by (auto simp: dle_def)

lemma dlt_irrefl [simp]: "\<not> dlt a a"
  by (cases a) auto

lemma dlt_trans: "dlt a b \<Longrightarrow> dlt b c \<Longrightarrow> dlt a c"
  by (cases a; cases b; cases c) auto

lemma dlt_NaN [simp]: "\<not> dlt a DNaN" "\<not> dlt DNaN a"
  by (cases a; simp)+

lemma deq_NaN [simp]: "\<not> deq a DNaN" "\<not> deq DNaN a"
  by (cases a; simp)+

lemma dle_NaN [simp]: "\<not> dle a DNaN" "\<not> dle DNaN a"
  by (simp_all add: dle_def)

lemma dle_trans: "dle a b \<Longrightarrow> dle b c \<Longrightarrow> dle a c"
  by (cases a; cases b; cases c) (auto simp: dle_def)

lemma mk_dbl_not_NaN [simp]: "mk_dbl x \<noteq> DNaN"
  by (simp add: mk_dbl_def Let_def)

lemma mk_dbl_0 [simp]: "mk_dbl 0 = DFin 0"
  by (simp add: mk_dbl_def)

lemma mk_dbl_mono: "x \<le> y \<Longrightarrow> dle (mk_dbl x) (mk_dbl y)"
proof -
  assume xy: "x \<le> y"
  then have r: "rnd x \<le> rnd y" by (rule rnd_mono)
  have sx: "0 \<le> x \<Longrightarrow> 0 \<le> rnd x" and sy: "0 \<le> y \<Longrightarrow> 0 \<le> rnd y"
    by (rule rnd_nonneg, simp)+
  have nx: "x < 0 \<Longrightarrow> rnd x \<le> 0" and ny: "y < 0 \<Longrightarrow> rnd y \<le> 0"
    using rnd_mono [of x 0] rnd_mono [of y 0] by simp_all
  show ?thesis
    using xy r sx sy nx ny
    by (cases "0 \<le> x"; cases "0 \<le> y") (auto simp: mk_dbl_def Let_def dle_def abs_if)
qed

lemma mk_dbl_of_int: "\<bar>n\<bar> < 2 ^ 53 \<Longrightarrow> mk_dbl (of_int n) = DFin (of_int n)"
proof -
  assume n: "\<bar>n\<bar> < 2 ^ 53"
  have "(\<bar>of_int n\<bar> :: rat) = of_int \<bar>n\<bar>" by simp
  also have "\<dots> < of_int (2 ^ 53)" using n by (simp only: of_int_less_iff)
  also have "\<dots> < (2::rat) ^ 1024" by simp
  finally show ?thesis by (simp add: mk_dbl_def rnd_of_int [OF n])
qed

section \<open>Durations in floating-point milliseconds\<close>

text \<open>
  \<open>duration<double, std::milli>(d).count()\<close> on an integer nanosecond count converts the
  count to \<open>double\<close> and divides by $10^6$.
\<close>

definition dur_ms :: "time \<Rightarrow> dbl" where
  "dur_ms d = ddiv (dbl_of_int d) (DFin 1000000)"

lemma dle_ddiv_pos: "dle a b \<Longrightarrow> 0 < c \<Longrightarrow> dle (ddiv a (DFin c)) (ddiv b (DFin c))"
proof -
  assume ab: "dle a b" and c: "0 < c"
  have fin: "dle (mk_dbl (p / c)) (mk_dbl (q / c))" if "p \<le> q" for p q
    using that c by (intro mk_dbl_mono divide_right_mono) auto
  have top: "dle (mk_dbl p) (DInf False)" and bot: "dle (DInf True) (mk_dbl p)" for p
    by (auto simp: mk_dbl_def Let_def)
  show ?thesis using ab c fin top bot
    by (cases a; cases b) auto
qed

lemma dur_ms_mono: "d \<le> d' \<Longrightarrow> dle (dur_ms d) (dur_ms d')"
  unfolding dur_ms_def dbl_of_int_def by (intro dle_ddiv_pos mk_dbl_mono) auto

end
