(* ===== verification/Freshness.thy ===== *)
theory Freshness
  imports Prelude Doubles
begin

text \<open>
  Evidence that a cached value was really read from the device: \<open>PollReadStamp\<close>
  (read\_freshness.h), the start and completion time of one physical read with the epoch of the
  driver that made it, and \<open>PollReadGate\<close> (poll\_read\_gate.h), the per-tag gate that
  suspends and resumes polling and decides the quality published for a stamped value.
\<close>

section \<open>PollReadStamp\<close>

record poll_read_stamp =
  started :: time
  completed_at :: time
  source_epoch :: u64

definition no_stamp :: poll_read_stamp where
  "no_stamp = \<lparr>started = no_time, completed_at = no_time, source_epoch = 0\<rparr>"

definition satisfies_age ::
    "poll_read_stamp \<Rightarrow> time \<Rightarrow> dbl \<Rightarrow> bool \<Rightarrow> time \<Rightarrow> u64 \<Rightarrow> bool" where
  "satisfies_age s requested maxAgeMs good now expectedEpoch =
     (if \<not> is_finite maxAgeMs \<or> dlt maxAgeMs (DFin 0) \<or> source_epoch s \<noteq> expectedEpoch \<or>
         \<not> good \<or> started s = no_time \<or> completed_at s < started s \<or> now < completed_at s
      then False
      else if deq maxAgeMs (DFin 0) then requested \<le> started s
      else dle (dur_ms (now - completed_at s)) maxAgeMs)"

text \<open>\<open>maxAge\<close> is a \<open>chrono::milliseconds\<close>: an integer count of milliseconds.\<close>

definition satisfies ::
    "poll_read_stamp \<Rightarrow> time \<Rightarrow> int \<Rightarrow> bool \<Rightarrow> time \<Rightarrow> u64 \<Rightarrow> bool" where
  "satisfies s requested maxAge good now expectedEpoch =
     satisfies_age s requested (dbl_of_int maxAge) good now expectedEpoch"

lemma satisfies_ageD:
  assumes "satisfies_age s req age good now e"
  shows "source_epoch s = e" "good" "started s \<noteq> no_time" "started s \<le> completed_at s"
    "completed_at s \<le> now"
  using assms by (auto simp: satisfies_age_def split: if_splits)

lemma satisfies_age_zero:
  "satisfies_age s req (DFin 0) good now e \<longleftrightarrow>
     source_epoch s = e \<and> good \<and> started s \<noteq> no_time \<and> started s \<le> completed_at s \<and>
     completed_at s \<le> now \<and> req \<le> started s"
  by (auto simp: satisfies_age_def)

text \<open>
  What a freshness test promises its clients: it accepts evidence of one epoch only, and only
  reads begun at or after the boundary it is asked about.
\<close>

locale freshness_test =
  fixes fresh :: "'s \<Rightarrow> time \<Rightarrow> time \<Rightarrow> 'e \<Rightarrow> bool"
    and begun :: "'s \<Rightarrow> time"
    and epoch_of :: "'s \<Rightarrow> 'e"
  assumes fresh_epoch: "fresh s b n e \<Longrightarrow> epoch_of s = e"
    and fresh_begun: "fresh s b n e \<Longrightarrow> b \<le> begun s"
    and fresh_earlier: "fresh s b n e \<Longrightarrow> b' \<le> b \<Longrightarrow> fresh s b' n e"
    and fresh_later: "fresh s b n e \<Longrightarrow> n \<le> n' \<Longrightarrow> fresh s b n' e"
begin

lemma in_flight_rejected: "begun s < b \<Longrightarrow> \<not> fresh s b n e"
  using fresh_begun by fastforce

lemma one_epoch: "fresh s b n e \<Longrightarrow> fresh s b' n' e' \<Longrightarrow> e = e'"
  using fresh_epoch by metis

lemma fresh_window: "fresh s b n e \<Longrightarrow> b' \<le> b \<Longrightarrow> n \<le> n' \<Longrightarrow> fresh s b' n' e"
  by (blast intro: fresh_earlier fresh_later)

end

text \<open>The stamp's test at maximum age 0, the one the gate uses.\<close>

definition stamp_fresh :: "poll_read_stamp \<Rightarrow> time \<Rightarrow> time \<Rightarrow> u64 \<Rightarrow> bool" where
  "stamp_fresh s boundary now e = satisfies_age s boundary (DFin 0) True now e"

interpretation stamp: freshness_test stamp_fresh started source_epoch
  by unfold_locales (auto simp: stamp_fresh_def satisfies_age_zero)

section \<open>PollReadGate\<close>

datatype quality = Waiting | Inactive | Bad | Good

record poll_read_gate =
  gate_epoch :: u64
  gate_after :: time
  gate_active :: bool

definition new_gate :: poll_read_gate where
  "new_gate = \<lparr>gate_epoch = 0, gate_after = no_time, gate_active = True\<rparr>"

definition restart :: "u64 \<Rightarrow> time \<Rightarrow> poll_read_gate \<Rightarrow> poll_read_gate" where
  "restart epoch now g = g\<lparr>gate_epoch := epoch, gate_after := now, gate_active := True\<rparr>"

definition is_active :: "poll_read_gate \<Rightarrow> bool" where
  "is_active g = gate_active g"

definition suspend :: "poll_read_gate \<Rightarrow> poll_read_gate" where
  "suspend g = g\<lparr>gate_active := False\<rparr>"

definition resume :: "time \<Rightarrow> poll_read_gate \<Rightarrow> poll_read_gate" where
  "resume now g = (if \<not> gate_active g then g\<lparr>gate_active := True, gate_after := now\<rparr> else g)"

definition gate_quality :: "poll_read_gate \<Rightarrow> poll_read_stamp \<Rightarrow> bool \<Rightarrow> time \<Rightarrow> quality" where
  "gate_quality g stamp good now =
     (if \<not> gate_active g then Inactive
      else if \<not> good then Bad
      else if satisfies_age stamp (gate_after g) (DFin 0) True now (gate_epoch g) then Good
      else Waiting)"

text \<open>The calls the runtime makes, in the order it makes them.\<close>

datatype gate_op = Restart u64 time | Suspend | Resume time

fun gate_step :: "poll_read_gate \<Rightarrow> gate_op \<Rightarrow> poll_read_gate" where
  "gate_step g (Restart e t) = restart e t g"
| "gate_step g Suspend = suspend g"
| "gate_step g (Resume t) = resume t g"

definition gate_run :: "poll_read_gate \<Rightarrow> gate_op list \<Rightarrow> poll_read_gate" where
  "gate_run g ops = foldl gate_step g ops"

fun op_not_before :: "time \<Rightarrow> gate_op \<Rightarrow> bool" where
  "op_not_before t (Restart e u) = (t \<le> u)"
| "op_not_before t Suspend = True"
| "op_not_before t (Resume u) = (t \<le> u)"

fun is_restart :: "gate_op \<Rightarrow> bool" where
  "is_restart (Restart e t) = True"
| "is_restart _ = False"

lemmas gate_defs = restart_def suspend_def resume_def

lemma gate_run_simps [simp]:
  "gate_run g [] = g"
  "gate_run g (x # xs) = gate_run (gate_step g x) xs"
  "gate_run g (xs @ ys) = gate_run (gate_run g xs) ys"
  by (simp_all add: gate_run_def)

lemma gate_quality_Good_iff:
  "gate_quality g s good now = Good \<longleftrightarrow>
     gate_active g \<and> good \<and> stamp_fresh s (gate_after g) now (gate_epoch g)"
  by (simp add: gate_quality_def stamp_fresh_def)

text \<open>Operations made after a boundary never move it back, and only a restart changes the epoch.\<close>

lemma gate_step_after: "t \<le> gate_after g \<Longrightarrow> op_not_before t x \<Longrightarrow> t \<le> gate_after (gate_step g x)"
  by (cases x) (auto simp: gate_defs)

lemma gate_run_after:
  "t \<le> gate_after g \<Longrightarrow> list_all (op_not_before t) xs \<Longrightarrow> t \<le> gate_after (gate_run g xs)"
  by (induction xs arbitrary: g) (auto simp: gate_step_after)

lemma gate_step_epoch: "\<not> is_restart x \<Longrightarrow> gate_epoch (gate_step g x) = gate_epoch g"
  by (cases x) (auto simp: gate_defs)

lemma gate_run_epoch: "list_all (\<lambda>x. \<not> is_restart x) xs \<Longrightarrow> gate_epoch (gate_run g xs) = gate_epoch g"
  by (induction xs arbitrary: g) (auto simp: gate_step_epoch)

text \<open>
  C10. A read that was already in flight when a driver was replaced, or one made by another
  driver generation, can never restore GOOD: whatever the runtime does to the gate before and
  after \<open>restart(e, t)\<close> (as long as it does not restart again, and its clock does not run
  backwards), a GOOD verdict means the value was read by epoch \<open>e\<close>, starting at \<open>t\<close> or later.
\<close>

theorem restart_requires_new_read:
  assumes "list_all (op_not_before t) post" and "list_all (\<lambda>x. \<not> is_restart x) post"
    and "gate_quality (gate_run g (pre @ Restart e t # post)) s good now = Good"
  shows "good \<and> source_epoch s = e \<and> t \<le> started s \<and> started s \<le> completed_at s \<and> completed_at s \<le> now"
proof -
  let ?g = "gate_run (restart e t (gate_run g pre)) post"
  have e: "gate_epoch ?g = e" using assms(2) by (simp add: gate_run_epoch restart_def)
  have a: "t \<le> gate_after ?g" using assms(1) by (intro gate_run_after) (simp_all add: restart_def)
  from assms(3) have f: "stamp_fresh s (gate_after ?g) now e" and good
    using e by (auto simp: gate_quality_Good_iff)
  from stamp.fresh_earlier [OF f a] \<open>good\<close> show ?thesis
    by (auto simp: stamp_fresh_def satisfies_age_zero)
qed

theorem restart_requires_new_read_witness:
  "gate_quality (gate_run new_gate ([Suspend] @ Restart 7 100 # [Suspend, Resume 150]))
     \<lparr>started = 160, completed_at = 170, source_epoch = 7\<rparr> True 200 = Good \<and> (100::time) \<le> 160"
proof -
  let ?s = "\<lparr>started = 160, completed_at = 170, source_epoch = 7\<rparr> :: poll_read_stamp"
  have q: "gate_quality (gate_run new_gate ([Suspend] @ Restart 7 100 # [Suspend, Resume 150])) ?s True 200 = Good"
    by (simp add: new_gate_def gate_defs gate_quality_def satisfies_age_zero)
  from restart_requires_new_read [of 100 "[Suspend, Resume 150]" new_gate "[Suspend]" 7 ?s True 200] q
  show ?thesis by simp
qed

text \<open>
  C11. After a suspension, resuming at \<open>t\<close> starts a new read boundary: a GOOD verdict needs a read
  begun at or after \<open>t\<close>, however the gate is used later; and while it is suspended the verdict
  is INACTIVE for every value.
\<close>

theorem resume_requires_new_read:
  assumes "list_all (op_not_before t) post"
  shows "gate_quality (gate_run g (pre @ [Suspend])) s good now = Inactive \<and>
    (gate_quality (gate_run g (pre @ [Suspend, Resume t] @ post)) s good now = Good \<longrightarrow> t \<le> started s)"
proof -
  let ?h = "resume t (suspend (gate_run g pre))"
  have "t \<le> gate_after ?h" by (simp add: gate_defs)
  with assms have a: "t \<le> gate_after (gate_run ?h post)" by (intro gate_run_after)
  have "t \<le> started s" if "gate_quality (gate_run ?h post) s good now = Good"
    using that a stamp.fresh_begun by (fastforce simp: gate_quality_Good_iff)
  then show ?thesis by (simp add: gate_quality_def suspend_def)
qed

theorem resume_requires_new_read_witness:
  "gate_quality (gate_run new_gate [Suspend, Resume 150])
     \<lparr>started = 160, completed_at = 170, source_epoch = 0\<rparr> True 200 = Good \<and> (150::time) \<le> 160"
proof -
  let ?s = "\<lparr>started = 160, completed_at = 170, source_epoch = 0\<rparr> :: poll_read_stamp"
  have q: "gate_quality (gate_run new_gate ([] @ [Suspend, Resume 150] @ [])) ?s True 200 = Good"
    by (simp add: new_gate_def gate_defs gate_quality_def satisfies_age_zero)
  from resume_requires_new_read [of 150 "[]" new_gate "[]" ?s True 200] q
  show ?thesis by simp
qed

end
