(* ===== verification/ActiveSweep.thy ===== *)
theory ActiveSweep
  imports Prelude Doubles
begin

text \<open>
  \<open>ActiveSweep\<close> (active\_sweep.h): how long one connection takes to read each of its active
  tags once. All lanes report to one object; a sweep is complete when every active tag has a
  read that began at or after the current boundary. A \<open>std::set<std::string>\<close> is a set of
  strings (only membership, insertion, removal and size are used), the deque of samples a list
  with the oldest first.
\<close>

record active_sweep =
  active :: "string set"
  seen :: "string set"
  sweep_epoch :: u64
  cycles :: u64
  primed :: bool
  last_ms :: dbl
  boundary :: time
  latest :: time
  samples_last :: time
  samples :: "(time \<times> dbl) list"

definition new_sweep :: active_sweep where
  "new_sweep = \<lparr>active = {}, seen = {}, sweep_epoch = 0, cycles = 0, primed = False,
     last_ms = DFin 0, boundary = no_time, latest = no_time, samples_last = no_time, samples = []\<rparr>"

definition reset :: "time \<Rightarrow> active_sweep \<Rightarrow> active_sweep" where
  "reset now s = s\<lparr>boundary := now, latest := now, seen := {}, samples := [], primed := False,
     cycles := 0, last_ms := DFin 0\<rparr>"

definition configure :: "string set \<Rightarrow> u64 \<Rightarrow> time \<Rightarrow> active_sweep \<Rightarrow> active_sweep" where
  "configure names epoch now s = reset now (s\<lparr>sweep_epoch := epoch, active := names\<rparr>)"

definition set_active :: "string \<Rightarrow> bool \<Rightarrow> u64 \<Rightarrow> time \<Rightarrow> active_sweep \<Rightarrow> active_sweep" where
  "set_active name on epoch now s =
     (if epoch \<noteq> sweep_epoch s then s
      else let changed = (if on then name \<notin> active s else name \<in> active s);
               s' = s\<lparr>active := (if on then insert name (active s) else active s - {name})\<rparr>
           in if changed then reset now s' else s')"

definition drop_old_samples :: "time \<Rightarrow> (time \<times> dbl) list \<Rightarrow> (time \<times> dbl) list" where
  "drop_old_samples finished xs = dropWhile (\<lambda>x. seconds 60 < finished - fst x) xs"

definition completed ::
    "string \<Rightarrow> u64 \<Rightarrow> time \<Rightarrow> time \<Rightarrow> active_sweep \<Rightarrow> active_sweep" where
  "completed name epoch started finished s =
     (if epoch \<noteq> sweep_epoch s \<or> name \<notin> active s \<or> started < boundary s \<or> finished < started then s
      else
        let s1 = (if latest s < finished then s\<lparr>latest := finished\<rparr> else s);
            s2 = s1\<lparr>seen := insert name (seen s1)\<rparr>
        in if card (seen s2) \<noteq> card (active s2) then s2
           else
             let fin = latest s2;
                 s3 = (if primed s2
                       then let ms = dur_ms (fin - boundary s2)
                            in s2\<lparr>last_ms := ms, samples := samples s2 @ [(fin, ms)],
                                  samples_last := fin, cycles := cycles s2 + 1\<rparr>
                       else s2)
             in s3\<lparr>primed := True, boundary := fin, seen := {},
                  samples := drop_old_samples fin (samples s3)\<rparr>)"

text \<open>The snapshot is a JSON object; its fields are a record, \<open>null\<close> is \<open>None\<close>.\<close>

record sweep_report =
  rep_state :: string
  rep_ms_last :: "dbl option"
  rep_avg_10s :: "dbl option"
  rep_avg_60s :: "dbl option"
  rep_last_age_ms :: "dbl option"
  rep_completed :: u64
  rep_work :: nat
  rep_seen :: nat

definition average_samples :: "time \<Rightarrow> int \<Rightarrow> (time \<times> dbl) list \<Rightarrow> dbl option" where
  "average_samples now secs xs =
     (let window = filter (\<lambda>x. now - fst x \<le> seconds secs) xs;
          total = foldl (\<lambda>acc x. dadd acc (snd x)) (DFin 0) window
      in if window = [] then None else Some (ddiv total (dbl_of_int (int (length window)))))"

definition sweep_snapshot :: "time \<Rightarrow> active_sweep \<Rightarrow> sweep_report" where
  "sweep_snapshot now s = \<lparr>
     rep_state = (if active s = {} then ''idle'' else if cycles s \<noteq> 0 then ''measuring'' else ''warming_up''),
     rep_ms_last = (if cycles s \<noteq> 0 then Some (last_ms s) else None),
     rep_avg_10s = average_samples now 10 (samples s),
     rep_avg_60s = average_samples now 60 (samples s),
     rep_last_age_ms = (if cycles s \<noteq> 0 then Some (dur_ms (now - samples_last s)) else None),
     rep_completed = cycles s,
     rep_work = card (active s),
     rep_seen = card (seen s)\<rparr>"

section \<open>The invariant\<close>

text \<open>
  The seen tags are active ones, and never all of them (the completing read empties the set);
  the samples are in time order, none later than the boundary, all within 60 seconds of it, and
  there are none before the sweep is primed.
\<close>

definition sweep_ok :: "active_sweep \<Rightarrow> bool" where
  "sweep_ok s \<longleftrightarrow> finite (active s) \<and> seen s \<subseteq> active s \<and> (active s \<noteq> {} \<longrightarrow> seen s \<noteq> active s) \<and>
     boundary s \<le> latest s \<and> (\<not> primed s \<longrightarrow> samples s = [] \<and> cycles s = 0) \<and>
     sorted (map fst (samples s)) \<and>
     (\<forall>x \<in> set (samples s). fst x \<le> boundary s \<and> boundary s - fst x \<le> seconds 60)"

lemma new_sweep_ok: "sweep_ok new_sweep"
  by (simp add: sweep_ok_def new_sweep_def)

lemma reset_ok: "finite (active s) \<Longrightarrow> sweep_ok (reset now s)"
  by (auto simp: sweep_ok_def reset_def)

lemma configure_ok: "finite names \<Longrightarrow> sweep_ok (configure names epoch now s)"
  by (simp add: configure_def reset_ok)

lemma set_active_ok: "sweep_ok s \<Longrightarrow> sweep_ok (set_active name on epoch now s)"
  unfolding set_active_def Let_def
  by (auto simp: insert_absorb intro!: reset_ok) (auto simp: sweep_ok_def)

lemma sorted_dropWhile: "sorted xs \<Longrightarrow> sorted (dropWhile P xs)"
  by (metis sorted_append takeWhile_dropWhile_id)

lemma drop_old_samples_recent:
  assumes "sorted (map fst xs)" "x \<in> set (drop_old_samples fin xs)"
  shows "fin - fst x \<le> seconds 60"
  using assms
proof (induction xs)
  case (Cons a xs)
  then show ?case
    by (cases "seconds 60 < fin - fst a") (auto simp: drop_old_samples_def)
qed (simp add: drop_old_samples_def)

lemma set_drop_old_samples: "x \<in> set (drop_old_samples fin xs) \<Longrightarrow> x \<in> set xs"
  unfolding drop_old_samples_def by (rule set_dropWhileD)

lemma sorted_drop_old_samples:
  "sorted (map fst xs) \<Longrightarrow> sorted (map fst (drop_old_samples fin xs))"
proof (induction xs)
  case (Cons a xs)
  then show ?case by (auto simp: drop_old_samples_def)
qed (simp add: drop_old_samples_def)

text \<open>What \<open>completed\<close> does, once the size comparison is read as "all active tags are seen".\<close>

definition accepts :: "active_sweep \<Rightarrow> string \<Rightarrow> u64 \<Rightarrow> time \<Rightarrow> time \<Rightarrow> bool" where
  "accepts s name epoch st fi \<longleftrightarrow>
     epoch = sweep_epoch s \<and> name \<in> active s \<and> boundary s \<le> st \<and> st \<le> fi"

lemma completed_rejects: "\<not> accepts s name epoch st fi \<Longrightarrow> completed name epoch st fi s = s"
  by (auto simp: completed_def accepts_def)

lemma completed_partial:
  assumes "sweep_ok s" "accepts s name epoch st fi" "insert name (seen s) \<noteq> active s"
  shows "completed name epoch st fi s =
    s\<lparr>latest := max (latest s) fi, seen := insert name (seen s)\<rparr>"
proof -
  have "card (insert name (seen s)) \<noteq> card (active s)"
    using assms by (subst subset_card_eq) (auto simp: sweep_ok_def accepts_def)
  then show ?thesis
    using assms(2) by (auto simp: completed_def accepts_def Let_def max_def)
qed

lemma completed_full:
  assumes "sweep_ok s" "accepts s name epoch st fi" "insert name (seen s) = active s"
  shows "completed name epoch st fi s =
    (let fin = max (latest s) fi; ms = dur_ms (fin - boundary s) in
     if primed s
     then s\<lparr>seen := {}, cycles := cycles s + 1, primed := True, last_ms := ms, boundary := fin,
            latest := fin, samples_last := fin, samples := drop_old_samples fin (samples s @ [(fin, ms)])\<rparr>
     else s\<lparr>seen := {}, primed := True, boundary := fin, latest := fin, samples := []\<rparr>)"
  using assms
  by (auto simp: completed_def accepts_def Let_def max_def sweep_ok_def drop_old_samples_def)

lemma completed_ok:
  assumes ok: "sweep_ok s"
  shows "sweep_ok (completed name epoch st fi s)"
proof (cases "accepts s name epoch st fi")
  case False
  then show ?thesis using ok by (simp add: completed_rejects)
next
  case acc: True
  show ?thesis
  proof (cases "insert name (seen s) = active s")
    case False
    then show ?thesis
      unfolding completed_partial [OF ok acc False]
      using ok acc by (auto simp: sweep_ok_def accepts_def)
  next
    case True
    let ?fin = "max (latest s) fi"
    let ?xs = "samples s @ [(?fin, dur_ms (?fin - boundary s))]"
    have le: "fst x \<le> ?fin" if "x \<in> set ?xs" for x
      using that ok by (auto simp: sweep_ok_def max_def)
    have srt: "sorted (map fst ?xs)"
      using ok le by (auto simp: sweep_ok_def sorted_append)
    have ne: "active s \<noteq> {}" "finite (active s)" using ok acc by (auto simp: sweep_ok_def accepts_def)
    show ?thesis
      unfolding completed_full [OF ok acc True] Let_def
      using ne le [OF set_drop_old_samples] drop_old_samples_recent [OF srt] sorted_drop_old_samples [OF srt]
      by (auto simp: sweep_ok_def)
  qed
qed

section \<open>Every history keeps the invariant\<close>

datatype sweep_op =
    Configure "string list" u64 time
  | SetActive string bool u64 time
  | Completed string u64 time time

fun sweep_step :: "active_sweep \<Rightarrow> sweep_op \<Rightarrow> active_sweep" where
  "sweep_step s (Configure names e now) = configure (set names) e now s"
| "sweep_step s (SetActive name on e now) = set_active name on e now s"
| "sweep_step s (Completed name e st fi) = completed name e st fi s"

definition sweep_run :: "active_sweep \<Rightarrow> sweep_op list \<Rightarrow> active_sweep" where
  "sweep_run s ops = foldl sweep_step s ops"

lemma sweep_step_ok: "sweep_ok s \<Longrightarrow> sweep_ok (sweep_step s x)"
  by (cases x) (simp_all add: configure_ok set_active_ok completed_ok)

lemma sweep_run_ok: "sweep_ok s \<Longrightarrow> sweep_ok (sweep_run s ops)"
  by (induction ops arbitrary: s) (simp_all add: sweep_run_def sweep_step_ok)

lemma sweep_ok_counts:
  assumes "sweep_ok s"
  shows "card (seen s) \<le> card (active s) \<and> (card (active s) \<noteq> 0 \<longrightarrow> card (seen s) < card (active s))"
proof (cases "active s = {}")
  case True
  then show ?thesis using assms by (simp add: sweep_ok_def)
next
  case False
  then have "seen s \<subset> active s" "finite (active s)" using assms by (auto simp: sweep_ok_def)
  then have "card (seen s) < card (active s)" by (intro psubset_card_mono)
  then show ?thesis by simp
qed

text \<open>
  In every state the object can reach, the report is consistent: the tags seen in the current
  pass are fewer than the active ones (a complete pass is recorded at once), a report of a
  finished sweep needs a completed pass under the present workload, and every retained sample
  lies within the 60 seconds before the current boundary, in time order.
\<close>

theorem sweep_reports_consistent:
  "let s = sweep_run new_sweep ops; r = sweep_snapshot now s in
     seen s \<subseteq> active s \<and> (rep_work r = 0 \<or> rep_seen r < rep_work r) \<and>
     (primed s \<or> rep_ms_last r = None \<and> rep_avg_10s r = None \<and> rep_avg_60s r = None) \<and>
     sorted (map fst (samples s)) \<and>
     (\<forall>x \<in> set (samples s). boundary s - fst x \<in> {0..seconds 60})"
proof -
  let ?s = "sweep_run new_sweep ops"
  have ok: "sweep_ok ?s" by (intro sweep_run_ok new_sweep_ok)
  have work: "rep_work (sweep_snapshot now ?s) = 0 \<or>
      rep_seen (sweep_snapshot now ?s) < rep_work (sweep_snapshot now ?s)"
    using sweep_ok_counts [OF ok] by (auto simp: sweep_snapshot_def)
  have report: "primed ?s \<or> rep_ms_last (sweep_snapshot now ?s) = None \<and>
      rep_avg_10s (sweep_snapshot now ?s) = None \<and> rep_avg_60s (sweep_snapshot now ?s) = None"
    using ok by (cases "primed ?s") (simp_all add: sweep_ok_def sweep_snapshot_def average_samples_def)
  have "seen ?s \<subseteq> active ?s" "sorted (map fst (samples ?s))"
    "\<forall>x \<in> set (samples ?s). boundary ?s - fst x \<in> {0..seconds 60}"
    using ok by (simp_all add: sweep_ok_def)
  with work report show ?thesis unfolding Let_def by blast
qed

theorem sweep_reports_consistent_witness:
  "sorted (map fst (samples (sweep_run new_sweep
     [Configure [''a''] 0 0, SetActive ''a'' True 0 0, Completed ''a'' 0 1 5])))"
  using sweep_reports_consistent [of "[Configure [''a''] 0 0, SetActive ''a'' True 0 0, Completed ''a'' 0 1 5]" 6]
  unfolding Let_def by blast

section \<open>What one sweep measures\<close>

text \<open>A read as a lane reports it: tag, driver epoch, start and finish.\<close>

type_synonym lane_read = "string \<times> u64 \<times> time \<times> time"

definition accepts_read :: "active_sweep \<Rightarrow> lane_read \<Rightarrow> bool" where
  "accepts_read s r = (case r of (n, e, st, fi) \<Rightarrow> accepts s n e st fi)"

definition run_reads :: "active_sweep \<Rightarrow> lane_read list \<Rightarrow> active_sweep" where
  "run_reads s rs = sweep_run s (map (\<lambda>(n, e, st, fi). Completed n e st fi) rs)"

definition covered :: "active_sweep \<Rightarrow> lane_read list \<Rightarrow> string set" where
  "covered s rs = fst ` set (filter (accepts_read s) rs)"

definition last_finish :: "active_sweep \<Rightarrow> lane_read list \<Rightarrow> time" where
  "last_finish s rs = Max (insert (boundary s) ((\<lambda>(n, e, st, fi). fi) ` set (filter (accepts_read s) rs)))"

lemma run_reads_Nil [simp]: "run_reads s [] = s"
  by (simp add: run_reads_def sweep_run_def)

lemma run_reads_snoc [simp]:
  "run_reads s (rs @ [(n, e, st, fi)]) = completed n e st fi (run_reads s rs)"
  by (simp add: run_reads_def sweep_run_def)

lemma run_reads_ok: "sweep_ok s \<Longrightarrow> sweep_ok (run_reads s rs)"
  by (simp add: run_reads_def sweep_run_ok)

lemma covered_snoc: "covered s (rs @ [(n, e, st, fi)]) =
    (if accepts s n e st fi then insert n (covered s rs) else covered s rs)"
  by (auto simp: covered_def accepts_read_def)

lemma covered_active: "covered s rs \<subseteq> active s"
  by (auto simp: covered_def accepts_read_def accepts_def)

lemma last_finish_snoc: "last_finish s (rs @ [(n, e, st, fi)]) =
    (if accepts s n e st fi then max (last_finish s rs) fi else last_finish s rs)"
proof -
  let ?F = "(\<lambda>(n, e, st, fi). fi) ` set (filter (accepts_read s) rs)"
  have "Max (insert fi (insert (boundary s) ?F)) = max fi (Max (insert (boundary s) ?F))"
    by (rule Max_insert) auto
  moreover have "insert (boundary s) (insert fi ?F) = insert fi (insert (boundary s) ?F)" by auto
  ultimately show ?thesis
    by (auto simp: last_finish_def accepts_read_def max.commute)
qed

lemma sweep_in_progress:
  assumes ok: "sweep_ok s" and start: "seen s = {}" "latest s = boundary s"
    and "covered s rs \<noteq> active s"
  shows "run_reads s rs = s\<lparr>latest := last_finish s rs, seen := covered s rs\<rparr>"
  using assms(4)
proof (induction rs rule: rev_induct)
  case Nil
  then show ?case using start by (simp add: covered_def last_finish_def)
next
  case (snoc r rs)
  obtain n e st fi where r: "r = (n, e, st, fi)" by (cases r)
  have nc: "covered s rs \<noteq> active s"
    using snoc.prems covered_active [of s "rs @ [r]"] unfolding r
    by (auto simp: covered_snoc accepts_def split: if_splits)
  let ?s1 = "run_reads s rs"
  have s1: "?s1 = s\<lparr>latest := last_finish s rs, seen := covered s rs\<rparr>" using snoc.IH nc by simp
  have ok1: "sweep_ok ?s1" by (rule run_reads_ok [OF ok])
  have acc: "accepts ?s1 n e st fi = accepts s n e st fi" by (simp add: s1 accepts_def)
  show ?case
  proof (cases "accepts s n e st fi")
    case False
    then have "completed n e st fi ?s1 = ?s1" using acc by (intro completed_rejects) simp
    then show ?thesis using False s1 by (simp add: r covered_snoc last_finish_snoc)
  next
    case True
    then have "insert n (seen ?s1) \<noteq> active ?s1"
      using snoc.prems by (simp add: s1 r covered_snoc)
    from completed_partial [OF ok1 _ this, of e st fi] True acc
    show ?thesis by (simp add: s1 r covered_snoc last_finish_snoc)
  qed
qed

text \<open>
  C38. A sweep is one full pass. Starting from a boundary, the boundary stays while some active tag
  still lacks an accepted read (right epoch, active, begun at or after the boundary, not finished
  before it began); the read that completes the set moves the boundary to the latest accepted
  finish and starts a new pass, and, once primed, records exactly one sample: the time from the
  old boundary to that finish. The first pass after a change of workload only primes.
\<close>

theorem sweep_measures_one_pass:
  assumes ok: "sweep_ok s" and start: "seen s = {}" "latest s = boundary s"
    and part: "covered s rs \<noteq> active s" and full: "covered s (rs @ [r]) = active s"
  shows "let s' = run_reads s (rs @ [r]); fin = last_finish s (rs @ [r]) in
     boundary (run_reads s rs) = boundary s \<and> cycles (run_reads s rs) = cycles s \<and>
     boundary s' = fin \<and> latest s' = fin \<and> seen s' = {} \<and> primed s' \<and>
     (if primed s
      then cycles s' = cycles s + 1 \<and> last_ms s' = dur_ms (fin - boundary s) \<and>
           samples_last s' = fin \<and> (fin, dur_ms (fin - boundary s)) \<in> set (samples s')
      else cycles s' = 0 \<and> samples s' = [])"
proof -
  obtain n e st fi where r: "r = (n, e, st, fi)" by (cases r)
  let ?s1 = "run_reads s rs"
  let ?fin = "last_finish s (rs @ [r])"
  have s1: "?s1 = s\<lparr>latest := last_finish s rs, seen := covered s rs\<rparr>"
    by (rule sweep_in_progress [OF ok start part])
  have ok1: "sweep_ok ?s1" by (rule run_reads_ok [OF ok])
  have acc: "accepts s n e st fi"
    using part full by (auto simp: r covered_snoc split: if_splits)
  then have acc1: "accepts ?s1 n e st fi" by (simp add: s1 accepts_def)
  have ins: "insert n (seen ?s1) = active ?s1" using full acc by (simp add: s1 r covered_snoc)
  have fin: "max (latest ?s1) fi = ?fin" using acc by (simp add: s1 r last_finish_snoc)
  have young: "(?fin, d) \<in> set (drop_old_samples ?fin (xs @ [(?fin, d)]))" for xs d
    by (induction xs) (auto simp: drop_old_samples_def)
  have unprimed: "\<not> primed s \<Longrightarrow> cycles s = 0" using ok by (simp add: sweep_ok_def)
  show ?thesis
    using completed_full [OF ok1 acc1 ins] fin young unprimed
    by (simp add: Let_def r s1)
qed

theorem sweep_measures_one_pass_witness:
  "let s = configure {''a'', ''b''} 1 1000 new_sweep;
       s' = run_reads s [(''a'', 1, 1000, 1500), (''b'', 1, 1200, 1400)]
   in boundary s' = 1500 \<and> primed s' \<and> cycles s' = 0"
proof -
  let ?s = "configure {''a'', ''b''} 1 1000 new_sweep"
  let ?r = "(''b'', 1, 1200, 1400) :: lane_read"
  have ok: "sweep_ok ?s" by (rule configure_ok) simp
  have st: "seen ?s = {}" "latest ?s = boundary ?s" by (simp_all add: configure_def reset_def)
  have p: "covered ?s [(''a'', 1, 1000, 1500)] \<noteq> active ?s"
    by (auto simp: covered_def accepts_read_def accepts_def configure_def reset_def)
  have f: "covered ?s ([(''a'', 1, 1000, 1500)] @ [?r]) = active ?s"
    by (auto simp: covered_def accepts_read_def accepts_def configure_def reset_def)
  have l: "last_finish ?s ([(''a'', 1, 1000, 1500)] @ [?r]) = 1500"
    by (simp add: last_finish_def accepts_read_def accepts_def configure_def reset_def)
  have np: "\<not> primed ?s" by (simp add: configure_def reset_def)
  show ?thesis
    using sweep_measures_one_pass [OF ok st p f] l np by (simp add: Let_def)
qed

end
