(* ===== verification/ConnectionHealth.thy ===== *)
theory ConnectionHealth
  imports Prelude Doubles
begin

text \<open>
  The small state machines that watch one connection: the idle heartbeat
  (idle\_connection\_probe.h), the Modbus read and connection recovery
  (modbus\_read\_recovery.h) and the estimate of a full polling sweep (poll\_sweep\_estimate.h).
\<close>

section \<open>IdleConnectionProbe\<close>

text \<open>
  The vector of candidates is a list, the \<open>unordered_set\<close> of known names a set. The failure
  counter is an \<open>unsigned\<close>, the read counter a \<open>uint64_t\<close>.
\<close>

record idle_probe =
  candidates :: "string list"
  known :: "string set"
  due :: time
  success :: time
  have_success :: bool
  tag_error :: bool
  failures :: u32
  probe_reads :: u64

definition new_probe :: idle_probe where
  "new_probe = \<lparr>candidates = [], known = {}, due = no_time, success = no_time,
     have_success = False, tag_error = False, failures = 0, probe_reads = 0\<rparr>"

definition probe_good :: "string \<Rightarrow> time \<Rightarrow> idle_probe \<Rightarrow> idle_probe" where
  "probe_good name now p =
     (let p' = (if name \<notin> known p
                then p\<lparr>known := insert name (known p), candidates := candidates p @ [name]\<rparr> else p)
      in p'\<lparr>success := now, have_success := True, failures := 0, tag_error := False,
            due := now + seconds 30\<rparr>)"

definition claim :: "string \<Rightarrow> time \<Rightarrow> idle_probe \<Rightarrow> bool \<times> idle_probe" where
  "claim name now p =
     (case candidates p of
        [] \<Rightarrow> (False, p)
      | front # _ \<Rightarrow>
          if front \<noteq> name \<or> now < due p then (False, p)
          else (True, p\<lparr>due := now + seconds 30, probe_reads := probe_reads p + 1\<rparr>))"

definition probe_completed :: "string \<Rightarrow> bool \<Rightarrow> bool \<Rightarrow> time \<Rightarrow> idle_probe \<Rightarrow> idle_probe" where
  "probe_completed name ok tagError now p =
     (if ok then probe_good name now p
      else let p' = p\<lparr>tag_error := tagError\<rparr> in
        if tagError
        then p'\<lparr>failures := 0, known := known p - {name},
                candidates := filter (\<lambda>c. c \<noteq> name) (candidates p)\<rparr>
        else p'\<lparr>failures := failures p + 1\<rparr>)"

record probe_report =
  probe_state :: string
  last_success_age_ms :: "int option"
  health_check_reads :: u64
  consecutive_failures :: u32

text \<open>\<open>duration_cast<milliseconds>\<close> of an integer count truncates towards zero.\<close>

definition cast_ms :: "time \<Rightarrow> int" where
  "cast_ms d = (if 0 \<le> d then d div 1000000 else - ((- d) div 1000000))"

definition probe_snapshot :: "time \<Rightarrow> idle_probe \<Rightarrow> probe_report" where
  "probe_snapshot now p =
     (let age = cast_ms (now - success p) in
      \<lparr>probe_state = (if tag_error p then ''tag_check_failed''
                      else if failures p \<noteq> 0 then ''check_failed''
                      else if have_success p \<and> age \<le> 60000 then ''available''
                      else ''not_recently_checked''),
       last_success_age_ms = (if have_success p then Some age else None),
       health_check_reads = probe_reads p,
       consecutive_failures = failures p\<rparr>)"

datatype probe_op = PGood string time | PClaim string time | PCompleted string bool bool time

fun probe_time :: "probe_op \<Rightarrow> time" where
  "probe_time (PGood n t) = t"
| "probe_time (PClaim n t) = t"
| "probe_time (PCompleted n ok e t) = t"

text \<open>One call: the new state, and the name and time of a granted heartbeat read.\<close>

fun probe_step :: "idle_probe \<Rightarrow> probe_op \<Rightarrow> idle_probe \<times> (string \<times> time) list" where
  "probe_step p (PGood n t) = (probe_good n t p, [])"
| "probe_step p (PClaim n t) = (case claim n t p of (granted, p') \<Rightarrow> (p', if granted then [(n, t)] else []))"
| "probe_step p (PCompleted n ok e t) = (probe_completed n ok e t p, [])"

fun probe_run :: "idle_probe \<Rightarrow> probe_op list \<Rightarrow> idle_probe \<times> (string \<times> time) list" where
  "probe_run p [] = (p, [])"
| "probe_run p (x # xs) =
     (case probe_step p x of (p1, c1) \<Rightarrow> case probe_run p1 xs of (p2, c2) \<Rightarrow> (p2, c1 @ c2))"

definition probe_ok :: "idle_probe \<Rightarrow> bool" where
  "probe_ok p \<longleftrightarrow> set (candidates p) = known p \<and> distinct (candidates p)"

lemma probe_step_ok: "probe_ok p \<Longrightarrow> probe_ok (fst (probe_step p x))"
  by (cases x) (auto simp: probe_ok_def probe_good_def probe_completed_def claim_def Let_def split: list.splits)

lemma probe_run_ok: "probe_ok p \<Longrightarrow> probe_ok (fst (probe_run p xs))"
proof (induction xs arbitrary: p)
  case (Cons x xs)
  then show ?case using probe_step_ok [OF Cons.prems, of x]
    by (auto split: prod.splits) (metis fst_conv)
qed simp

lemma granted_known:
  "probe_ok p \<Longrightarrow> (n, t) \<in> set (snd (probe_step p x)) \<Longrightarrow> n \<in> known p \<and> due p \<le> t"
  by (cases x) (auto simp: probe_ok_def claim_def split: list.splits if_splits)

text \<open>Under a clock that does not run backwards, the due time moves forwards only.\<close>

lemma probe_step_due:
  assumes "due p \<le> t0 + seconds 30" "t0 \<le> probe_time x"
  shows "due p \<le> due (fst (probe_step p x)) \<and> due (fst (probe_step p x)) \<le> probe_time x + seconds 30"
  using assms
  by (cases x) (auto simp: probe_good_def probe_completed_def claim_def Let_def split: list.splits if_splits)

lemma granted_due: "(n, t) \<in> set (snd (probe_step p x)) \<Longrightarrow>
    snd (probe_step p x) = [(n, t)] \<and> due (fst (probe_step p x)) = t + seconds 30 \<and> probe_time x = t"
  by (cases x) (auto simp: claim_def split: list.splits if_splits)

lemma claims_after_due:
  assumes "probe_ok p" "due p \<le> t0 + seconds 30"
    and "sorted (map probe_time xs)" "\<forall>x \<in> set xs. t0 \<le> probe_time x"
  shows "(\<forall>(n, t) \<in> set (snd (probe_run p xs)). due p \<le> t) \<and>
    sorted_wrt (\<lambda>(m, s) (n, t). s + seconds 30 \<le> t) (snd (probe_run p xs))"
  using assms
proof (induction xs arbitrary: p t0)
  case (Cons x xs)
  let ?p1 = "fst (probe_step p x)"
  have ok1: "probe_ok ?p1" using Cons.prems(1) by (rule probe_step_ok)
  have d: "due p \<le> due ?p1" "due ?p1 \<le> probe_time x + seconds 30"
    using probe_step_due [OF Cons.prems(2)] Cons.prems(4) by simp_all
  have rest: "sorted (map probe_time xs)" "\<forall>y \<in> set xs. probe_time x \<le> probe_time y"
    using Cons.prems(3) by simp_all
  from Cons.IH [OF ok1 d(2) rest]
  have IH: "\<forall>(n, t) \<in> set (snd (probe_run ?p1 xs)). due ?p1 \<le> t"
    and IH2: "sorted_wrt (\<lambda>(m, s) (n, t). s + seconds 30 \<le> t) (snd (probe_run ?p1 xs))" by auto
  have run: "snd (probe_run p (x # xs)) = snd (probe_step p x) @ snd (probe_run ?p1 xs)"
    by (simp split: prod.splits)
  show ?case
  proof (cases "snd (probe_step p x)")
    case Nil
    then show ?thesis using IH IH2 d(1) unfolding run by (auto intro: order_trans)
  next
    case (Cons c cs)
    obtain n t where c: "c = (n, t)" by (cases c)
    then have mem: "(n, t) \<in> set (snd (probe_step p x))" using Cons by simp
    have g: "snd (probe_step p x) = [(n, t)]" "due ?p1 = t + seconds 30" "due p \<le> t"
      using granted_due [OF mem] granted_known [OF \<open>probe_ok p\<close> mem] by simp_all
    have far: "\<forall>(m, s) \<in> set (snd (probe_run ?p1 xs)). t + seconds 30 \<le> s"
      using IH g(2) by simp
    have near: "due p \<le> s" if "(m, s) \<in> set (snd (probe_run ?p1 xs))" for m s
    proof -
      from far that have "t + seconds 30 \<le> s" by auto
      then show ?thesis using g(3) by (simp add: clock_simps)
    qed
    show ?thesis
      unfolding run g(1) using far near IH2 g(3) by auto
  qed
qed simp

definition reports_good :: "string \<Rightarrow> probe_op \<Rightarrow> bool" where
  "reports_good n x \<longleftrightarrow> (case x of PGood m t \<Rightarrow> m = n | PCompleted m ok e t \<Rightarrow> m = n \<and> ok | _ \<Rightarrow> False)"

lemma probe_step_known: "n \<in> known (fst (probe_step p x)) \<Longrightarrow> n \<in> known p \<or> reports_good n x"
  by (cases x)
     (auto simp: probe_good_def probe_completed_def claim_def reports_good_def Let_def split: list.splits if_splits)

lemma claimed_was_good:
  assumes "probe_ok p" "(n, t) \<in> set (snd (probe_run p xs))"
  shows "n \<in> known p \<or> (\<exists>x \<in> set xs. reports_good n x)"
  using assms
proof (induction xs arbitrary: p)
  case (Cons x xs)
  let ?p1 = "fst (probe_step p x)"
  have ok1: "probe_ok ?p1" using Cons.prems(1) by (rule probe_step_ok)
  have "(n, t) \<in> set (snd (probe_step p x)) \<or> (n, t) \<in> set (snd (probe_run ?p1 xs))"
    using Cons.prems(2) by (auto split: prod.splits)
  then show ?case
  proof
    assume "(n, t) \<in> set (snd (probe_step p x))"
    then show ?thesis using granted_known [OF Cons.prems(1)] by blast
  next
    assume "(n, t) \<in> set (snd (probe_run ?p1 xs))"
    from Cons.IH [OF ok1 this] show ?thesis
      using probe_step_known [of n p x] by auto
  qed
qed simp

text \<open>
  The heartbeat is quiet and safe: over any history with a clock that does not run backwards,
  two granted heartbeat reads are at least 30 seconds apart, whichever lanes ask, and each one
  names a source that was read successfully earlier in the history.
\<close>

theorem heartbeat_spacing_and_source:
  assumes "sorted (map probe_time ops)" "\<forall>x \<in> set ops. 0 \<le> probe_time x"
  shows "let claims = snd (probe_run new_probe ops) in
    sorted_wrt (\<lambda>(m, s) (n, t). s + seconds 30 \<le> t) claims \<and>
    (\<forall>(n, t) \<in> set claims. \<exists>x \<in> set ops. reports_good n x)"
proof -
  have ok: "probe_ok new_probe" by (simp add: probe_ok_def new_probe_def)
  have d: "due new_probe \<le> 0 + seconds 30" by (simp add: new_probe_def)
  have k: "n \<notin> known new_probe" for n by (simp add: new_probe_def)
  show ?thesis
    using claims_after_due [OF ok d assms] claimed_was_good [OF ok] k
    unfolding Let_def by blast
qed

theorem heartbeat_spacing_and_source_witness:
  "snd (probe_run new_probe [PGood ''a'' 0, PClaim ''a'' 30000000000, PClaim ''a'' 31000000000,
      PClaim ''a'' 60000000000]) = [(''a'', 30000000000), (''a'', 60000000000)] \<and>
   (30000000000::int) + seconds 30 \<le> 60000000000"
proof -
  let ?ops = "[PGood ''a'' 0, PClaim ''a'' 30000000000, PClaim ''a'' 31000000000, PClaim ''a'' 60000000000]"
  have r: "snd (probe_run new_probe ?ops) = [(''a'', 30000000000), (''a'', 60000000000)]"
    by (simp add: new_probe_def probe_good_def claim_def clock_simps)
  from heartbeat_spacing_and_source [of ?ops] r show ?thesis by (simp add: Let_def)
qed

section \<open>ModbusReadRecovery\<close>

record read_recovery =
  retry_after :: time

definition recovery_ready :: "read_recovery \<Rightarrow> time \<Rightarrow> bool" where
  "recovery_ready r now \<longleftrightarrow> retry_after r \<le> now"

definition recovery_completed :: "bool \<Rightarrow> time \<Rightarrow> read_recovery \<Rightarrow> read_recovery" where
  "recovery_completed ok now r = r\<lparr>retry_after := (if ok then no_time else now + seconds 1)\<rparr>"

text \<open>
  A failed Modbus read is retried, but not sooner than one second later, and a success clears
  the wait at once; the outcome of an older read never matters.
\<close>

theorem modbus_read_retry:
  assumes "0 \<le> now"
  shows "recovery_ready (recovery_completed ok t r) now \<longleftrightarrow> ok \<or> t + seconds 1 \<le> now"
  using assms by (simp add: recovery_ready_def recovery_completed_def)

theorem modbus_read_retry_witness:
  "\<not> recovery_ready (recovery_completed False 0 \<lparr>retry_after = 0\<rparr>) 999999999 \<and>
   recovery_ready (recovery_completed False 0 \<lparr>retry_after = 0\<rparr>) 1000000000"
  using modbus_read_retry [of 999999999 False 0 "\<lparr>retry_after = 0\<rparr>"]
    modbus_read_retry [of 1000000000 False 0 "\<lparr>retry_after = 0\<rparr>"]
  by (simp add: clock_simps)

section \<open>ModbusConnectionRecovery\<close>

record conn_recovery =
  last_ok :: u64
  last_err :: u64
  failing :: bool
  failure_since :: time

definition new_conn_recovery :: conn_recovery where
  "new_conn_recovery = \<lparr>last_ok = 0, last_err = 0, failing = False, failure_since = no_time\<rparr>"

definition conn_observe :: "u64 \<Rightarrow> u64 \<Rightarrow> time \<Rightarrow> conn_recovery \<Rightarrow> bool \<times> conn_recovery" where
  "conn_observe ok errors now c =
     (let f0 = (if ok \<noteq> last_ok c \<or> errors < last_err c then False else failing c);
          newError = last_err c < errors;
          newSuccess = ok \<noteq> last_ok c;
          c1 = c\<lparr>failing := f0, last_ok := ok, last_err := errors\<rparr>
      in if newSuccess then (False, c1)
         else let c2 = (if newError \<and> \<not> f0 then c1\<lparr>failing := True, failure_since := now\<rparr> else c1)
              in (failing c2 \<and> seconds 30 \<le> now - failure_since c2, c2))"

definition conn_reset :: "time \<Rightarrow> conn_recovery \<Rightarrow> conn_recovery" where
  "conn_reset now c = c\<lparr>failing := False, failure_since := now\<rparr>"

text \<open>The successive counter readings (successes, errors, time) of a connection.\<close>

type_synonym counter_reading = "u64 \<times> u64 \<times> time"

fun observe_all :: "conn_recovery \<Rightarrow> counter_reading list \<Rightarrow> conn_recovery" where
  "observe_all c [] = c"
| "observe_all c ((ok, er, t) # xs) = observe_all (snd (conn_observe ok er t c)) xs"

text \<open>No success counted and no error counter running backwards between consecutive readings.\<close>

fun silent :: "u64 \<Rightarrow> u64 \<Rightarrow> counter_reading list \<Rightarrow> bool" where
  "silent ok er [] = True"
| "silent ok er ((ok', er', t) # xs) = (ok' = ok \<and> er \<le> er' \<and> silent ok' er' xs)"

lemma observe_all_append: "observe_all c (xs @ ys) = observe_all (observe_all c xs) ys"
  by (induction c xs rule: observe_all.induct) auto

lemma conn_observe_counts [simp]:
  "last_ok (snd (conn_observe ok er t c)) = ok" "last_err (snd (conn_observe ok er t c)) = er"
  by (auto simp: conn_observe_def Let_def)

lemma conn_observe_failing:
  "failing (snd (conn_observe ok er t c)) \<longleftrightarrow> ok = last_ok c \<and> last_err c \<le> er \<and> (failing c \<or> last_err c < er)"
  by (auto simp: conn_observe_def Let_def)

lemma conn_observe_since:
  "failing (snd (conn_observe ok er t c)) \<Longrightarrow>
     failure_since (snd (conn_observe ok er t c)) = (if failing c then failure_since c else t)"
  by (auto simp: conn_observe_def Let_def)

lemma conn_observe_verdict:
  "fst (conn_observe ok er t c) \<longleftrightarrow>
     failing (snd (conn_observe ok er t c)) \<and> seconds 30 \<le> t - failure_since (snd (conn_observe ok er t c))"
  by (auto simp: conn_observe_def Let_def)

lemma silent_snoc:
  "silent ok er (xs @ [(o', e', t)]) \<longleftrightarrow>
     silent ok er xs \<and> (case rev xs of [] \<Rightarrow> o' = ok \<and> er \<le> e' | (a, b, u) # _ \<Rightarrow> o' = a \<and> b \<le> e')"
  by (induction ok er xs rule: silent.induct) (auto split: list.splits)

definition last_counts :: "conn_recovery \<Rightarrow> counter_reading list \<Rightarrow> u64 \<times> u64" where
  "last_counts c xs = (case rev xs of [] \<Rightarrow> (last_ok c, last_err c) | (a, b, t) # _ \<Rightarrow> (a, b))"

lemma last_counts_observe: "(last_ok (observe_all c xs), last_err (observe_all c xs)) = last_counts c xs"
  by (cases xs rule: rev_cases) (auto simp: last_counts_def observe_all_append)

text \<open>While failing, some reading brought a new error, and everything since has been silent.\<close>

lemma failing_since_silent:
  assumes "failing (observe_all new_conn_recovery xs)"
  shows "\<exists>pre ok er t post. xs = pre @ (ok, er, t) # post \<and>
    snd (last_counts new_conn_recovery pre) < er \<and> ok = fst (last_counts new_conn_recovery pre) \<and>
    failure_since (observe_all new_conn_recovery xs) = t \<and> silent ok er post"
  using assms
proof (induction xs rule: rev_induct)
  case Nil
  then show ?case by (simp add: new_conn_recovery_def)
next
  case (snoc x xs)
  obtain o' e' t' where x: "x = (o', e', t')" by (cases x)
  let ?c = "observe_all new_conn_recovery xs"
  have run: "observe_all new_conn_recovery (xs @ [x]) = snd (conn_observe o' e' t' ?c)"
    by (simp add: x observe_all_append)
  from snoc.prems have f: "o' = last_ok ?c" "last_err ?c \<le> e'" "failing ?c \<or> last_err ?c < e'"
    unfolding run by (simp_all add: conn_observe_failing)
  have since: "failure_since (observe_all new_conn_recovery (xs @ [x])) =
      (if failing ?c then failure_since ?c else t')"
    using snoc.prems unfolding run by (rule conn_observe_since)
  have lc: "last_counts new_conn_recovery xs = (last_ok ?c, last_err ?c)"
    by (rule last_counts_observe [symmetric])
  show ?case
  proof (cases "failing ?c")
    case True
    then obtain pre ok er t post where split: "xs = pre @ (ok, er, t) # post"
      and new: "snd (last_counts new_conn_recovery pre) < er" "ok = fst (last_counts new_conn_recovery pre)"
      and t: "failure_since ?c = t" and sil: "silent ok er post"
      using snoc.IH by blast
    have "silent ok er (post @ [x])"
      using sil f lc unfolding x silent_snoc split
      by (cases post rule: rev_cases) (auto simp: last_counts_def)
    then show ?thesis using split new t since True
      by (intro exI [of _ pre] exI [of _ ok] exI [of _ er] exI [of _ t] exI [of _ "post @ [x]"]) simp
  next
    case False
    then have "last_err ?c < e'" using f(3) by simp
    then show ?thesis using False f lc since x
      by (intro exI [of _ xs] exI [of _ o'] exI [of _ e'] exI [of _ t'] exI [of _ "[]"]) simp
  qed
qed

text \<open>
  A Modbus connection is torn down only after a real outage: when the watcher asks for a reset,
  some earlier reading counted a new error at least 30 seconds before, and since that reading no
  read of the connection succeeded. One bad register next to working ones never resets it.
\<close>

theorem modbus_reset_only_after_outage:
  assumes "fst (conn_observe ok er now (observe_all new_conn_recovery xs))"
  shows "\<exists>pre ok0 er0 t0 post. xs @ [(ok, er, now)] = pre @ (ok0, er0, t0) # post \<and>
    snd (last_counts new_conn_recovery pre) < er0 \<and> seconds 30 \<le> now - t0 \<and> silent ok0 er0 post"
proof -
  let ?c = "observe_all new_conn_recovery (xs @ [(ok, er, now)])"
  have "failing ?c" "seconds 30 \<le> now - failure_since ?c"
    using assms by (simp_all add: observe_all_append conn_observe_verdict)
  with failing_since_silent [of "xs @ [(ok, er, now)]"] show ?thesis by blast
qed

theorem modbus_reset_only_after_outage_witness:
  "fst (conn_observe 5 4 40000000000
     (observe_all new_conn_recovery [(5, 0, 0), (5, 1, 1000000000), (5, 2, 20000000000)])) \<and>
   (\<exists>pre ok0 er0 t0 post.
     [(5, 0, 0), (5, 1, 1000000000), (5, 2, 20000000000)] @ [(5, 4, 40000000000)] = pre @ (ok0, er0, t0) # post \<and>
     snd (last_counts new_conn_recovery pre) < er0 \<and> seconds 30 \<le> 40000000000 - t0 \<and> silent ok0 er0 post)"
proof -
  have f: "fst (conn_observe 5 4 40000000000
     (observe_all new_conn_recovery [(5, 0, 0), (5, 1, 1000000000), (5, 2, 20000000000)]))"
    by (simp add: new_conn_recovery_def conn_observe_def Let_def clock_simps)
  show ?thesis
    using f modbus_reset_only_after_outage [OF f] by (rule conjI)
qed

section \<open>estimate\_poll\_sweep\_ms\<close>

text \<open>
  \<open>std::numeric_limits<int64_t>::max() / 4\<close> as a \<open>double\<close>; the casts from \<open>uint64_t\<close> and
  \<open>int\<close> to \<open>double\<close> round.
\<close>

definition sweep_limit :: dbl where
  "sweep_limit = dbl_of_int (9223372036854775807 div 4)"

fun dbl_to_int :: "dbl \<Rightarrow> int" where
  "dbl_to_int (DFin a) = (if 0 \<le> a then floor a else ceiling a)"
| "dbl_to_int _ = 0"

definition estimate_poll_sweep_ms ::
    "dbl \<Rightarrow> dbl \<Rightarrow> dbl \<Rightarrow> u64 \<Rightarrow> u64 \<Rightarrow> int \<Rightarrow> int \<Rightarrow> int" where
  "estimate_poll_sweep_ms lastSweepMs recentSweepMs elapsedSweepMs seenTags totalTags maxReadsPerSec pollLanes =
     (if totalTags = 0 then -1
      else
        let e0 = dmax lastSweepMs recentSweepMs;
            e1 = (if dle e0 (DFin 0) \<and> dlt (DFin 0) elapsedSweepMs \<and> 0 < seenTags
                  then ddiv (dmul elapsedSweepMs (dbl_of_int (uint totalTags)))
                            (dbl_of_int (uint (min seenTags totalTags)))
                  else e0);
            e2 = (if 0 < maxReadsPerSec
                  then let capacity = dmul (dbl_of_int maxReadsPerSec) (dbl_of_int (max 1 pollLanes))
                       in dmax e1 (ddiv (dmul (DFin 1000) (dbl_of_int (uint totalTags))) capacity)
                  else e1)
        in if \<not> dlt (DFin 0) e2 \<or> \<not> is_finite e2 then -1
           else dbl_to_int (dceil (dmin e2 sweep_limit)))"

lemma sweep_limit_eq: "sweep_limit = DFin 2305843009213693952"
  by code_simp

text \<open>
  The sweep estimate is \<open>-1\<close> (unknown) or a count of milliseconds between 1 and $2^{61}$, so
  the final cast to \<open>int64_t\<close> is always defined and leaves room for the callers' sums; it is
  unknown whenever there are no tags, and never when the connection's finite sweep time is known.
\<close>

theorem sweep_estimate_bounds:
  "estimate_poll_sweep_ms l r el sn tt mr pl \<in> insert (-1) {1..2305843009213693952} \<and>
   estimate_poll_sweep_ms l r el sn 0 mr pl = -1 \<and>
   (tt \<noteq> 0 \<and> mr \<le> 0 \<and> l = DFin a \<and> r = DFin b \<and> 0 < max a b \<longrightarrow>
     estimate_poll_sweep_ms l r el sn tt mr pl = ceiling (min (max a b) 2305843009213693952))"
proof -
  have core: "dbl_to_int (dceil (dmin e sweep_limit)) \<in> {1..2305843009213693952}"
    if "dlt (DFin 0) e" "is_finite e" for e
  proof -
    from that(2) obtain x where e: "e = DFin x" by (cases e) (simp_all add: is_finite_def)
    with that(1) have x: "e = DFin x" "0 < x" by simp_all
    let ?m = "min x 2305843009213693952"
    have "dmin e sweep_limit = DFin ?m" by (simp add: x dmin_def sweep_limit_eq min_def)
    moreover have "1 \<le> ceiling ?m" "ceiling ?m \<le> 2305843009213693952"
      using x(2) by (simp_all add: one_le_ceiling ceiling_le_iff)
    ultimately show ?thesis by simp
  qed
  have "estimate_poll_sweep_ms l r el sn tt mr pl \<in> insert (-1) {1..2305843009213693952}"
    unfolding estimate_poll_sweep_ms_def Let_def by (auto intro: core simp del: atLeastAtMost_iff)
  moreover have "estimate_poll_sweep_ms l r el sn 0 mr pl = -1"
    by (simp add: estimate_poll_sweep_ms_def)
  moreover have "estimate_poll_sweep_ms l r el sn tt mr pl = ceiling (min (max a b) 2305843009213693952)"
    if "tt \<noteq> 0 \<and> mr \<le> 0 \<and> l = DFin a \<and> r = DFin b \<and> 0 < max a b"
  proof -
    define x where "x = max a b"
    have m: "dmax l r = DFin x" using that by (simp add: x_def dmax_def max_def)
    have x: "0 < x" using that by (simp add: x_def)
    have lim: "dmin (DFin x) sweep_limit = DFin (min x 2305843009213693952)"
      by (simp add: dmin_def sweep_limit_eq min_def)
    have "0 \<le> min x 2305843009213693952" using x by simp
    then have "dbl_to_int (dceil (DFin (min x 2305843009213693952))) = ceiling (min x 2305843009213693952)"
      by simp
    with that m x lim show ?thesis
      unfolding estimate_poll_sweep_ms_def Let_def x_def [symmetric] by simp
  qed
  ultimately show ?thesis by blast
qed

theorem sweep_estimate_bounds_witness:
  "estimate_poll_sweep_ms (DFin (5/2)) (DFin 1) (DFin 0) 3 10 0 1 = 3"
proof -
  have "ceiling (5 / 2 :: rat) = 3" by (rule ceiling_unique) auto
  then show ?thesis
    using sweep_estimate_bounds [of "DFin (5/2)" "DFin 1" "DFin 0" 3 10 0 1 "5/2" 1] by simp
qed

section \<open>SnapshotLifecycleRetry (opcbridge-historian)\<close>

type_synonym retry_state = "string \<rightharpoonup> time"

definition lifecycle_retry :: "string \<Rightarrow> bool \<Rightarrow> time \<Rightarrow> retry_state \<Rightarrow> bool \<times> retry_state" where
  "lifecycle_retry key cold now st =
     (if \<not> cold then (False, st(key := None))
      else case st key of
        None \<Rightarrow> (now - now < seconds 5, st(key \<mapsto> now))
      | Some first \<Rightarrow> (now - first < seconds 5, st))"

definition lifecycle_clear :: "retry_state \<Rightarrow> retry_state" where
  "lifecycle_clear st = Map.empty"

fun cold_reads :: "string \<Rightarrow> time list \<Rightarrow> retry_state \<Rightarrow> bool list \<times> retry_state" where
  "cold_reads key [] st = ([], st)"
| "cold_reads key (t # ts) st =
     (case lifecycle_retry key True t st of (b, st1) \<Rightarrow>
        case cold_reads key ts st1 of (bs, st2) \<Rightarrow> (b # bs, st2))"

lemma cold_reads_started:
  "st key = Some t0 \<Longrightarrow> cold_reads key ts st = (map (\<lambda>t. t - t0 < seconds 5) ts, st)"
  by (induction ts) (auto simp: lifecycle_retry_def)

text \<open>
  The historian retries a cold-cache state for five seconds from the first cold answer of that
  key, however often it asks; a normal answer forgets the key, so the next cold one starts a new
  window; other keys are not touched.
\<close>

theorem cold_retry_window:
  "let (b, st1) = lifecycle_retry key False u st; (bs, st2) = cold_reads key (t0 # ts) st1 in
     \<not> b \<and> bs = True # map (\<lambda>t. t - t0 < seconds 5) ts \<and>
     st2 key = Some t0 \<and> (\<forall>k. k \<noteq> key \<longrightarrow> st2 k = st k)"
  using cold_reads_started [of "st(key \<mapsto> t0)" key t0 ts]
  by (simp add: lifecycle_retry_def)

theorem cold_retry_window_witness:
  "fst (cold_reads ''k'' [10, 20, 5000000010] (snd (lifecycle_retry ''k'' False 0 Map.empty))) =
     [True, True, False]"
  using cold_retry_window [of "''k''" 0 Map.empty 10 "[20, 5000000010]"]
  by (simp add: lifecycle_retry_def clock_simps split: prod.splits)

end
