(* ===== verification/OrderedMap.thy ===== *)
theory OrderedMap
  imports Prelude "HOL-Library.List_Lexorder" "HOL-Library.Product_Lexorder" "HOL-Library.Char_ord"
begin

text \<open>
  \<open>std::map\<close> and \<open>std::set\<close>: association lists in strictly ascending key order, which is also
  the order of iteration. Strings compare by unsigned character codes, pairs lexicographically,
  as \<open>std::string\<close> and \<open>std::pair\<close> do.
\<close>

type_synonym ('k, 'v) omap = "('k \<times> 'v) list"

definition om_ok :: "('k::linorder, 'v) omap \<Rightarrow> bool" where
  "om_ok m \<longleftrightarrow> sorted_wrt (<) (map fst m)"

fun om_put :: "'k::linorder \<Rightarrow> 'v \<Rightarrow> ('k, 'v) omap \<Rightarrow> ('k, 'v) omap" where
  "om_put k v [] = [(k, v)]"
| "om_put k v ((a, b) # m) =
     (if k < a then (k, v) # (a, b) # m else if k = a then (k, v) # m else (a, b) # om_put k v m)"

definition om_del :: "'k \<Rightarrow> ('k, 'v) omap \<Rightarrow> ('k, 'v) omap" where
  "om_del k m = filter (\<lambda>e. fst e \<noteq> k) m"

definition om_keep :: "('k \<Rightarrow> 'v \<Rightarrow> bool) \<Rightarrow> ('k, 'v) omap \<Rightarrow> ('k, 'v) omap" where
  "om_keep P m = filter (\<lambda>e. P (fst e) (snd e)) m"

definition om_get :: "('k, 'v) omap \<Rightarrow> 'k \<Rightarrow> 'v option" where
  "om_get m = map_of m"

text \<open>\<open>std::map::insert\<close> and \<open>emplace\<close> keep an entry that is already there.\<close>

definition om_emplace :: "'k::linorder \<Rightarrow> 'v \<Rightarrow> ('k, 'v) omap \<Rightarrow> ('k, 'v) omap" where
  "om_emplace k v m = (case om_get m k of None \<Rightarrow> om_put k v m | Some w \<Rightarrow> m)"

section \<open>The interface of a keyed store\<close>

text \<open>What the components rely on: lookup after an update, a removal or an erase loop.\<close>

locale keyed_store =
  fixes get :: "'s \<Rightarrow> 'k \<Rightarrow> 'v option"
    and put :: "'k \<Rightarrow> 'v \<Rightarrow> 's \<Rightarrow> 's"
    and del :: "'k \<Rightarrow> 's \<Rightarrow> 's"
    and keep :: "('k \<Rightarrow> 'v \<Rightarrow> bool) \<Rightarrow> 's \<Rightarrow> 's"
    and empty :: 's
    and ok :: "'s \<Rightarrow> bool"
  assumes get_empty: "get empty k = None"
    and get_put: "ok s \<Longrightarrow> get (put k v s) = (get s)(k \<mapsto> v)"
    and get_del: "ok s \<Longrightarrow> get (del k s) = (get s)(k := None)"
    and get_keep: "ok s \<Longrightarrow> get (keep P s) = keep_entries P (get s)"
    and ok_empty: "ok empty"
    and ok_put: "ok s \<Longrightarrow> ok (put k v s)"
    and ok_del: "ok s \<Longrightarrow> ok (del k s)"
    and ok_keep: "ok s \<Longrightarrow> ok (keep P s)"
begin

lemma get_put_del: "ok s \<Longrightarrow> get (del k (put k v s)) = (get s)(k := None)"
  by (simp add: get_put get_del ok_put)

lemma get_put_keep:
  "ok s \<Longrightarrow> get (put k v (keep P s)) = (keep_entries P (get s))(k \<mapsto> v)"
  by (simp add: get_put get_keep ok_keep)

lemma get_del_keep:
  "ok s \<Longrightarrow> get (del k (keep P s)) = (keep_entries P (get s))(k := None)"
  by (simp add: get_del get_keep ok_keep)

end

lemma om_put_keys: "fst ` set (om_put k v m) = insert k (fst ` set m)"
  by (induction k v m rule: om_put.induct) auto

lemma om_ok_put: "om_ok m \<Longrightarrow> om_ok (om_put k v m)"
proof (induction k v m rule: om_put.induct)
  case (2 k v a b m)
  have keys: "set (map fst (om_put k v m)) = insert k (set (map fst m))"
    using om_put_keys [of k v m] by simp
  from 2 show ?case by (auto simp: om_ok_def keys simp del: set_map)
qed (simp add: om_ok_def)

lemma om_get_put: "om_ok m \<Longrightarrow> om_get (om_put k v m) = (om_get m)(k \<mapsto> v)"
  by (induction k v m rule: om_put.induct) (auto simp: om_ok_def om_get_def fun_eq_iff)

lemma om_ok_filter: "om_ok m \<Longrightarrow> om_ok (filter P m)"
  unfolding om_ok_def by (induction m) auto

lemma om_get_keep: "om_ok m \<Longrightarrow> om_get (om_keep P m) = keep_entries P (om_get m)"
proof (induction m)
  case (Cons e m)
  obtain a b where e: "e = (a, b)" by (cases e)
  have "om_ok m" and lt: "\<forall>x \<in> set m. a < fst x" using Cons.prems by (auto simp: om_ok_def e)
  then have IH: "om_get (om_keep P m) = keep_entries P (om_get m)" using Cons.IH by simp
  have none: "map_of m a = None" using lt by (auto simp: map_of_eq_None_iff)
  show ?case
  proof (rule ext)
    fix c
    have "om_get (om_keep P m) c = keep_entries P (om_get m) c" using IH by simp
    then show "om_get (om_keep P (e # m)) c = keep_entries P (om_get (e # m)) c"
      using none by (cases "c = a") (auto simp: om_get_def om_keep_def e keep_entries_def)
  qed
qed (simp add: om_get_def om_keep_def)

lemma om_get_del: "om_get (om_del k m) = (om_get m)(k := None)"
  by (induction m) (auto simp: om_get_def om_del_def)

interpretation om: keyed_store om_get om_put om_del om_keep "[]" om_ok
proof unfold_locales
  fix m :: "('a, 'b) omap" and k P
  show "om_ok m \<Longrightarrow> om_get (om_del k m) = (om_get m)(k := None)" by (rule om_get_del)
  show "om_ok m \<Longrightarrow> om_get (om_keep P m) = keep_entries P (om_get m)" by (rule om_get_keep)
  show "om_ok m \<Longrightarrow> om_ok (om_del k m)" by (simp add: om_del_def om_ok_filter)
  show "om_ok m \<Longrightarrow> om_ok (om_keep P m)" by (simp add: om_keep_def om_ok_filter)
qed (simp_all add: om_get_put om_ok_put, simp_all add: om_get_def om_ok_def)

lemma om_get_emplace:
  "om_ok m \<Longrightarrow> om_get (om_emplace k v m) = (case om_get m k of None \<Rightarrow> (om_get m)(k \<mapsto> v) | Some w \<Rightarrow> om_get m)"
  by (simp add: om_emplace_def om_get_put split: option.splits)

lemma om_ok_emplace: "om_ok m \<Longrightarrow> om_ok (om_emplace k v m)"
  by (simp add: om_emplace_def om_ok_put split: option.splits)

lemma om_get_in_set: "om_ok m \<Longrightarrow> om_get m k = Some v \<longleftrightarrow> (k, v) \<in> set m"
proof -
  assume "om_ok m"
  then have "distinct (map fst m)"
    unfolding om_ok_def by (simp add: strict_sorted_iff)
  then show ?thesis by (simp add: om_get_def)
qed

end
