(* ===== verification/Json.thy ===== *)
theory Json
  imports Prelude Doubles
begin

text \<open>
  JSON values as \<open>nlohmann::json\<close> holds them, as far as the modelled code reads them. An object
  is an association list looked up by its first entry. The library's accessors that can throw
  return a sum: \<open>Inl TypeError\<close> is \<open>json::type\_error\<close>, \<open>Inl OutOfRange\<close> is
  \<open>json::out\_of\_range\<close>.
\<close>

datatype json =
    JNull
  | JBool bool
  | JInt int
  | JFloat dbl
  | JStr string
  | JArr "json list"
  | JObj "(string \<times> json) list"

datatype json_error = TypeError | OutOfRange

fun is_object :: "json \<Rightarrow> bool" where
  "is_object (JObj kvs) = True"
| "is_object _ = False"

fun jfind :: "json \<Rightarrow> string \<Rightarrow> json option" where
  "jfind (JObj kvs) k = map_of kvs k"
| "jfind _ k = None"

definition contains :: "json \<Rightarrow> string \<Rightarrow> bool" where
  "contains j k = (jfind j k \<noteq> None)"

text \<open>\<open>j[k] = v\<close> on an object: replace the entry or add one.\<close>

fun jset :: "string \<Rightarrow> json \<Rightarrow> json \<Rightarrow> json" where
  "jset k v (JObj kvs) = JObj ((k, v) # filter (\<lambda>e. fst e \<noteq> k) kvs)"
| "jset k v j = j"

lemma jfind_jset [simp]:
  "is_object j \<Longrightarrow> jfind (jset k v j) k' = (if k' = k then Some v else jfind j k')"
proof (cases j)
  case (JObj kvs)
  have "map_of (filter (\<lambda>e. fst e \<noteq> k) kvs) k' = (if k' = k then None else map_of kvs k')"
    by (induction kvs) auto
  then show ?thesis using JObj by simp
qed simp_all

lemma is_object_jset [simp]: "is_object (jset k v j) = is_object j"
  by (cases j) simp_all

fun get_string :: "json \<Rightarrow> json_error + string" where
  "get_string (JStr s) = Inr s"
| "get_string _ = Inl TypeError"

fun get_bool :: "json \<Rightarrow> json_error + bool" where
  "get_bool (JBool b) = Inr b"
| "get_bool _ = Inl TypeError"

text \<open>\<open>get<uint64_t>\<close> accepts any number; a negative integer wraps, a fraction is truncated.\<close>

fun get_u64 :: "json \<Rightarrow> json_error + u64" where
  "get_u64 (JInt n) = Inr (word_of_int n)"
| "get_u64 (JFloat (DFin a)) = Inr (word_of_int (if 0 \<le> a then floor a else ceiling a))"
| "get_u64 (JFloat _) = Inr 0"
| "get_u64 _ = Inl TypeError"

text \<open>
  \<open>operator==\<close>: numbers compare by value, an integer with a float as doubles; arrays and objects
  element by element, an object's members in key order, as the library stores them. The code
  compares only documents as they were parsed.
\<close>

fun json_eq :: "json \<Rightarrow> json \<Rightarrow> bool" where
  "json_eq JNull JNull = True"
| "json_eq (JBool a) (JBool b) = (a = b)"
| "json_eq (JInt a) (JInt b) = (a = b)"
| "json_eq (JInt a) (JFloat b) = deq (dbl_of_int a) b"
| "json_eq (JFloat a) (JInt b) = deq a (dbl_of_int b)"
| "json_eq (JFloat a) (JFloat b) = deq a b"
| "json_eq (JStr a) (JStr b) = (a = b)"
| "json_eq (JArr xs) (JArr ys) = list_all2 json_eq xs ys"
| "json_eq (JObj xs) (JObj ys) = list_all2 (\<lambda>e f. fst e = fst f \<and> json_eq (snd e) (snd f)) xs ys"
| "json_eq _ _ = False"

text \<open>\<open>j.value(k, d)\<close>: the default only for an absent key; a type mismatch throws.\<close>

definition jvalue :: "(json \<Rightarrow> json_error + 'a) \<Rightarrow> json \<Rightarrow> string \<Rightarrow> 'a \<Rightarrow> json_error + 'a" where
  "jvalue conv j k d =
     (if \<not> is_object j then Inl TypeError
      else case jfind j k of None \<Rightarrow> Inr d | Some v \<Rightarrow> conv v)"

definition jat :: "json \<Rightarrow> string \<Rightarrow> json_error + json" where
  "jat j k = (if \<not> is_object j then Inl TypeError
              else case jfind j k of None \<Rightarrow> Inl OutOfRange | Some v \<Rightarrow> Inr v)"

definition rbind :: "('e + 'a) \<Rightarrow> ('a \<Rightarrow> 'e + 'b) \<Rightarrow> 'e + 'b" where
  "rbind r f = (case r of Inl e \<Rightarrow> Inl e | Inr a \<Rightarrow> f a)"

lemma rbind_simps [simp]: "rbind (Inl e) f = Inl e" "rbind (Inr a) f = f a"
  by (simp_all add: rbind_def)

lemma rbind_Inr: "rbind r f = Inr b \<longleftrightarrow> (\<exists>a. r = Inr a \<and> f a = Inr b)"
  by (auto simp: rbind_def split: sum.splits)

end
