(* ===== verification/Glob.thy ===== *)
theory Glob
  imports Prelude
begin

text \<open>
  \<open>consumer\_demand\_glob\<close> (consumer\_demand.h): the iterative wildcard matcher, with its four
  indices \<open>p\<close>, \<open>t\<close>, \<open>star\<close> and \<open>match\<close>, and the proof that it decides the usual meaning of
  \<open>*\<close> and \<open>?\<close>.
\<close>

section \<open>The matcher\<close>

abbreviation star_char :: char where
  "star_char \<equiv> CHR ''*''"

abbreviation any_char :: char where
  "any_char \<equiv> CHR ''?''"

definition only_stars :: "string \<Rightarrow> bool" where
  "only_stars s \<longleftrightarrow> dropWhile (\<lambda>c. c = star_char) s = []"

function glob_loop :: "string \<Rightarrow> string \<Rightarrow> nat \<Rightarrow> nat \<Rightarrow> nat option \<Rightarrow> nat \<Rightarrow> bool" where
  "glob_loop P T p t star match =
     (if t < length T then
        if p < length P \<and> (P ! p = any_char \<or> P ! p = T ! t)
        then glob_loop P T (Suc p) (Suc t) star match
        else if p < length P \<and> P ! p = star_char
        then glob_loop P T (Suc p) t (Some p) t
        else (case star of
                None \<Rightarrow> False
              | Some s \<Rightarrow> glob_loop P T (Suc s) (Suc match) star (Suc match))
      else only_stars (drop p P))"
  by pat_completeness auto
termination
  by (relation "measures [\<lambda>(P, T, p, t, star, match). if match \<le> t then 0 else 1,
        \<lambda>(P, T, p, t, star, match). length T - match,
        \<lambda>(P, T, p, t, star, match). length P - p]") auto

declare glob_loop.simps [simp del]

definition consumer_demand_glob :: "string \<Rightarrow> string \<Rightarrow> bool" where
  "consumer_demand_glob pattern s = glob_loop pattern s 0 0 None 0"

section \<open>What the wildcards mean\<close>

fun wild :: "string \<Rightarrow> string \<Rightarrow> bool" where
  "wild [] T = (T = [])"
| "wild (c # P) T =
     (if c = star_char then wild P T \<or> (case T of [] \<Rightarrow> False | _ # T' \<Rightarrow> wild (c # P) T')
      else case T of [] \<Rightarrow> False | d # T' \<Rightarrow> (c = any_char \<or> c = d) \<and> wild P T')"

lemma wild_star: "wild (star_char # P) T \<longleftrightarrow> (\<exists>k \<le> length T. wild P (drop k T))"
proof (induction T)
  case Nil
  then show ?case by simp
next
  case (Cons d T)
  have "wild (star_char # P) (d # T) \<longleftrightarrow> wild P (d # T) \<or> (\<exists>k \<le> length T. wild P (drop k T))"
    using Cons by simp
  also have "\<dots> \<longleftrightarrow> (\<exists>k \<le> length (d # T). wild P (drop k (d # T)))"
  proof
    assume "wild P (d # T) \<or> (\<exists>k \<le> length T. wild P (drop k T))"
    then show "\<exists>k \<le> length (d # T). wild P (drop k (d # T))"
    proof
      assume "wild P (d # T)"
      then show ?thesis by (intro exI [of _ 0]) simp
    next
      assume "\<exists>k \<le> length T. wild P (drop k T)"
      then obtain k where "k \<le> length T" "wild P (drop k T)" by blast
      then show ?thesis by (intro exI [of _ "Suc k"]) simp
    qed
  next
    assume "\<exists>k \<le> length (d # T). wild P (drop k (d # T))"
    then obtain k where k: "k \<le> length (d # T)" "wild P (drop k (d # T))" by blast
    then show "wild P (d # T) \<or> (\<exists>k \<le> length T. wild P (drop k T))"
      by (cases k) auto
  qed
  finally show ?case .
qed

lemma wild_Nil: "wild P [] \<longleftrightarrow> only_stars P"
  by (induction P) (auto simp: only_stars_def)

text \<open>A stretch of pattern without a star consumes as many characters as it has.\<close>

lemma wild_segment:
  assumes "star_char \<notin> set Q" "wild (Q @ P) T"
  shows "length Q \<le> length T \<and> wild P (drop (length Q) T)"
  using assms
proof (induction Q arbitrary: T)
  case (Cons c Q)
  then show ?case by (cases T) auto
qed simp

lemma wild_star_later:
  "wild (star_char # P) (drop k T) \<Longrightarrow> j \<le> k \<Longrightarrow> k \<le> length T \<Longrightarrow> wild (star_char # P) (drop j T)"
proof -
  assume "wild (star_char # P) (drop k T)" and jk: "j \<le> k" and kT: "k \<le> length T"
  then obtain i where i: "i \<le> length (drop k T)" "wild P (drop i (drop k T))"
    unfolding wild_star by blast
  then have "wild P (drop ((k - j) + i) (drop j T))" using jk by (simp add: add.commute)
  moreover have "(k - j) + i \<le> length (drop j T)" using i(1) jk kT by simp
  ultimately show ?thesis unfolding wild_star by blast
qed

section \<open>The matcher is right on texts without a star\<close>

text \<open>
  The loop's state means: the pattern matches the text if the rest matches here, or if the last
  star takes more characters than it has so far. Between the star and \<open>p\<close> the pattern is free
  of stars, and as many characters were consumed as pattern positions.
\<close>

definition later_star :: "string \<Rightarrow> string \<Rightarrow> nat option \<Rightarrow> nat \<Rightarrow> bool" where
  "later_star P T star match =
     (case star of None \<Rightarrow> False
      | Some s \<Rightarrow> \<exists>k. match < k \<and> k \<le> length T \<and> wild (drop (Suc s) P) (drop k T))"

definition glob_inv :: "string \<Rightarrow> string \<Rightarrow> nat \<Rightarrow> nat \<Rightarrow> nat option \<Rightarrow> nat \<Rightarrow> bool" where
  "glob_inv P T p t star match \<longleftrightarrow> p \<le> length P \<and> t \<le> length T \<and>
     (case star of None \<Rightarrow> True
      | Some s \<Rightarrow> Suc s \<le> p \<and> s < length P \<and> match \<le> t \<and> t - match = p - Suc s \<and>
                  star_char \<notin> set (take (p - Suc s) (drop (Suc s) P)))"

lemma take_Suc_drop:
  assumes "Suc s \<le> p" "p < length P"
  shows "take (p - s) (drop (Suc s) P) = take (p - Suc s) (drop (Suc s) P) @ [P ! p]"
proof -
  have "p - s = Suc (p - Suc s)" using assms by simp
  moreover have "p - Suc s < length (drop (Suc s) P)" using assms by simp
  ultimately show ?thesis using assms by (simp add: take_Suc_conv_app_nth)
qed

lemma ex_gt_Suc: "(\<exists>k. m < k \<and> R k) \<longleftrightarrow> R (Suc m) \<or> (\<exists>k. Suc m < k \<and> R k)" for m :: nat
  by (metis Suc_lessD Suc_lessI lessI)

text \<open>Any later choice of the last star leads through the present pattern position.\<close>

lemma later_star_segment:
  assumes inv: "glob_inv P T p t (Some s) match"
    and k: "match < k" "k \<le> length T" "wild (drop (Suc s) P) (drop k T)"
  shows "k + (t - match) \<le> length T \<and> wild (drop p P) (drop (k + (t - match)) T)"
proof -
  let ?Q = "take (p - Suc s) (drop (Suc s) P)"
  have len: "length ?Q = t - match" using inv by (auto simp: glob_inv_def)
  have "drop (Suc s) P = ?Q @ drop p P"
    using inv by (simp add: glob_inv_def) (metis add.commute append_take_drop_id drop_drop le_add_diff_inverse2)
  then have "wild (?Q @ drop p P) (drop k T)" using k(3) by simp
  moreover have "star_char \<notin> set ?Q" using inv by (simp add: glob_inv_def)
  ultimately have "length ?Q \<le> length (drop k T) \<and> wild (drop p P) (drop (length ?Q) (drop k T))"
    by (intro wild_segment)
  then show ?thesis unfolding len using k by (auto simp: add.commute)
qed

lemma glob_loop_correct:
  assumes "star_char \<notin> set T" "glob_inv P T p t star match"
  shows "glob_loop P T p t star match \<longleftrightarrow> wild (drop p P) (drop t T) \<or> later_star P T star match"
  using assms
proof (induction P T p t star match rule: glob_loop.induct)
  case (1 P T p t star match)
  note inv = "1.prems"(2)
  show ?case
  proof (cases "t < length T")
    case False
    then have t: "t = length T" using inv by (simp add: glob_inv_def)
    have "\<not> later_star P T star match"
    proof
      assume "later_star P T star match"
      then obtain s k where s: "star = Some s"
        and k: "match < k" "k \<le> length T" "wild (drop (Suc s) P) (drop k T)"
        by (auto simp: later_star_def split: option.splits)
      from later_star_segment [OF inv [unfolded s] k] inv s t k(1)
      show False by (auto simp: glob_inv_def)
    qed
    then show ?thesis
      by (subst glob_loop.simps) (simp add: t wild_Nil)
  next
    case tT: True
    have dT: "drop t T = T ! t # drop (Suc t) T" using tT by (simp add: Cons_nth_drop_Suc)
    have nostar: "T ! t \<noteq> star_char" using "1.prems"(1) tT by (metis nth_mem)
    show ?thesis
    proof (cases "p < length P \<and> (P ! p = any_char \<or> P ! p = T ! t)")
      case m: True
      have dP: "drop p P = P ! p # drop (Suc p) P" using m by (simp add: Cons_nth_drop_Suc)
      have inv': "glob_inv P T (Suc p) (Suc t) star match"
        using inv m tT nostar by (auto simp: glob_inv_def take_Suc_drop split: option.splits)
      from "1.IH"(1) [OF tT m "1.prems"(1) inv'] m tT nostar show ?thesis
        by (subst glob_loop.simps) (auto simp: dT dP)
    next
      case nm: False
      show ?thesis
      proof (cases "p < length P \<and> P ! p = star_char")
        case st: True
        have dP: "drop p P = star_char # drop (Suc p) P" using st by (simp add: Cons_nth_drop_Suc [symmetric])
        have inv': "glob_inv P T (Suc p) t (Some p) t" using inv st by (simp add: glob_inv_def)
        have here: "wild (drop p P) (drop t T) \<longleftrightarrow>
            wild (drop (Suc p) P) (drop t T) \<or> later_star P T (Some p) t"
        proof -
          have "wild (drop p P) (drop t T) \<longleftrightarrow> (\<exists>k \<le> length T - t. wild (drop (Suc p) P) (drop (t + k) T))"
            unfolding dP wild_star by (simp add: add.commute)
          also have "\<dots> \<longleftrightarrow> (\<exists>k. t \<le> k \<and> k \<le> length T \<and> wild (drop (Suc p) P) (drop k T))"
          proof
            assume "\<exists>k \<le> length T - t. wild (drop (Suc p) P) (drop (t + k) T)"
            then obtain k where "k \<le> length T - t" "wild (drop (Suc p) P) (drop (t + k) T)" by blast
            then show "\<exists>k. t \<le> k \<and> k \<le> length T \<and> wild (drop (Suc p) P) (drop k T)"
              using tT by (intro exI [of _ "t + k"]) simp
          next
            assume "\<exists>k. t \<le> k \<and> k \<le> length T \<and> wild (drop (Suc p) P) (drop k T)"
            then obtain k where "t \<le> k" "k \<le> length T" "wild (drop (Suc p) P) (drop k T)" by blast
            then show "\<exists>k \<le> length T - t. wild (drop (Suc p) P) (drop (t + k) T)"
              by (intro exI [of _ "k - t"]) simp
          qed
          also have "\<dots> \<longleftrightarrow> wild (drop (Suc p) P) (drop t T) \<or> later_star P T (Some p) t"
            using tT by (auto simp: later_star_def le_less)
          finally show ?thesis .
        qed
        have old: "later_star P T star match \<Longrightarrow> wild (drop p P) (drop t T)"
        proof -
          assume "later_star P T star match"
          then obtain s k where s: "star = Some s"
            and k: "match < k" "k \<le> length T" "wild (drop (Suc s) P) (drop k T)"
            by (auto simp: later_star_def split: option.splits)
          from later_star_segment [OF inv [unfolded s] k]
          have b: "k + (t - match) \<le> length T"
            and w: "wild (star_char # drop (Suc p) P) (drop (k + (t - match)) T)"
            by (simp_all add: dP)
          have "match \<le> t" using inv by (simp add: s glob_inv_def)
          then have "t \<le> k + (t - match)" using k(1) by simp
          from wild_star_later [OF w this b] show ?thesis unfolding dP .
        qed
        from "1.IH"(2) [OF tT nm st "1.prems"(1) inv'] tT nm st here old show ?thesis
          by (subst glob_loop.simps) auto
      next
        case ns: False
        have no: "\<not> wild (drop p P) (drop t T)"
        proof (cases "p < length P")
          case True
          then have "drop p P = P ! p # drop (Suc p) P" by (simp add: Cons_nth_drop_Suc)
          then show ?thesis using nm ns True by (auto simp: dT)
        qed (use tT in simp)
        show ?thesis
        proof (cases star)
          case None
          then show ?thesis using tT nm ns no
            by (subst glob_loop.simps) (auto simp: later_star_def)
        next
          case (Some s)
          have le: "match \<le> t" "s < length P" using inv by (simp_all add: Some glob_inv_def)
          have inv': "glob_inv P T (Suc s) (Suc match) star (Suc match)"
            using le tT by (simp add: Some glob_inv_def)
          have later: "later_star P T star match \<longleftrightarrow>
              wild (drop (Suc s) P) (drop (Suc match) T) \<or> later_star P T star (Suc match)"
            using le tT ex_gt_Suc [of match "\<lambda>k. k \<le> length T \<and> wild (drop (Suc s) P) (drop k T)"]
            by (simp add: Some later_star_def)
          from "1.IH"(3) [OF tT nm ns Some "1.prems"(1) inv'] tT nm ns no later show ?thesis
            by (subst glob_loop.simps) (auto simp: Some)
        qed
      qed
    qed
  qed
qed

lemma glob_iff_wild: "star_char \<notin> set T \<Longrightarrow> consumer_demand_glob P T \<longleftrightarrow> wild P T"
  unfolding consumer_demand_glob_def
  by (subst glob_loop_correct) (simp_all add: glob_inv_def later_star_def)

text \<open>
  C39. The iterative matcher always returns, and on every text without a literal star it decides
  exactly the usual meaning of the wildcards: a star stands for any run of characters, a question
  mark for any one character, everything else for itself.
\<close>

theorem glob_decides_wildcards:
  assumes "star_char \<notin> set s"
  shows "consumer_demand_glob pattern s \<longleftrightarrow> wild pattern s"
  using assms by (rule glob_iff_wild)

theorem glob_decides_wildcards_witness:
  "consumer_demand_glob ''A*_?x'' ''Ab_a_cx'' \<and> wild ''A*_?x'' ''Ab_a_cx''"
proof -
  have n: "star_char \<notin> set ''Ab_a_cx''" by simp
  have "wild ''A*_?x'' ''Ab_a_cx''" by simp
  then show ?thesis using glob_decides_wildcards [OF n] by simp
qed

text \<open>
  Where the text itself holds a star the matcher is not the wildcard relation: the comparison
  for equal characters is tried first, so a pattern star facing a text star is consumed as an
  ordinary character, and even the pattern \<open>*\<close>, which means every tag, misses the name \<open>*a\<close>.
\<close>

theorem glob_literal_star_missed:
  "\<not> consumer_demand_glob ''*'' ''*a'' \<and> wild ''*'' ''*a'' \<and>
   (\<forall>s. wild ''*'' s)"
proof -
  have "wild ''*'' s" for s by (induction s) auto
  moreover have "\<not> consumer_demand_glob ''*'' ''*a''"
    by (simp add: consumer_demand_glob_def glob_loop.simps)
  ultimately show ?thesis by blast
qed

end
