(* ===== verification/ConsumerDemand.thy ===== *)
theory ConsumerDemand
  imports OrderedMap Json Glob
begin

text \<open>
  Who needs which tags. \<open>ConsumerDemand\<close> (consumer\_demand.h) holds the registrations one client
  makes, keyed by owner label; \<open>ConsumerDemandLeases\<close> (consumer\_demand\_leases.h) holds those of
  HTTP clients, each for 60 seconds; both are summed per owner into the report the scheduler
  reads. The \<open>unordered\_map\<close> of owners is an ordered
  association list (its iteration order is unspecified; only sums are formed over it); the tag set of a scope, of which the code uses
  membership and one count per element, is a set; the report's JSON objects are maps.
\<close>

section \<open>ConsumerDemand\<close>

record scope =
  all_tags :: bool
  scope_tags :: "string set"
  scope_patterns :: "(string \<times> string) list"

type_synonym demand = "(string, scope) omap"

definition empty_scope :: scope where
  "empty_scope = \<lparr>all_tags = False, scope_tags = {}, scope_patterns = []\<rparr>"

text \<open>A tag key has a colon, not at either end.\<close>

definition valid_tag_key :: "string \<Rightarrow> bool" where
  "valid_tag_key key =
     (let before = takeWhile (\<lambda>c. c \<noteq> CHR '':'') key in
      length before < length key \<and> length before \<noteq> 0 \<and> length before + 1 \<noteq> length key)"

fun read_tags :: "json list \<Rightarrow> string set \<Rightarrow> string set option" where
  "read_tags [] acc = Some acc"
| "read_tags (JStr key # rest) acc =
     (if valid_tag_key key then read_tags rest (insert key acc) else None)"
| "read_tags (_ # rest) acc = None"

definition read_pattern :: "json \<Rightarrow> (string \<times> string) option" where
  "read_pattern p =
     (case (jfind p ''connection_id'', jfind p ''name'') of
        (Some (JStr cid), Some (JStr name)) \<Rightarrow> if cid = [] \<or> name = [] then None else Some (cid, name)
      | _ \<Rightarrow> None)"

fun read_patterns :: "json list \<Rightarrow> (string \<times> string) list \<Rightarrow> (string \<times> string) list option" where
  "read_patterns [] acc = Some acc"
| "read_patterns (p # rest) acc =
     (case read_pattern p of None \<Rightarrow> None | Some q \<Rightarrow> read_patterns rest (acc @ [q]))"

text \<open>The three optional members of a registration; \<open>None\<close> is the early \<open>return false\<close>.\<close>

definition read_all_tags :: "json \<Rightarrow> bool option" where
  "read_all_tags message =
     (case jfind message ''all_tags'' of None \<Rightarrow> Some False | Some (JBool b) \<Rightarrow> Some b | _ \<Rightarrow> None)"

definition read_scope :: "json \<Rightarrow> scope option" where
  "read_scope message =
     (case read_all_tags message of None \<Rightarrow> None
      | Some all \<Rightarrow>
        if \<not> all \<and> (case jfind message ''tags'' of Some (JArr _) \<Rightarrow> False | _ \<Rightarrow> True) then None
        else case (case jfind message ''tags'' of None \<Rightarrow> Some {}
                   | Some (JArr ts) \<Rightarrow> if 100000 < length ts then None else read_tags ts {}
                   | _ \<Rightarrow> None) of None \<Rightarrow> None
        | Some tags \<Rightarrow>
          case (case jfind message ''patterns'' of None \<Rightarrow> Some []
                | Some (JArr ps) \<Rightarrow> if 100000 < length ps then None else read_patterns ps []
                | _ \<Rightarrow> None) of None \<Rightarrow> None
          | Some patterns \<Rightarrow> Some \<lparr>all_tags = all, scope_tags = tags, scope_patterns = patterns\<rparr>)"

definition apply_demand :: "json \<Rightarrow> demand \<Rightarrow> bool \<times> demand" where
  "apply_demand message owners =
     (case jfind message ''owner'' of
        Some (JStr owner) \<Rightarrow>
          if owner = [] \<or> 128 < length owner then (False, owners)
          else (case jfind message ''type'' of
            Some (JStr type) \<Rightarrow>
              if type = ''release_demand'' then (True, om_del owner owners)
              else if type \<noteq> ''register_demand'' then (False, owners)
              else (case read_scope message of
                      None \<Rightarrow> (False, owners)
                    | Some next_scope \<Rightarrow> (True, om_put owner next_scope owners))
          | _ \<Rightarrow> (False, owners))
      | _ \<Rightarrow> (False, owners))"

section \<open>Summing scopes per owner\<close>

record owner_summary =
  registrations :: nat
  all_tags_registrations :: nat
  tag_counts :: "string \<rightharpoonup> nat"
  sum_patterns :: "(string \<times> string) list"

definition empty_summary :: owner_summary where
  "empty_summary = \<lparr>registrations = 0, all_tags_registrations = 0, tag_counts = Map.empty,
     sum_patterns = []\<rparr>"

type_synonym owners_report = "string \<rightharpoonup> owner_summary"

definition count_tags :: "string set \<Rightarrow> (string \<rightharpoonup> nat) \<Rightarrow> (string \<rightharpoonup> nat)" where
  "count_tags ts m = (\<lambda>k. if k \<in> ts then Some (case m k of None \<Rightarrow> 1 | Some n \<Rightarrow> n + 1) else m k)"

definition merge_consumer_scope :: "string \<Rightarrow> scope \<Rightarrow> owners_report \<Rightarrow> owners_report" where
  "merge_consumer_scope name sc owners =
     (let o0 = (case owners name of None \<Rightarrow> empty_summary | Some o' \<Rightarrow> o');
          o1 = o0\<lparr>registrations := registrations o0 + 1\<rparr>;
          o2 = (if all_tags sc then o1\<lparr>all_tags_registrations := all_tags_registrations o1 + 1\<rparr>
                else o1\<lparr>tag_counts := count_tags (scope_tags sc) (tag_counts o1),
                        sum_patterns := sum_patterns o1 @ scope_patterns sc\<rparr>)
      in owners(name \<mapsto> o2))"

definition consumer_demand_matches :: "owner_summary \<Rightarrow> string \<Rightarrow> string \<Rightarrow> bool" where
  "consumer_demand_matches owner cid name \<longleftrightarrow>
     all_tags_registrations owner \<noteq> 0 \<or>
     (case tag_counts owner (cid @ '':'' @ name) of None \<Rightarrow> False | Some n \<Rightarrow> n \<noteq> 0) \<or>
     list_ex (\<lambda>(c, pat). c = cid \<and> consumer_demand_glob pat name) (sum_patterns owner)"

text \<open>What one registration asks for, and what the summed report must answer.\<close>

definition scope_wants :: "scope \<Rightarrow> string \<Rightarrow> string \<Rightarrow> bool" where
  "scope_wants sc cid name \<longleftrightarrow>
     all_tags sc \<or> cid @ '':'' @ name \<in> scope_tags sc \<or>
     (\<exists>(c, pat) \<in> set (scope_patterns sc). c = cid \<and> consumer_demand_glob pat name)"

definition merge_all :: "(string \<times> scope) list \<Rightarrow> owners_report \<Rightarrow> owners_report" where
  "merge_all regs owners = foldl (\<lambda>acc (n, sc). merge_consumer_scope n sc acc) owners regs"

definition positive_counts :: "owner_summary \<Rightarrow> bool" where
  "positive_counts s \<longleftrightarrow> (\<forall>k n. tag_counts s k = Some n \<longrightarrow> n \<noteq> 0)"

definition report_wants :: "owners_report \<Rightarrow> string \<Rightarrow> string \<Rightarrow> string \<Rightarrow> bool" where
  "report_wants owners name cid tag =
     (case owners name of None \<Rightarrow> False | Some s \<Rightarrow> consumer_demand_matches s cid tag)"

lemma merge_other [simp]: "n \<noteq> name \<Longrightarrow> merge_consumer_scope name sc owners n = owners n"
  by (simp add: merge_consumer_scope_def Let_def)

lemma merge_wants:
  "report_wants (merge_consumer_scope name sc owners) name cid tag \<longleftrightarrow>
     report_wants owners name cid tag \<or> scope_wants sc cid tag"
  by (auto simp: report_wants_def merge_consumer_scope_def consumer_demand_matches_def
      scope_wants_def empty_summary_def count_tags_def list_ex_iff Let_def split: option.splits)

lemma merge_all_wants:
  "report_wants (merge_all regs owners) name cid tag \<longleftrightarrow>
     report_wants owners name cid tag \<or> (\<exists>sc. (name, sc) \<in> set regs \<and> scope_wants sc cid tag)"
proof (induction regs arbitrary: owners)
  case Nil
  then show ?case by (simp add: merge_all_def)
next
  case (Cons r regs)
  obtain n sc where r: "r = (n, sc)" by (cases r)
  have "merge_all (r # regs) owners = merge_all regs (merge_consumer_scope n sc owners)"
    by (simp add: merge_all_def r)
  moreover have "report_wants (merge_consumer_scope n sc owners) name cid tag \<longleftrightarrow>
      report_wants owners name cid tag \<or> (n = name \<and> scope_wants sc cid tag)"
    by (cases "n = name") (simp_all add: merge_wants, simp add: report_wants_def)
  ultimately show ?case using Cons.IH r by auto
qed

text \<open>
  C18. The summed report loses no interest and invents none: an owner's summary matches a tag
  exactly if one of the registrations merged under that owner asks for it, by an all-tags
  registration, by the tag's key or by a pattern; registrations of other owners do not count.
\<close>

theorem summary_matches_iff_registered:
  "report_wants (merge_all regs Map.empty) name cid tag \<longleftrightarrow>
     (\<exists>sc. (name, sc) \<in> set regs \<and> scope_wants sc cid tag)"
  by (simp add: merge_all_wants) (simp add: report_wants_def)

section \<open>Accepted and refused messages\<close>

text \<open>Everything a stored scope holds was validated.\<close>

definition scope_ok :: "scope \<Rightarrow> bool" where
  "scope_ok sc \<longleftrightarrow> finite (scope_tags sc) \<and> card (scope_tags sc) \<le> 100000 \<and>
     length (scope_patterns sc) \<le> 100000 \<and> (\<forall>k \<in> scope_tags sc. valid_tag_key k) \<and>
     (\<forall>(c, n) \<in> set (scope_patterns sc). c \<noteq> [] \<and> n \<noteq> [])"

definition demand_ok :: "demand \<Rightarrow> bool" where
  "demand_ok d \<longleftrightarrow> om_ok d \<and> (\<forall>owner sc. om_get d owner = Some sc \<longrightarrow>
     owner \<noteq> [] \<and> length owner \<le> 128 \<and> scope_ok sc)"

lemma read_tags_ok:
  assumes "read_tags ts acc = Some tags" "finite acc"
  shows "finite tags \<and> card tags \<le> card acc + length ts \<and> (\<forall>k \<in> tags. k \<in> acc \<or> valid_tag_key k)"
  using assms
proof (induction ts acc rule: read_tags.induct)
  case (2 key rest acc)
  then have "finite tags \<and> card tags \<le> card (insert key acc) + length rest \<and>
      (\<forall>k \<in> tags. k \<in> insert key acc \<or> valid_tag_key k)" and "valid_tag_key key"
    by (auto split: if_splits)
  moreover have "card (insert key acc) \<le> card acc + 1" using 2(3) by (simp add: card_insert_if)
  ultimately show ?case by auto
qed auto

lemma read_pattern_ok: "read_pattern p = Some (c, n) \<Longrightarrow> c \<noteq> [] \<and> n \<noteq> []"
  by (auto simp: read_pattern_def split: option.splits json.splits if_splits)

lemma read_patterns_ok:
  "read_patterns ps acc = Some qs \<Longrightarrow>
     length qs = length acc + length ps \<and> (\<forall>q \<in> set qs. q \<in> set acc \<or> fst q \<noteq> [] \<and> snd q \<noteq> [])"
proof (induction ps acc rule: read_patterns.induct)
  case (2 p rest acc)
  then obtain q where q: "read_pattern p = Some q" and r: "read_patterns rest (acc @ [q]) = Some qs"
    by (auto split: option.splits)
  have "fst q \<noteq> [] \<and> snd q \<noteq> []" using read_pattern_ok [of p "fst q" "snd q"] q by simp
  with "2.IH" [OF q r] show ?case by auto
qed simp

lemma read_scope_ok: "read_scope message = Some sc \<Longrightarrow> scope_ok sc"
proof -
  assume r: "read_scope message = Some sc"
  have t: "scope_tags sc = {} \<or> (\<exists>ts. length ts \<le> 100000 \<and> read_tags ts {} = Some (scope_tags sc))"
    using r unfolding read_scope_def by (auto split: option.splits json.splits if_splits simp: not_less)
  have p: "scope_patterns sc = [] \<or> (\<exists>ps. length ps \<le> 100000 \<and> read_patterns ps [] = Some (scope_patterns sc))"
    using r unfolding read_scope_def by (auto split: option.splits json.splits if_splits simp: not_less)
  have "finite (scope_tags sc) \<and> card (scope_tags sc) \<le> 100000 \<and> (\<forall>k \<in> scope_tags sc. valid_tag_key k)"
    using t read_tags_ok [of _ "{}" "scope_tags sc"] by fastforce
  moreover have "length (scope_patterns sc) \<le> 100000 \<and> (\<forall>q \<in> set (scope_patterns sc). fst q \<noteq> [] \<and> snd q \<noteq> [])"
    using p read_patterns_ok [of _ "[]" "scope_patterns sc"] by fastforce
  ultimately show ?thesis by (auto simp: scope_ok_def)
qed

lemma demand_ok_del: "demand_ok d \<Longrightarrow> demand_ok (om_del k d)"
  unfolding demand_ok_def by (simp add: om.get_del om.ok_del)

lemma demand_ok_upd:
  "demand_ok d \<Longrightarrow> k \<noteq> [] \<Longrightarrow> length k \<le> 128 \<Longrightarrow> scope_ok sc \<Longrightarrow> demand_ok (om_put k sc d)"
  unfolding demand_ok_def by (simp add: om.get_put om.ok_put)

lemma apply_demand_cases:
  "apply_demand message d = (False, d) \<or>
   (\<exists>owner. owner \<noteq> [] \<and> length owner \<le> 128 \<and> jfind message ''owner'' = Some (JStr owner) \<and>
      (jfind message ''type'' = Some (JStr ''release_demand'') \<and>
         apply_demand message d = (True, om_del owner d) \<or>
       (\<exists>sc. jfind message ''type'' = Some (JStr ''register_demand'') \<and> read_scope message = Some sc \<and>
         apply_demand message d = (True, om_put owner sc d))))"
  by (auto simp: apply_demand_def split: option.splits json.splits)

lemma registration_step_ok: "demand_ok d \<Longrightarrow> demand_ok (snd (apply_demand message d))"
  using apply_demand_cases [of message d]
  by (elim disjE exE conjE) (simp_all add: demand_ok_del demand_ok_upd read_scope_ok)



end
