(* ===== verification/Leases.thy ===== *)
theory Leases
  imports ConsumerDemand
begin

text \<open>
  \<open>ConsumerDemandLeases\<close> (consumer\_demand\_leases.h): registrations of HTTP consumers, each kept
  for 60 seconds unless renewed. The \<open>std::map\<close> keyed by client and owner is an ordered
  association list; expired entries are erased whenever the object is used.
\<close>

section \<open>The contract of a store of leases\<close>

text \<open>A keyed store whose entries carry an expiry time, and the erase loop that prunes it.\<close>

locale lease_store = keyed_store get put del keep empty ok
  for get :: "'s \<Rightarrow> 'k \<Rightarrow> 'v option" and put :: "'k \<Rightarrow> 'v \<Rightarrow> 's \<Rightarrow> 's" and del :: "'k \<Rightarrow> 's \<Rightarrow> 's"
    and keep :: "('k \<Rightarrow> 'v \<Rightarrow> bool) \<Rightarrow> 's \<Rightarrow> 's" and empty :: 's and ok :: "'s \<Rightarrow> bool" +
  fixes expiry :: "'v \<Rightarrow> time"
begin

text \<open>The entries in force at \<open>now\<close>, of a store and of an unpruned reference map.\<close>

lemma live_keep:
  "ok s \<Longrightarrow> t \<le> now \<Longrightarrow>
     keep_entries (\<lambda>k v. now < expiry v) (get (keep (\<lambda>k v. t < expiry v) s)) =
     keep_entries (\<lambda>k v. now < expiry v) (get s)"
  by (rule ext) (auto simp: get_keep keep_entries_def split: option.splits)

lemma live_put:
  "ok s \<Longrightarrow> keep_entries L (get s) = keep_entries L m \<Longrightarrow>
     keep_entries L (get (put k v s)) = keep_entries L (m(k \<mapsto> v))"
  by (simp add: get_put)

lemma live_del:
  "ok s \<Longrightarrow> keep_entries L (get s) = keep_entries L m \<Longrightarrow>
     keep_entries L (get (del k s)) = keep_entries L (m(k := None))"
  by (rule ext) (auto simp: get_del keep_entries_def fun_eq_iff split: option.splits)

end

section \<open>ConsumerDemandLeases\<close>

record lease_entry =
  lease_scope :: scope
  until :: time

type_synonym leases = "(string \<times> string, lease_entry) omap"

interpretation lease: lease_store om_get om_put om_del om_keep "[]"
  "om_ok :: leases \<Rightarrow> bool" until
  by unfold_locales

definition prune_leases :: "time \<Rightarrow> leases \<Rightarrow> leases" where
  "prune_leases now m = om_keep (\<lambda>k e. now < until e) m"

definition lease_apply :: "json \<Rightarrow> bool \<Rightarrow> time \<Rightarrow> leases \<Rightarrow> bool \<times> leases" where
  "lease_apply message release now entries =
     (case jfind message ''client_id'' of
        Some (JStr client) \<Rightarrow>
          if client = [] \<or> 128 < length client then (False, entries)
          else
            let typed = jset ''type'' (JStr (if release then ''release_demand'' else ''register_demand'')) message
            in (case apply_demand typed [] of
                  (False, _) \<Rightarrow> (False, entries)
                | (True, validated) \<Rightarrow>
                    (case jfind typed ''owner'' of
                       Some (JStr owner) \<Rightarrow>
                         let pruned = prune_leases now entries in
                         if release then (True, om_del (client, owner) pruned)
                         else (case om_get validated owner of
                                 None \<Rightarrow> (False, entries)
                               | Some sc \<Rightarrow>
                                   (True, om_put (client, owner)
                                      \<lparr>lease_scope = sc, until = now + seconds 60\<rparr> pruned))
                     | _ \<Rightarrow> (False, entries)))
      | _ \<Rightarrow> (False, entries))"

definition lease_append :: "time \<Rightarrow> owners_report \<Rightarrow> leases \<Rightarrow> owners_report \<times> leases" where
  "lease_append now owners entries =
     (let pruned = prune_leases now entries
      in (merge_all (map (\<lambda>((client, owner), e). (owner, lease_scope e)) pruned) owners, pruned))"

datatype lease_op = LApply json bool time | LAppend time

fun lease_time :: "lease_op \<Rightarrow> time" where
  "lease_time (LApply m r t) = t"
| "lease_time (LAppend t) = t"

fun lease_step :: "leases \<Rightarrow> lease_op \<Rightarrow> leases" where
  "lease_step s (LApply m r t) = snd (lease_apply m r t s)"
| "lease_step s (LAppend t) = snd (lease_append t Map.empty s)"

definition lease_run :: "leases \<Rightarrow> lease_op list \<Rightarrow> leases" where
  "lease_run s ops = foldl lease_step s ops"

section \<open>The reference: the last accepted message of each client and owner\<close>

text \<open>What an accepted request means, read off the message alone.\<close>

definition lease_request :: "json \<Rightarrow> bool \<Rightarrow> (string \<times> string \<times> scope option) option" where
  "lease_request message release =
     (case (jfind message ''client_id'', jfind message ''owner'') of
        (Some (JStr client), Some (JStr owner)) \<Rightarrow>
          if client = [] \<or> 128 < length client \<or> owner = [] \<or> 128 < length owner then None
          else if release then Some (client, owner, None)
          else map_option (\<lambda>sc. (client, owner, Some sc)) (read_scope message)
      | _ \<Rightarrow> None)"

type_synonym lease_spec = "string \<times> string \<rightharpoonup> lease_entry"

fun spec_step :: "lease_spec \<Rightarrow> lease_op \<Rightarrow> lease_spec" where
  "spec_step m (LApply msg release t) =
     (case lease_request msg release of
        None \<Rightarrow> m
      | Some (client, owner, None) \<Rightarrow> m((client, owner) := None)
      | Some (client, owner, Some sc) \<Rightarrow> m((client, owner) \<mapsto> \<lparr>lease_scope = sc, until = t + seconds 60\<rparr>))"
| "spec_step m (LAppend t) = m"

definition spec_run :: "lease_spec \<Rightarrow> lease_op list \<Rightarrow> lease_spec" where
  "spec_run m ops = foldl spec_step m ops"

lemma jfind_Some_object: "jfind j k = Some v \<Longrightarrow> is_object j"
  by (cases j) simp_all

lemma read_scope_jset_type [simp]:
  assumes "is_object message"
  shows "read_scope (jset ''type'' v message) = read_scope message"
proof -
  have "jfind (jset ''type'' v message) ''all_tags'' = jfind message ''all_tags''"
    and "jfind (jset ''type'' v message) ''tags'' = jfind message ''tags''"
    and "jfind (jset ''type'' v message) ''patterns'' = jfind message ''patterns''"
    using assms by simp_all
  then show ?thesis unfolding read_scope_def read_all_tags_def by (simp only:)
qed

lemma lease_apply_eq:
  "lease_apply message release now entries =
     (case lease_request message release of
        None \<Rightarrow> (False, entries)
      | Some (client, owner, None) \<Rightarrow> (True, om_del (client, owner) (prune_leases now entries))
      | Some (client, owner, Some sc) \<Rightarrow>
          (True, om_put (client, owner) \<lparr>lease_scope = sc, until = now + seconds 60\<rparr> (prune_leases now entries)))"
proof (cases "jfind message ''client_id''")
  case (Some c)
  then have obj: "is_object message" by (rule jfind_Some_object)
  show ?thesis
    using Some obj
    by (cases c; cases release)
       (auto simp: lease_apply_def lease_request_def apply_demand_def Let_def om_get_def
         split: option.splits json.splits)
qed (simp add: lease_apply_def lease_request_def)

lemma lease_step_ok: "om_ok s \<Longrightarrow> om_ok (lease_step s x)"
  by (cases x)
     (auto simp: lease_apply_eq lease_append_def prune_leases_def Let_def om.ok_put om.ok_del om.ok_keep
       split: option.splits)

lemma lease_step_refines:
  assumes "om_ok s" "lease_time x \<le> now"
    and eq: "\<And>t. lease_time x \<le> t \<Longrightarrow>
      keep_entries (\<lambda>k e. t < until e) (om_get s) = keep_entries (\<lambda>k e. t < until e) m"
  shows "keep_entries (\<lambda>k e. now < until e) (om_get (lease_step s x)) =
    keep_entries (\<lambda>k e. now < until e) (spec_step m x)"
proof (cases x)
  case (LApply msg release t)
  let ?p = "prune_leases t s"
  have ok: "om_ok ?p" using assms(1) by (simp add: prune_leases_def om.ok_keep)
  have p: "keep_entries (\<lambda>k e. now < until e) (om_get ?p) = keep_entries (\<lambda>k e. now < until e) m"
    using assms(2) LApply eq [of now] lease.live_keep [OF assms(1), of t now]
    by (simp add: prune_leases_def)
  show ?thesis
    using p eq [of now] assms(2) lease.live_del [OF ok p] lease.live_put [OF ok p]
    by (auto simp: LApply lease_apply_eq split: option.splits)
next
  case (LAppend t)
  then show ?thesis
    using assms(2) eq [of now] lease.live_keep [OF assms(1), of t now]
    by (simp add: lease_append_def prune_leases_def Let_def)
qed

lemma lease_run_refines:
  assumes "om_ok s" "sorted (map lease_time ops)" "\<forall>x \<in> set ops. t0 \<le> lease_time x"
    and "\<And>t. t0 \<le> t \<Longrightarrow> keep_entries (\<lambda>k e. t < until e) (om_get s) = keep_entries (\<lambda>k e. t < until e) m"
    and "t0 \<le> now" "\<forall>x \<in> set ops. lease_time x \<le> now"
  shows "om_ok (lease_run s ops) \<and>
    keep_entries (\<lambda>k e. now < until e) (om_get (lease_run s ops)) =
    keep_entries (\<lambda>k e. now < until e) (spec_run m ops)"
  using assms
proof (induction ops arbitrary: s m t0)
  case Nil
  then show ?case by (simp add: lease_run_def spec_run_def)
next
  case (Cons x ops)
  have step: "keep_entries (\<lambda>k e. t < until e) (om_get (lease_step s x)) =
      keep_entries (\<lambda>k e. t < until e) (spec_step m x)" if "lease_time x \<le> t" for t
    using that Cons.prems by (intro lease_step_refines) auto
  have "om_ok (lease_run (lease_step s x) ops) \<and>
      keep_entries (\<lambda>k e. now < until e) (om_get (lease_run (lease_step s x) ops)) =
      keep_entries (\<lambda>k e. now < until e) (spec_run (spec_step m x) ops)"
    using Cons.prems step
    by (intro Cons.IH [of _ "lease_time x"] lease_step_ok) auto
  then show ?case by (simp add: lease_run_def spec_run_def)
qed

text \<open>
  C17. The leases refine "the last accepted message counts, for 60 seconds". After any history of
  registrations, releases and reports (under a clock that does not run backwards), the report at
  \<open>now\<close> matches a tag for an owner exactly if some client's last accepted message for that owner
  was a registration less than 60 seconds old that wants the tag: nothing expires early, nothing
  lives on, a release or replacement takes effect at once, and refused messages count for nothing.
\<close>

theorem leases_refine_last_message:
  assumes "sorted (map lease_time ops)" "\<forall>x \<in> set ops. 0 \<le> lease_time x \<and> lease_time x \<le> now" "0 \<le> now"
  shows "report_wants (fst (lease_append now Map.empty (lease_run [] ops))) owner cid tag \<longleftrightarrow>
    (\<exists>client e. spec_run Map.empty ops (client, owner) = Some e \<and> now < until e \<and>
       scope_wants (lease_scope e) cid tag)"
proof -
  let ?s = "lease_run [] ops"
  have run: "om_ok ?s \<and> keep_entries (\<lambda>k e. now < until e) (om_get ?s) =
      keep_entries (\<lambda>k e. now < until e) (spec_run Map.empty ops)"
    by (rule lease_run_refines [of _ _ 0]) (use assms in \<open>auto simp: om.ok_empty om_get_def\<close>)
  let ?p = "prune_leases now ?s"
  have ok: "om_ok ?p" using run by (simp add: prune_leases_def om.ok_keep)
  have get: "om_get ?p k = Some e \<longleftrightarrow> spec_run Map.empty ops k = Some e \<and> now < until e" for k e
    using run by (simp add: prune_leases_def om.get_keep)
  have "report_wants (fst (lease_append now Map.empty ?s)) owner cid tag \<longleftrightarrow>
      (\<exists>sc. (owner, sc) \<in> set (map (\<lambda>((client, owner), e). (owner, lease_scope e)) ?p) \<and> scope_wants sc cid tag)"
    by (simp add: lease_append_def Let_def merge_all_wants) (simp add: report_wants_def)
  also have "\<dots> \<longleftrightarrow> (\<exists>client e. ((client, owner), e) \<in> set ?p \<and> scope_wants (lease_scope e) cid tag)"
    by force
  also have "\<dots> \<longleftrightarrow> (\<exists>client e. spec_run Map.empty ops (client, owner) = Some e \<and> now < until e \<and>
      scope_wants (lease_scope e) cid tag)"
    by (simp add: om_get_in_set [OF ok, symmetric] get conj_assoc)
  finally show ?thesis .
qed

theorem leases_refine_last_message_witness:
  "let m = JObj [(''client_id'', JStr ''c''), (''owner'', JStr ''o''), (''all_tags'', JBool True)];
       ops = [LApply m False 5]
   in report_wants (fst (lease_append 10 Map.empty (lease_run [] ops))) ''o'' ''plc'' ''t''"
proof -
  let ?m = "JObj [(''client_id'', JStr ''c''), (''owner'', JStr ''o''), (''all_tags'', JBool True)]"
  let ?ops = "[LApply ?m False 5]"
  have "spec_run Map.empty ?ops (''c'', ''o'') =
      Some \<lparr>lease_scope = \<lparr>all_tags = True, scope_tags = {}, scope_patterns = []\<rparr>, until = 5 + seconds 60\<rparr>"
    by (simp add: spec_run_def lease_request_def read_scope_def read_all_tags_def)
  moreover have "(10::int) < 5 + seconds 60" by (simp add: clock_simps)
  ultimately have "\<exists>client e. spec_run Map.empty ?ops (client, ''o'') = Some e \<and> 10 < until e \<and>
      scope_wants (lease_scope e) ''plc'' ''t''"
    by (intro exI [of _ "''c''"]) (simp add: scope_wants_def)
  with leases_refine_last_message [of ?ops 10 "''o''" "''plc''" "''t''"] show ?thesis
    by (simp add: Let_def)
qed

end
