(* ===== verification/WebSocket.thy ===== *)
theory WebSocket
  imports ConsumerDemand
begin

text \<open>
  The WebSocket server (ws.cpp): which clients there are, what each subscribed to, which of them a
  message goes to, and the demand their subscriptions stand for. ixwebsocket is not part of the
  repository: a client's socket is a handle, and what its weak pointer and ready state say at one
  moment is the argument \<open>ready\<close> (\<open>None\<close> for an expired pointer), what a send returns the argument
  \<open>send\_ok\<close>. Each function that takes \<open>g\_wsMutex\<close> is one atomic step; \<open>ws\_send\_json\<close> takes it
  twice and is three steps. A message that does not parse is \<open>None\<close>.
\<close>

section \<open>State\<close>

record client_subs =
  subs_demand :: demand
  explicit_demand :: bool
  subscribe_all :: bool
  has_custom :: bool
  subs_tags :: "string set"

definition new_subs :: client_subs where
  "new_subs = \<lparr>subs_demand = [], explicit_demand = False, subscribe_all = True, has_custom = False,
     subs_tags = {}\<rparr>"

datatype ready_state = Connecting | Open | Closing | Closed

type_synonym sock = nat

record ws_state =
  ws_server :: bool
  ws_enabled :: bool
  ws_clients :: "(string, sock) omap"
  ws_subs :: "(string, client_subs) omap"

definition ws_start :: ws_state where
  "ws_start = \<lparr>ws_server = False, ws_enabled = False, ws_clients = [], ws_subs = []\<rparr>"

section \<open>Lifecycle\<close>

definition ws_init :: "bool \<Rightarrow> ws_state \<Rightarrow> bool \<times> ws_state" where
  "ws_init listen_ok s =
     (if ws_server s then (True, s\<lparr>ws_enabled := True\<rparr>)
      else if \<not> listen_ok then (False, s\<lparr>ws_server := False, ws_enabled := False\<rparr>)
      else (True, s\<lparr>ws_server := True, ws_enabled := True\<rparr>))"

definition ws_shutdown :: "ws_state \<Rightarrow> ws_state" where
  "ws_shutdown s = s\<lparr>ws_server := False, ws_enabled := False, ws_clients := [], ws_subs := []\<rparr>"

definition ws_is_enabled :: "ws_state \<Rightarrow> bool" where
  "ws_is_enabled s \<longleftrightarrow> ws_enabled s \<and> ws_server s"

definition ws_forget_client :: "string \<Rightarrow> ws_state \<Rightarrow> ws_state" where
  "ws_forget_client cid s = s\<lparr>ws_clients := om_del cid (ws_clients s), ws_subs := om_del cid (ws_subs s)\<rparr>"

text \<open>\<open>map[key]\<close> on a missing key inserts a default entry.\<close>

definition subs_at :: "string \<Rightarrow> ws_state \<Rightarrow> client_subs" where
  "subs_at cid s = (case om_get (ws_subs s) cid of None \<Rightarrow> new_subs | Some c \<Rightarrow> c)"

definition put_subs :: "string \<Rightarrow> client_subs \<Rightarrow> ws_state \<Rightarrow> ws_state" where
  "put_subs cid c s = s\<lparr>ws_subs := om_put cid c (ws_subs s)\<rparr>"

definition on_connection :: "string \<Rightarrow> sock \<Rightarrow> bool \<Rightarrow> ws_state \<Rightarrow> ws_state" where
  "on_connection cid h alive s =
     (if \<not> alive then s
      else put_subs cid ((subs_at cid s)\<lparr>explicit_demand := False, subscribe_all := True,
                          has_custom := False, subs_tags := {}\<rparr>)
             (s\<lparr>ws_clients := om_put cid h (ws_clients s)\<rparr>))"

section \<open>Messages from a client\<close>

fun string_members :: "json list \<Rightarrow> string set" where
  "string_members [] = {}"
| "string_members (JStr k # rest) = insert k (string_members rest)"
| "string_members (_ # rest) = string_members rest"

definition demand_message :: "string \<Rightarrow> json \<Rightarrow> client_subs \<Rightarrow> client_subs" where
  "demand_message t j subs =
     (let mode = jfind j ''demand_mode'' in
      if t = ''register_demand'' \<and> mode \<noteq> None \<and>
         mode \<noteq> Some (JStr ''explicit'') \<and> mode \<noteq> Some (JStr ''subscription'')
      then subs
      else case apply_demand j (subs_demand subs) of (accepted, d) \<Rightarrow>
        let subs' = subs\<lparr>subs_demand := d\<rparr> in
        if accepted \<and> t = ''register_demand'' \<and> mode \<noteq> None
        then subs'\<lparr>explicit_demand := (mode = Some (JStr ''explicit''))\<rparr>
        else subs')"

definition subscription_message :: "string \<Rightarrow> json \<Rightarrow> client_subs \<Rightarrow> client_subs" where
  "subscription_message t j subs =
     (if t = ''register_demand'' \<or> t = ''release_demand'' then demand_message t j subs
      else if t = ''subscribe_all''
      then subs\<lparr>subscribe_all := True, has_custom := False, subs_tags := {}\<rparr>
      else if t = ''subscribe''
      then subs\<lparr>subscribe_all := False, has_custom := True,
                subs_tags := (case jfind j ''tags'' of Some (JArr xs) \<Rightarrow> string_members xs | _ \<Rightarrow> {})\<rparr>
      else subs)"

definition on_message :: "string \<Rightarrow> json option \<Rightarrow> ws_state \<Rightarrow> ws_state" where
  "on_message cid msg s =
     (case msg of
        None \<Rightarrow> s
      | Some j \<Rightarrow>
          (case jfind j ''type'' of
             Some (JStr t) \<Rightarrow> put_subs cid (subscription_message t j (subs_at cid s)) s
           | _ \<Rightarrow> s))"

section \<open>Sending\<close>

definition message_type :: "json \<Rightarrow> string" where
  "message_type msg = (case jfind msg ''type'' of Some (JStr t) \<Rightarrow> t | _ \<Rightarrow> [])"

definition message_key :: "json \<Rightarrow> string" where
  "message_key msg =
     (if message_type msg \<noteq> ''tag_update'' then []
      else case jfind msg ''key'' of
        Some (JStr k) \<Rightarrow> k
      | _ \<Rightarrow> (case (jfind msg ''connection_id'', jfind msg ''name'') of
               (Some (JStr c), Some (JStr n)) \<Rightarrow> c @ '':'' @ n
             | _ \<Rightarrow> []))"

definition skips :: "json \<Rightarrow> client_subs \<Rightarrow> bool" where
  "skips msg subs \<longleftrightarrow> has_custom subs \<and> \<not> subscribe_all subs \<and>
     (message_key msg = [] \<or> message_key msg \<notin> subs_tags subs)"

definition dead :: "(sock \<Rightarrow> ready_state option) \<Rightarrow> sock \<Rightarrow> bool" where
  "dead ready h \<longleftrightarrow> ready h = None \<or> ready h = Some Closed"

text \<open>The locked loop over the clients, in the order the map gives them.\<close>

fun collect :: "(sock \<Rightarrow> ready_state option) \<Rightarrow> json \<Rightarrow> (string, client_subs) omap \<Rightarrow>
    (string, sock) omap \<Rightarrow> (string \<times> sock) list \<times> (string, sock) omap \<times> (string, client_subs) omap" where
  "collect ready msg subs [] = ([], [], subs)"
| "collect ready msg subs ((cid, h) # rest) =
     (if dead ready h then collect ready msg (om_del cid subs) rest
      else case collect ready msg subs rest of (targets, kept, subs') \<Rightarrow>
        if message_type msg = ''tag_update'' \<and>
           (case om_get subs cid of None \<Rightarrow> False | Some c \<Rightarrow> skips msg c)
        then (targets, (cid, h) # kept, subs')
        else ((cid, h) # targets, (cid, h) # kept, subs'))"

definition ws_targets ::
    "(sock \<Rightarrow> ready_state option) \<Rightarrow> json \<Rightarrow> ws_state \<Rightarrow> (string \<times> sock) list \<times> ws_state" where
  "ws_targets ready msg s =
     (if \<not> ws_enabled s \<or> \<not> ws_server s then ([], s)
      else case collect ready msg (ws_subs s) (ws_clients s) of (targets, kept, subs') \<Rightarrow>
        (targets, s\<lparr>ws_clients := kept, ws_subs := subs'\<rparr>))"

text \<open>Outside the lock: who was sent the payload, and who has to be forgotten.\<close>

definition ws_deliver ::
    "(sock \<Rightarrow> ready_state option) \<Rightarrow> (sock \<Rightarrow> bool) \<Rightarrow> (string \<times> sock) list \<Rightarrow> string list \<times> string list" where
  "ws_deliver ready send_ok targets =
     (map fst (filter (\<lambda>(cid, h). ready h = Some Open \<and> send_ok h) targets),
      map fst (filter (\<lambda>(cid, h). ready h \<noteq> Some Open \<or> \<not> send_ok h) targets))"

definition ws_forget_failed :: "string list \<Rightarrow> ws_state \<Rightarrow> ws_state" where
  "ws_forget_failed failed s = foldl (\<lambda>acc cid. ws_forget_client cid acc) s failed"

definition ws_send_json ::
    "(sock \<Rightarrow> ready_state option) \<Rightarrow> (sock \<Rightarrow> ready_state option) \<Rightarrow> (sock \<Rightarrow> bool) \<Rightarrow> json \<Rightarrow>
     ws_state \<Rightarrow> string list \<times> ws_state" where
  "ws_send_json ready ready' send_ok msg s =
     (case ws_targets ready msg s of (targets, s1) \<Rightarrow>
        case ws_deliver ready' send_ok targets of (sent, failed) \<Rightarrow> (sent, ws_forget_failed failed s1))"

section \<open>The demand snapshot\<close>

record demand_snapshot =
  all_tags_clients :: nat
  snap_tags :: "string \<rightharpoonup> nat"
  snap_owners :: owners_report

definition no_demand :: demand_snapshot where
  "no_demand = \<lparr>all_tags_clients = 0, snap_tags = Map.empty, snap_owners = Map.empty\<rparr>"

definition add_client_demand :: "client_subs \<Rightarrow> demand_snapshot \<Rightarrow> demand_snapshot" where
  "add_client_demand subs r =
     (let r1 = r\<lparr>snap_owners := merge_all (subs_demand subs) (snap_owners r)\<rparr> in
      if explicit_demand subs then r1
      else if \<not> has_custom subs \<or> subscribe_all subs
      then r1\<lparr>all_tags_clients := all_tags_clients r1 + 1\<rparr>
      else r1\<lparr>snap_tags := count_tags (subs_tags subs) (snap_tags r1)\<rparr>)"

definition client_open :: "(sock \<Rightarrow> ready_state option) \<Rightarrow> ws_state \<Rightarrow> string \<Rightarrow> bool" where
  "client_open ready s cid =
     (case om_get (ws_clients s) cid of None \<Rightarrow> False | Some h \<Rightarrow> ready h = Some Open)"

definition ws_demand_snapshot :: "(sock \<Rightarrow> ready_state option) \<Rightarrow> ws_state \<Rightarrow> demand_snapshot" where
  "ws_demand_snapshot ready s =
     foldl (\<lambda>r (cid, subs). if client_open ready s cid then add_client_demand subs r else r)
       no_demand (ws_subs s)"

section \<open>The invariant\<close>

text \<open>
  Both maps are well formed, every registration in them is, and exactly one of the two
  subscription flags of a client is set; a client that wants everything lists no tags.
\<close>

definition subs_ok :: "client_subs \<Rightarrow> bool" where
  "subs_ok c \<longleftrightarrow> demand_ok (subs_demand c) \<and> (has_custom c \<longleftrightarrow> \<not> subscribe_all c) \<and>
     (subscribe_all c \<longrightarrow> subs_tags c = {})"

definition ws_ok :: "ws_state \<Rightarrow> bool" where
  "ws_ok s \<longleftrightarrow> om_ok (ws_clients s) \<and> om_ok (ws_subs s) \<and>
     (\<forall>cid c. om_get (ws_subs s) cid = Some c \<longrightarrow> subs_ok c)"

lemma new_subs_ok: "subs_ok new_subs"
  by (simp add: subs_ok_def new_subs_def demand_ok_def om_get_def om_ok_def)

lemma subs_at_ok: "ws_ok s \<Longrightarrow> subs_ok (subs_at cid s)"
  by (auto simp: subs_at_def ws_ok_def new_subs_ok split: option.splits)

lemma put_subs_ok: "ws_ok s \<Longrightarrow> subs_ok c \<Longrightarrow> ws_ok (put_subs cid c s)"
  by (auto simp: ws_ok_def put_subs_def om.get_put om.ok_put)

lemma ws_forget_ok: "ws_ok s \<Longrightarrow> ws_ok (ws_forget_client cid s)"
  by (auto simp: ws_ok_def ws_forget_client_def om.get_del om.ok_del split: if_splits)

lemma demand_message_ok: "subs_ok c \<Longrightarrow> subs_ok (demand_message t j c)"
  using registration_step_ok [of "subs_demand c" j]
  by (auto simp: demand_message_def subs_ok_def Let_def split: prod.splits)

lemma subscription_message_ok: "subs_ok c \<Longrightarrow> subs_ok (subscription_message t j c)"
  using demand_message_ok [of c t j]
  by (auto simp: subscription_message_def) (auto simp: subs_ok_def)

lemma on_message_ok: "ws_ok s \<Longrightarrow> ws_ok (on_message cid msg s)"
  by (auto simp: on_message_def put_subs_ok subscription_message_ok subs_at_ok split: option.splits json.splits)

lemma on_connection_ok: "ws_ok s \<Longrightarrow> ws_ok (on_connection cid h alive s)"
proof -
  assume ok: "ws_ok s"
  then have "ws_ok (s\<lparr>ws_clients := om_put cid h (ws_clients s)\<rparr>)" by (simp add: ws_ok_def om.ok_put)
  moreover have "subs_ok ((subs_at cid s)\<lparr>explicit_demand := False, subscribe_all := True,
      has_custom := False, subs_tags := {}\<rparr>)"
    using subs_at_ok [OF ok, of cid] by (simp add: subs_ok_def)
  ultimately show ?thesis using ok by (simp add: on_connection_def put_subs_ok)
qed

lemma collect_spec:
  assumes "om_ok cl" "om_ok subs" "collect ready msg subs cl = (targets, kept, subs')"
  shows "kept = om_keep (\<lambda>cid h. \<not> dead ready h) cl \<and>
    subs' = filter (\<lambda>e. \<not> (\<exists>h. (fst e, h) \<in> set cl \<and> dead ready h)) subs \<and>
    targets = filter (\<lambda>(cid, h). \<not> dead ready h \<and>
      \<not> (message_type msg = ''tag_update'' \<and> (case om_get subs cid of None \<Rightarrow> False | Some c \<Rightarrow> skips msg c))) cl"
  using assms
proof (induction cl arbitrary: subs targets kept subs')
  case Nil
  then show ?case by (simp add: om_keep_def)
next
  case (Cons e cl)
  obtain cid h where e: "e = (cid, h)" by (cases e)
  have okc: "om_ok cl" and fresh: "cid \<notin> fst ` set cl"
    using Cons.prems(1) by (auto simp: om_ok_def e)
  show ?case
  proof (cases "dead ready h")
    case True
    have other: "om_get (om_del cid subs) i = om_get subs i" if "(i, g) \<in> set cl" for i g
      using that fresh by (force simp: om_get_del)
    from True Cons.prems(3) have "collect ready msg (om_del cid subs) cl = (targets, kept, subs')"
      by (simp add: e)
    from Cons.IH [OF okc om.ok_del [OF Cons.prems(2)] this] True show ?thesis
      using other by (auto simp: e om_keep_def om_del_def intro!: filter_cong)
  next
    case False
    obtain t1 k1 s1 where r: "collect ready msg subs cl = (t1, k1, s1)" by (cases "collect ready msg subs cl")
    from Cons.IH [OF okc Cons.prems(2) r] False Cons.prems(3) r show ?thesis
      by (auto simp: e om_keep_def split: if_splits intro!: filter_cong)
  qed
qed

lemma ws_targets_ok: "ws_ok s \<Longrightarrow> ws_ok (snd (ws_targets ready msg s))"
proof (cases "ws_enabled s \<and> ws_server s")
  case True
  assume ok: "ws_ok s"
  obtain targets kept subs' where c: "collect ready msg (ws_subs s) (ws_clients s) = (targets, kept, subs')"
    by (cases "collect ready msg (ws_subs s) (ws_clients s)")
  from ok have k: "om_ok (ws_clients s)" "om_ok (ws_subs s)" by (simp_all add: ws_ok_def)
  from collect_spec [OF k c]
  have kept: "kept = om_keep (\<lambda>cid h. \<not> dead ready h) (ws_clients s)"
    and subs': "subs' = om_keep (\<lambda>cid c. \<not> (\<exists>h. (cid, h) \<in> set (ws_clients s) \<and> dead ready h)) (ws_subs s)"
    by (simp_all add: om_keep_def)
  show ?thesis
    using True ok by (auto simp: ws_targets_def c ws_ok_def kept subs' om.ok_keep om.get_keep)
qed (auto simp: ws_targets_def)

lemma ws_forget_failed_ok: "ws_ok s \<Longrightarrow> ws_ok (ws_forget_failed failed s)"
  by (induction failed arbitrary: s) (simp_all add: ws_forget_failed_def ws_forget_ok)

section \<open>Every history of the server\<close>

datatype ws_op =
    WsInit bool
  | WsConnect string sock bool
  | WsMessage string "json option"
  | WsClosed string
  | WsTargets "sock \<Rightarrow> ready_state option" json
  | WsForgetFailed "string list"
  | WsShutdown

fun ws_step :: "ws_state \<Rightarrow> ws_op \<Rightarrow> ws_state" where
  "ws_step s (WsInit ok) = snd (ws_init ok s)"
| "ws_step s (WsConnect c h alive) = on_connection c h alive s"
| "ws_step s (WsMessage c m) = on_message c m s"
| "ws_step s (WsClosed c) = ws_forget_client c s"
| "ws_step s (WsTargets ready msg) = snd (ws_targets ready msg s)"
| "ws_step s (WsForgetFailed ids) = ws_forget_failed ids s"
| "ws_step s WsShutdown = ws_shutdown s"

definition ws_run :: "ws_op list \<Rightarrow> ws_state" where
  "ws_run ops = foldl ws_step ws_start ops"

lemma ws_step_ok: "ws_ok s \<Longrightarrow> ws_ok (ws_step s x)"
proof (cases x)
  case (WsInit ok)
  then show "ws_ok s \<Longrightarrow> ?thesis" by (simp add: ws_init_def ws_ok_def)
next
  case WsShutdown
  then show "ws_ok s \<Longrightarrow> ?thesis" by (simp add: ws_shutdown_def ws_ok_def om_ok_def om_get_def)
qed (simp_all add: on_connection_ok on_message_ok ws_forget_ok ws_targets_ok ws_forget_failed_ok)

lemma ws_run_ok: "ws_ok (ws_run ops)"
proof -
  have "ws_ok (foldl ws_step s ops)" if "ws_ok s" for s
    using that by (induction ops arbitrary: s) (simp_all add: ws_step_ok)
  moreover have "ws_ok ws_start" by (simp add: ws_start_def ws_ok_def om_ok_def om_get_def)
  ultimately show ?thesis by (simp add: ws_run_def)
qed

text \<open>
  C32. Delivery. Whatever happened before, a message is addressed to exactly the clients that are
  connected and not dead, except that a tag update is withheld from a client with its own
  subscription list that does not name the tag (or when the update names no tag); and the pass
  drops exactly the dead clients.
\<close>

theorem ws_targets_exact:
  assumes "s = ws_run ops" "ws_is_enabled s"
  shows "case ws_targets ready msg s of (targets, s') \<Rightarrow>
    (\<forall>c h. (c, h) \<in> set targets \<longleftrightarrow>
       om_get (ws_clients s) c = Some h \<and> \<not> dead ready h \<and>
       \<not> (message_type msg = ''tag_update'' \<and>
          (\<exists>sub. om_get (ws_subs s) c = Some sub \<and> \<not> subscribe_all sub \<and>
             (message_key msg = [] \<or> message_key msg \<notin> subs_tags sub)))) \<and>
    om_get (ws_clients s') = keep_entries (\<lambda>c h. \<not> dead ready h) (om_get (ws_clients s))"
proof -
  have ok: "ws_ok s" unfolding assms(1) by (rule ws_run_ok)
  obtain targets kept subs' where c: "collect ready msg (ws_subs s) (ws_clients s) = (targets, kept, subs')"
    by (cases "collect ready msg (ws_subs s) (ws_clients s)")
  from ok have k: "om_ok (ws_clients s)" "om_ok (ws_subs s)" by (simp_all add: ws_ok_def)
  note spec = collect_spec [OF k c]
  have skip: "skips msg sub \<longleftrightarrow> \<not> subscribe_all sub \<and> (message_key msg = [] \<or> message_key msg \<notin> subs_tags sub)"
    if "om_get (ws_subs s) c = Some sub" for c sub
    using ok that by (auto simp: ws_ok_def subs_ok_def skips_def)
  have mem: "(c, h) \<in> set targets \<longleftrightarrow> om_get (ws_clients s) c = Some h \<and> \<not> dead ready h \<and>
      \<not> (message_type msg = ''tag_update'' \<and> (\<exists>sub. om_get (ws_subs s) c = Some sub \<and> skips msg sub))" for c h
    using spec by (auto simp: om_get_in_set [OF k(1)] split: option.splits)
  have t: "ws_targets ready msg s = (targets, s\<lparr>ws_clients := kept, ws_subs := subs'\<rparr>)"
    using assms(2) by (simp add: ws_targets_def ws_is_enabled_def c)
  have kept: "om_get kept = keep_entries (\<lambda>c h. \<not> dead ready h) (om_get (ws_clients s))"
    using spec by (simp add: om.get_keep [OF k(1)])
  show ?thesis
    unfolding t using mem skip kept by (simp add: conj_commute) metis
qed

definition ws_demo :: "ws_op list" where
  "ws_demo = [WsInit True, WsConnect ''1'' 1 True, WsConnect ''2'' 2 True,
     WsMessage ''2'' (Some (JObj [(''type'', JStr ''subscribe''), (''tags'', JArr [JStr ''plc:x''])]))]"

definition ws_demo_update :: json where
  "ws_demo_update = JObj [(''type'', JStr ''tag_update''), (''key'', JStr ''plc:y'')]"

lemma ws_demo_state: "ws_run ws_demo =
  \<lparr>ws_server = True, ws_enabled = True, ws_clients = [(''1'', 1), (''2'', 2)],
   ws_subs = [(''1'', new_subs),
     (''2'', \<lparr>subs_demand = [], explicit_demand = False, subscribe_all = False, has_custom = True,
        subs_tags = {''plc:x''}\<rparr>)]\<rparr>"
  by (simp add: ws_run_def ws_demo_def ws_start_def ws_init_def on_connection_def put_subs_def subs_at_def
      new_subs_def on_message_def subscription_message_def om_get_def)

theorem ws_targets_exact_witness:
  "(''1'', 1) \<in> set (fst (ws_targets (\<lambda>h. Some Open) ws_demo_update (ws_run ws_demo))) \<and>
   (''2'', 2) \<notin> set (fst (ws_targets (\<lambda>h. Some Open) ws_demo_update (ws_run ws_demo)))"
proof -
  have en: "ws_is_enabled (ws_run ws_demo)" by (simp add: ws_demo_state ws_is_enabled_def)
  show ?thesis
    using ws_targets_exact [OF refl en, of "\<lambda>h. Some Open" ws_demo_update]
    by (auto simp: dead_def ws_demo_state om_get_def new_subs_def message_type_def message_key_def
        ws_demo_update_def split: prod.splits)
qed

section \<open>What the demand snapshot counts\<close>

definition subscribed_broadly :: "client_subs \<Rightarrow> bool" where
  "subscribed_broadly c \<longleftrightarrow> \<not> explicit_demand c \<and> (\<not> has_custom c \<or> subscribe_all c)"

definition subscribed_to :: "string \<Rightarrow> client_subs \<Rightarrow> bool" where
  "subscribed_to k c \<longleftrightarrow> \<not> explicit_demand c \<and> has_custom c \<and> \<not> subscribe_all c \<and> k \<in> subs_tags c"

definition count_of :: "(string \<rightharpoonup> nat) \<Rightarrow> string \<Rightarrow> nat" where
  "count_of m k = (case m k of None \<Rightarrow> 0 | Some n \<Rightarrow> n)"

lemma count_of_count_tags: "count_of (count_tags ts m) k = count_of m k + (if k \<in> ts then 1 else 0)"
  by (simp add: count_of_def count_tags_def split: option.splits)

lemma add_client_demand_simps:
  "all_tags_clients (add_client_demand c r) = all_tags_clients r + (if subscribed_broadly c then 1 else 0)"
  "count_of (snap_tags (add_client_demand c r)) k = count_of (snap_tags r) k + (if subscribed_to k c then 1 else 0)"
  "snap_owners (add_client_demand c r) = merge_all (subs_demand c) (snap_owners r)"
  by (auto simp: add_client_demand_def subscribed_broadly_def subscribed_to_def count_of_count_tags Let_def)

lemma snapshot_fold:
  "let r' = foldl (\<lambda>r (cid, subs). if P cid then add_client_demand subs r else r) r xs;
       live = filter (\<lambda>e. P (fst e)) xs in
   all_tags_clients r' = all_tags_clients r + length (filter (\<lambda>e. subscribed_broadly (snd e)) live) \<and>
   count_of (snap_tags r') k = count_of (snap_tags r) k + length (filter (\<lambda>e. subscribed_to k (snd e)) live) \<and>
   (report_wants (snap_owners r') owner tc tn \<longleftrightarrow>
      report_wants (snap_owners r) owner tc tn \<or>
      (\<exists>e \<in> set live. \<exists>sc. (owner, sc) \<in> set (subs_demand (snd e)) \<and> scope_wants sc tc tn))"
proof (induction xs arbitrary: r)
  case (Cons x xs)
  obtain c sub where x: "x = (c, sub)" by (cases x)
  show ?case
    using Cons.IH [of "if P c then add_client_demand sub r else r"]
    by (auto simp: x Let_def add_client_demand_simps merge_all_wants)
qed simp

text \<open>
  Delivery scope is not PLC demand. The snapshot counts, over the clients whose socket is open
  and no others, how many receive everything and how many list a given tag, leaving out every
  client in explicit mode; and an owner's summary wants a tag exactly if an open client registered
  that owner with a scope that does.
\<close>

theorem ws_demand_snapshot_exact:
  assumes "s = ws_run ops"
  shows "let r = ws_demand_snapshot ready s;
      live = filter (\<lambda>e. client_open ready s (fst e)) (ws_subs s) in
    all_tags_clients r = length (filter (\<lambda>e. subscribed_broadly (snd e)) live) \<and>
    count_of (snap_tags r) k = length (filter (\<lambda>e. subscribed_to k (snd e)) live) \<and>
    (report_wants (snap_owners r) owner tc tn \<longleftrightarrow>
      (\<exists>c sub sc. om_get (ws_subs s) c = Some sub \<and> client_open ready s c \<and>
         om_get (subs_demand sub) owner = Some sc \<and> scope_wants sc tc tn))"
proof -
  have ok: "om_ok (ws_subs s)" and dem: "\<And>c sub. om_get (ws_subs s) c = Some sub \<Longrightarrow> om_ok (subs_demand sub)"
    using ws_run_ok [of ops] by (auto simp: assms ws_ok_def subs_ok_def demand_ok_def)
  have start: "all_tags_clients no_demand = 0" "count_of (snap_tags no_demand) k = 0"
    "\<not> report_wants (snap_owners no_demand) owner tc tn"
    by (simp_all add: no_demand_def count_of_def report_wants_def)
  have wants: "(\<exists>e \<in> set (filter (\<lambda>e. client_open ready s (fst e)) (ws_subs s)).
        \<exists>sc. (owner, sc) \<in> set (subs_demand (snd e)) \<and> scope_wants sc tc tn) \<longleftrightarrow>
      (\<exists>c sub sc. om_get (ws_subs s) c = Some sub \<and> client_open ready s c \<and>
         om_get (subs_demand sub) owner = Some sc \<and> scope_wants sc tc tn)"
  proof -
    have "(\<exists>e \<in> set (filter (\<lambda>e. client_open ready s (fst e)) (ws_subs s)).
        \<exists>sc. (owner, sc) \<in> set (subs_demand (snd e)) \<and> scope_wants sc tc tn) \<longleftrightarrow>
      (\<exists>c sub. om_get (ws_subs s) c = Some sub \<and> client_open ready s c \<and>
        (\<exists>sc. (owner, sc) \<in> set (subs_demand sub) \<and> scope_wants sc tc tn))"
      unfolding om_get_in_set [OF ok] by force
    also have "\<dots> \<longleftrightarrow> (\<exists>c sub. om_get (ws_subs s) c = Some sub \<and> client_open ready s c \<and>
        (\<exists>sc. om_get (subs_demand sub) owner = Some sc \<and> scope_wants sc tc tn))"
      using dem om_get_in_set by metis
    finally show ?thesis by blast
  qed
  show ?thesis
    using snapshot_fold [of "client_open ready s" no_demand "ws_subs s" k owner tc tn] start wants
    unfolding ws_demand_snapshot_def Let_def by simp
qed

theorem ws_demand_snapshot_exact_witness:
  "all_tags_clients (ws_demand_snapshot (\<lambda>h. Some Open) (ws_run ws_demo)) = 1 \<and>
   count_of (snap_tags (ws_demand_snapshot (\<lambda>h. Some Open) (ws_run ws_demo))) ''plc:x'' = 1"
  using ws_demand_snapshot_exact [OF refl, of "\<lambda>h. Some Open" ws_demo "''plc:x''"]
  by (simp add: Let_def ws_demo_state client_open_def om_get_def subscribed_broadly_def subscribed_to_def new_subs_def)

text \<open>
  A demand message cannot disturb what it does not replace: it never changes delivery (the
  subscription flags and tags), a message refused by the registration leaves the client's entry as
  it was, and the mode changes only together with an accepted registration that names one.
\<close>

theorem demand_message_isolated:
  assumes "t = ''register_demand'' \<or> t = ''release_demand''"
  shows "let c' = subscription_message t j c in
    subscribe_all c' = subscribe_all c \<and> has_custom c' = has_custom c \<and> subs_tags c' = subs_tags c \<and>
    (\<not> fst (apply_demand j (subs_demand c)) \<longrightarrow> c' = c) \<and>
    (explicit_demand c' \<noteq> explicit_demand c \<longrightarrow>
       t = ''register_demand'' \<and> fst (apply_demand j (subs_demand c)) \<and>
       (jfind j ''demand_mode'' = Some (JStr ''explicit'') \<or> jfind j ''demand_mode'' = Some (JStr ''subscription'')))"
proof -
  have refused: "\<not> fst (apply_demand j (subs_demand c)) \<Longrightarrow> snd (apply_demand j (subs_demand c)) = subs_demand c"
    using apply_demand_cases [of j "subs_demand c"] by (elim disjE exE conjE) simp_all
  have m: "subscription_message t j c = demand_message t j c"
    using assms by (simp add: subscription_message_def)
  show ?thesis
    unfolding m Let_def demand_message_def
    using refused by (auto split: prod.splits if_splits)
qed

theorem demand_message_isolated_witness:
  "subscription_message ''register_demand''
     (JObj [(''type'', JStr ''register_demand''), (''owner'', JStr []), (''demand_mode'', JStr ''explicit'')]) new_subs = new_subs"
proof -
  let ?j = "JObj [(''type'', JStr ''register_demand''), (''owner'', JStr []), (''demand_mode'', JStr ''explicit'')]"
  have "\<not> fst (apply_demand ?j (subs_demand new_subs))" by (simp add: apply_demand_def)
  then show ?thesis
    using demand_message_isolated [of "''register_demand''" ?j new_subs] by (simp add: Let_def)
qed

end
