(* ===== verification/TagDemand.thy ===== *)
theory TagDemand
  imports OrderedMap Doubles Leases
begin

text \<open>
  \<open>TagDemandObservations\<close> (tag\_demand.h): which OPC UA nodes are read or monitored. Reads leave a
  trace for 30 seconds; monitored items are registered per subscription and item id. A snapshot
  drops the expired traces and adds the items to a copy of the rest.
\<close>

section \<open>State and operations\<close>

record td_entry =
  monitored_items :: nat
  active_monitored_items :: nat
  inherited_sampling_items :: nat
  min_sampling_interval_ms :: dbl
  http_until :: time
  ua_read_until :: time
  ua_fresh_until :: time

definition new_td_entry :: td_entry where
  "new_td_entry = \<lparr>monitored_items = 0, active_monitored_items = 0, inherited_sampling_items = 0,
     min_sampling_interval_ms = DFin (-1), http_until = no_time, ua_read_until = no_time,
     ua_fresh_until = no_time\<rparr>"

record td_item =
  item_node :: string
  item_mode :: u32
  item_interval :: dbl

type_synonym td_entries = "(string, td_entry) omap"

record tag_demand =
  td_entries :: td_entries
  td_items :: "(u32 \<times> u32, td_item) omap"

definition new_tag_demand :: tag_demand where
  "new_tag_demand = \<lparr>td_entries = [], td_items = []\<rparr>"

definition td_monitored ::
    "string \<Rightarrow> u32 \<Rightarrow> u32 \<Rightarrow> u32 \<Rightarrow> dbl \<Rightarrow> bool \<Rightarrow> tag_demand \<Rightarrow> tag_demand" where
  "td_monitored node subscription item mode interval removed d =
     (if removed then d\<lparr>td_items := om_del (subscription, item) (td_items d)\<rparr>
      else d\<lparr>td_items := om_put (subscription, item)
               \<lparr>item_node = node, item_mode = mode, item_interval = interval\<rparr> (td_items d)\<rparr>)"

definition td_at :: "string \<Rightarrow> td_entries \<Rightarrow> td_entry" where
  "td_at node es = (case om_get es node of None \<Rightarrow> new_td_entry | Some e \<Rightarrow> e)"

definition td_http_read :: "string \<Rightarrow> time \<Rightarrow> tag_demand \<Rightarrow> tag_demand" where
  "td_http_read node now d =
     d\<lparr>td_entries := om_put node ((td_at node (td_entries d))\<lparr>http_until := now + seconds 30\<rparr>) (td_entries d)\<rparr>"

definition td_ua_read :: "string \<Rightarrow> bool \<Rightarrow> time \<Rightarrow> tag_demand \<Rightarrow> tag_demand" where
  "td_ua_read node fresh now d =
     (let e = (td_at node (td_entries d))\<lparr>ua_read_until := now + seconds 30\<rparr>;
          e' = (if fresh then e\<lparr>ua_fresh_until := now + seconds 30\<rparr> else e)
      in d\<lparr>td_entries := om_put node e' (td_entries d)\<rparr>)"

definition observe_item :: "td_item \<Rightarrow> td_entry \<Rightarrow> td_entry" where
  "observe_item it e0 =
     (let e1 = e0\<lparr>monitored_items := monitored_items e0 + 1\<rparr> in
      if item_mode it = 0 then e1
      else
        let e2 = e1\<lparr>active_monitored_items := active_monitored_items e1 + 1\<rparr>;
            interval = item_interval it
        in if dlt interval (DFin 0)
           then e2\<lparr>inherited_sampling_items := inherited_sampling_items e2 + 1\<rparr>
           else if dlt (min_sampling_interval_ms e2) (DFin 0) \<or> dlt interval (min_sampling_interval_ms e2)
           then e2\<lparr>min_sampling_interval_ms := interval\<rparr>
           else e2)"

definition td_expired :: "time \<Rightarrow> td_entry \<Rightarrow> bool" where
  "td_expired now e \<longleftrightarrow> http_until e \<le> now \<and> ua_read_until e \<le> now"

definition td_add_items :: "(u32 \<times> u32, td_item) omap \<Rightarrow> td_entries \<Rightarrow> td_entries" where
  "td_add_items items es =
     foldl (\<lambda>r (key, it). om_put (item_node it) (observe_item it (td_at (item_node it) r)) r) es items"

definition td_snapshot :: "time \<Rightarrow> tag_demand \<Rightarrow> td_entries \<times> tag_demand" where
  "td_snapshot now d =
     (let kept = om_keep (\<lambda>node e. \<not> td_expired now e) (td_entries d)
      in (td_add_items (td_items d) kept, d\<lparr>td_entries := kept\<rparr>))"

definition td_clear_monitored :: "tag_demand \<Rightarrow> tag_demand" where
  "td_clear_monitored d = d\<lparr>td_items := []\<rparr>"

text \<open>The recent-read traces are a store of leases too.\<close>

definition read_until :: "td_entry \<Rightarrow> time" where
  "read_until e = max (http_until e) (ua_read_until e)"

lemma td_expired_iff: "td_expired now e \<longleftrightarrow> \<not> now < read_until e"
  by (auto simp: td_expired_def read_until_def)

interpretation trace: lease_store om_get om_put om_del om_keep "[]" "om_ok :: td_entries \<Rightarrow> bool" read_until
  by unfold_locales

section \<open>What a snapshot says\<close>

definition items_of :: "string \<Rightarrow> (u32 \<times> u32, td_item) omap \<Rightarrow> td_item list" where
  "items_of node items = filter (\<lambda>it. item_node it = node) (map snd items)"

lemma td_add_items_get:
  assumes "om_ok es"
  shows "om_ok (td_add_items items es) \<and>
    om_get (td_add_items items es) node =
      (if items_of node items = [] then om_get es node
       else Some (foldl (\<lambda>e it. observe_item it e) (td_at node es) (items_of node items)))"
  using assms
proof (induction items arbitrary: es)
  case Nil
  then show ?case by (simp add: td_add_items_def items_of_def)
next
  case (Cons x items)
  obtain k it where x: "x = (k, it)" by (cases x)
  let ?es = "om_put (item_node it) (observe_item it (td_at (item_node it) es)) es"
  have ok: "om_ok ?es" using Cons.prems by (rule om.ok_put)
  have get: "om_get ?es = (om_get es)(item_node it \<mapsto> observe_item it (td_at (item_node it) es))"
    using Cons.prems by (rule om.get_put)
  have unf: "td_add_items (x # items) es = td_add_items items ?es" by (simp add: td_add_items_def x)
  show ?case
    unfolding unf using Cons.IH [OF ok] get
    by (auto simp: items_of_def x td_at_def)
qed

definition sampled_intervals :: "td_item list \<Rightarrow> rat set" where
  "sampled_intervals its = {q. 0 \<le> q \<and> (\<exists>it \<in> set its. item_mode it \<noteq> 0 \<and> item_interval it = DFin q)}"

lemma sampled_Cons:
  "sampled_intervals (it # its) =
     (case item_interval it of DFin q \<Rightarrow> if item_mode it \<noteq> 0 \<and> 0 \<le> q then {q} else {} | _ \<Rightarrow> {}) \<union>
     sampled_intervals its"
  by (auto simp: sampled_intervals_def split: dbl.splits)

lemma sampled_finite [simp]: "finite (sampled_intervals its)"
  by (induction its) (auto simp: sampled_Cons split: dbl.splits, simp add: sampled_intervals_def)

lemma observe_items_counts:
  "let e' = foldl (\<lambda>e it. observe_item it e) e its in
   monitored_items e' = monitored_items e + length its \<and>
   active_monitored_items e' = active_monitored_items e + length (filter (\<lambda>it. item_mode it \<noteq> 0) its) \<and>
   inherited_sampling_items e' = inherited_sampling_items e +
     length (filter (\<lambda>it. item_mode it \<noteq> 0 \<and> dlt (item_interval it) (DFin 0)) its) \<and>
   http_until e' = http_until e \<and> ua_read_until e' = ua_read_until e \<and> ua_fresh_until e' = ua_fresh_until e"
proof (induction its arbitrary: e)
  case (Cons it its)
  show ?case using Cons.IH [of "observe_item it e"] by (simp add: Let_def observe_item_def)
qed simp

definition min_seen :: "dbl \<Rightarrow> rat set \<Rightarrow> bool" where
  "min_seen m S \<longleftrightarrow> m = (if S = {} then DFin (-1) else DFin (Min S))"

lemma observe_items_min:
  assumes "\<forall>it \<in> set its. is_finite (item_interval it)"
    and "finite S" "\<forall>q \<in> S. 0 \<le> q" "min_seen (min_sampling_interval_ms e) S"
  shows "min_seen (min_sampling_interval_ms (foldl (\<lambda>e it. observe_item it e) e its))
    (S \<union> sampled_intervals its)"
  using assms
proof (induction its arbitrary: e S)
  case Nil
  then show ?case by (simp add: sampled_intervals_def)
next
  case (Cons it its)
  obtain q where q: "item_interval it = DFin q"
    using Cons.prems(1) by (cases "item_interval it") (auto simp: is_finite_def)
  let ?S = "S \<union> (if item_mode it \<noteq> 0 \<and> 0 \<le> q then {q} else {})"
  have step: "min_seen (min_sampling_interval_ms (observe_item it e)) ?S"
  proof (cases "S = {}")
    case True
    then show ?thesis using Cons.prems(4) by (auto simp: observe_item_def Let_def min_seen_def q)
  next
    case False
    define m where "m = Min S"
    have m: "0 \<le> m" using Cons.prems(2,3) False by (simp add: m_def)
    have ins: "Min (insert q S) = min q m" using Cons.prems(2) False by (simp add: m_def)
    have e: "min_sampling_interval_ms e = DFin m" using Cons.prems(4) False by (simp add: min_seen_def m_def)
    have "min_sampling_interval_ms (observe_item it e) =
        (if item_mode it \<noteq> 0 \<and> 0 \<le> q then DFin (min q m) else DFin m)"
      using m by (auto simp: observe_item_def Let_def q e min_def)
    then show ?thesis using False ins by (simp add: min_seen_def m_def del: Min_insert)
  qed
  have "min_seen (min_sampling_interval_ms (foldl (\<lambda>e it. observe_item it e) (observe_item it e) its))
      (?S \<union> sampled_intervals its)"
    using Cons.prems step by (intro Cons.IH) auto
  then show ?case by (simp add: sampled_Cons q Un_assoc)
qed

section \<open>Every history\<close>

datatype td_op =
    TMonitored string u32 u32 u32 dbl bool
  | THttp string time
  | TUa string bool time
  | TSnapshot time
  | TClear

fun td_step :: "tag_demand \<Rightarrow> td_op \<Rightarrow> tag_demand" where
  "td_step d (TMonitored n s i m iv r) = td_monitored n s i m iv r d"
| "td_step d (THttp n t) = td_http_read n t d"
| "td_step d (TUa n f t) = td_ua_read n f t d"
| "td_step d (TSnapshot t) = snd (td_snapshot t d)"
| "td_step d TClear = td_clear_monitored d"

definition td_run :: "td_op list \<Rightarrow> tag_demand" where
  "td_run ops = foldl td_step new_tag_demand ops"

text \<open>Entries hold only traces; the counters are those of a new entry.\<close>

definition bare :: "td_entry \<Rightarrow> bool" where
  "bare e \<longleftrightarrow> monitored_items e = 0 \<and> active_monitored_items e = 0 \<and> inherited_sampling_items e = 0 \<and>
     min_sampling_interval_ms e = DFin (-1)"

definition td_ok :: "tag_demand \<Rightarrow> bool" where
  "td_ok d \<longleftrightarrow> om_ok (td_entries d) \<and> om_ok (td_items d) \<and>
     (\<forall>n e. om_get (td_entries d) n = Some e \<longrightarrow> bare e)"

lemma td_at_bare: "td_ok d \<Longrightarrow> bare (td_at n (td_entries d))"
  by (auto simp: td_ok_def td_at_def bare_def new_td_entry_def split: option.splits)

lemma td_put_ok: "td_ok d \<Longrightarrow> bare e \<Longrightarrow> td_ok (d\<lparr>td_entries := om_put n e (td_entries d)\<rparr>)"
  by (auto simp: td_ok_def om.ok_put om.get_put)

lemma td_step_ok: "td_ok d \<Longrightarrow> td_ok (td_step d x)"
proof (cases x)
  case (THttp n t)
  assume ok: "td_ok d"
  have "bare ((td_at n (td_entries d))\<lparr>http_until := t + seconds 30\<rparr>)"
    using td_at_bare [OF ok, of n] by (simp add: bare_def)
  then show ?thesis using ok THttp by (simp add: td_http_read_def td_put_ok)
next
  case (TUa n f t)
  assume ok: "td_ok d"
  have "bare ((td_at n (td_entries d))\<lparr>ua_read_until := t + seconds 30\<rparr>)"
    "bare ((td_at n (td_entries d))\<lparr>ua_read_until := t + seconds 30, ua_fresh_until := t + seconds 30\<rparr>)"
    using td_at_bare [OF ok, of n] by (simp_all add: bare_def)
  then show ?thesis using ok TUa by (simp add: td_ua_read_def Let_def td_put_ok)
qed (auto simp: td_ok_def td_monitored_def td_snapshot_def td_clear_monitored_def Let_def om.ok_put om.ok_del
      om.ok_keep om.get_keep om.ok_empty)

lemma td_run_ok: "td_ok (td_run ops)"
proof -
  have "td_ok (foldl td_step d ops)" if "td_ok d" for d
    using that by (induction ops arbitrary: d) (simp_all add: td_step_ok)
  moreover have "td_ok new_tag_demand" by (simp add: td_ok_def new_tag_demand_def om.ok_empty om.get_empty)
  ultimately show ?thesis by (simp add: td_run_def)
qed

text \<open>
  Every snapshot is exact. After any history, a node is listed exactly if it was read less than
  30 seconds ago or has a monitored item; its counters are the numbers of its items, of its
  sampling or reporting ones and of those that inherit the publishing interval, and its sampling
  interval is the least one any active item asks for (-1 if none does).
\<close>

theorem tag_demand_snapshot_exact:
  assumes "d = td_run ops" and "\<forall>it \<in> set (items_of node (td_items d)). is_finite (item_interval it)"
  shows "let its = items_of node (td_items d); act = filter (\<lambda>it. item_mode it \<noteq> 0) its in
    case om_get (fst (td_snapshot now d)) node of
      None \<Rightarrow> its = [] \<and> (\<forall>e. om_get (td_entries d) node = Some e \<longrightarrow> read_until e \<le> now)
    | Some e' \<Rightarrow>
        (its \<noteq> [] \<or> (\<exists>e. om_get (td_entries d) node = Some e \<and> now < read_until e)) \<and>
        monitored_items e' = length its \<and> active_monitored_items e' = length act \<and>
        inherited_sampling_items e' = length (filter (\<lambda>it. dlt (item_interval it) (DFin 0)) act) \<and>
        min_seen (min_sampling_interval_ms e') (sampled_intervals its)"
proof -
  have ok: "td_ok d" unfolding assms(1) by (rule td_run_ok)
  define kept where "kept = om_keep (\<lambda>node e. \<not> td_expired now e) (td_entries d)"
  define its where "its = items_of node (td_items d)"
  have okk: "om_ok kept" using ok by (simp add: kept_def td_ok_def om.ok_keep)
  have getk: "om_get kept node = Some e \<longleftrightarrow> om_get (td_entries d) node = Some e \<and> now < read_until e" for e
    using ok by (simp add: kept_def td_ok_def om.get_keep td_expired_iff)
  have bare: "bare (td_at node kept)"
    using ok getk by (auto simp: td_at_def td_ok_def bare_def new_td_entry_def split: option.splits)
  let ?e = "foldl (\<lambda>e it. observe_item it e) (td_at node kept) its"
  have counts: "monitored_items ?e = length its"
    "active_monitored_items ?e = length (filter (\<lambda>it. item_mode it \<noteq> 0) its)"
    "inherited_sampling_items ?e =
       length (filter (\<lambda>it. dlt (item_interval it) (DFin 0)) (filter (\<lambda>it. item_mode it \<noteq> 0) its))"
    using observe_items_counts [of "td_at node kept" its] bare by (simp_all add: Let_def bare_def conj_commute)
  have mins: "min_seen (min_sampling_interval_ms ?e) (sampled_intervals its)"
    using observe_items_min [of its "{}" "td_at node kept"] assms(2) bare
    by (simp add: its_def bare_def min_seen_def)
  have snap: "om_get (fst (td_snapshot now d)) node = (if its = [] then om_get kept node else Some ?e)"
    using td_add_items_get [OF okk, of "td_items d" node]
    by (simp add: td_snapshot_def kept_def [symmetric] its_def Let_def)
  have same: "its = [] \<Longrightarrow> om_get kept node = Some e \<Longrightarrow> e = ?e" for e by (simp add: td_at_def)
  show ?thesis
    unfolding its_def [symmetric] Let_def snap
    using counts mins same getk
    by (cases "its = []"; cases "om_get kept node") (auto simp: not_less [symmetric])
qed

theorem tag_demand_snapshot_exact_witness:
  "let d = td_run [TMonitored ''n'' 1 1 2 (DFin 500) False, TMonitored ''n'' 1 2 2 (DFin 250) False] in
   (\<exists>e. om_get (fst (td_snapshot 0 d)) ''n'' = Some e \<and> monitored_items e = 2 \<and>
     min_seen (min_sampling_interval_ms e) {500, 250})"
proof -
  let ?d = "td_run [TMonitored ''n'' 1 1 2 (DFin 500) False, TMonitored ''n'' 1 2 2 (DFin 250) False]"
  have its: "items_of ''n'' (td_items ?d) =
    [\<lparr>item_node = ''n'', item_mode = 2, item_interval = DFin 500\<rparr>,
     \<lparr>item_node = ''n'', item_mode = 2, item_interval = DFin 250\<rparr>]"
    by (simp add: td_run_def td_monitored_def new_tag_demand_def items_of_def)
  have fin: "\<forall>it \<in> set (items_of ''n'' (td_items ?d)). is_finite (item_interval it)" by (simp add: its)
  have S: "sampled_intervals (items_of ''n'' (td_items ?d)) = {500, 250}"
    by (auto simp: its sampled_Cons) (auto simp: sampled_intervals_def)
  from tag_demand_snapshot_exact [OF refl fin, of 0] S [unfolded its] show ?thesis
    by (auto simp: Let_def its split: option.splits)
qed

end
