(* ===== verification/SchedulerPreview.thy ===== *)
theory SchedulerPreview
  imports Json
begin

text \<open>
  \<open>DemandSchedulerPreview\<close> (demand\_scheduler\_preview.h): from the demand report it plans which tags
  the poller may leave out. A plan errs towards polling: a tag is left out only by a recent plan
  that saw no demand for it during the grace periods. The \<open>unordered\_map\<close> of entries, used by
  lookup, insertion and an erase loop, is a map. The three durations are nanoseconds.
\<close>

section \<open>State\<close>

record plan_entry =
  entry_epoch :: u64
  entry_started :: time
  last_demand :: time
  would_poll :: bool

record plan_row =
  row_connection :: string
  row_name :: string
  row_would_poll :: bool
  row_reason :: string
  row_epoch :: u64

record preview =
  startup_grace :: int
  idle_grace :: int
  stale_after :: int
  entries :: "string \<rightharpoonup> plan_entry"
  rows :: "plan_row list"
  updated :: time
  initialized :: bool

definition new_preview :: "int \<Rightarrow> int \<Rightarrow> int \<Rightarrow> preview" where
  "new_preview startup idle stale = \<lparr>startup_grace = startup, idle_grace = idle, stale_after = stale,
     entries = Map.empty, rows = [], updated = no_time, initialized = False\<rparr>"

definition default_preview :: preview where
  "default_preview = new_preview (millis 30000) (millis 10000) (millis 2500)"

definition plan_key :: "string \<Rightarrow> string \<Rightarrow> string" where
  "plan_key cid name = cid @ CHR 0x1F # name"

section \<open>refresh\<close>

text \<open>One element of the report's \<open>tags\<close>, as the loop reads it; \<open>None\<close> is skipped.\<close>

record demand_tag =
  dt_connection :: string
  dt_name :: string
  dt_epoch :: u64
  dt_observed :: bool
  dt_driver :: string

text \<open>
  The accessors throw in the order the code calls them. The key is recorded and the entry created
  before \<open>observed\_demand\<close> and \<open>driver\<close> are read; those reads therefore come in a second stage.
\<close>

definition read_demand_key :: "json \<Rightarrow> json_error + (string \<times> string \<times> u64) option" where
  "read_demand_key tag =
     rbind (jvalue get_bool tag ''poll_work'' False) (\<lambda>work.
       if \<not> work then Inr None
       else rbind (jvalue get_bool tag ''enabled'' False) (\<lambda>enabled.
         if \<not> enabled then Inr None
         else rbind (rbind (jat tag ''connection_id'') get_string) (\<lambda>cid.
           rbind (rbind (jat tag ''name'') get_string) (\<lambda>name.
             rbind (rbind (jat tag ''driver_epoch'') get_u64) (\<lambda>epoch.
               Inr (Some (cid, name, epoch)))))))"

definition touch_entry :: "string \<Rightarrow> u64 \<Rightarrow> time \<Rightarrow> preview \<Rightarrow> plan_entry \<times> preview" where
  "touch_entry key epoch now p =
     (let fresh = \<lparr>entry_epoch = epoch, entry_started = now, last_demand = now, would_poll = True\<rparr> in
      case entries p key of
        None \<Rightarrow> (fresh, p\<lparr>entries := (entries p)(key \<mapsto> fresh)\<rparr>)
      | Some e \<Rightarrow>
          if entry_epoch e \<noteq> epoch then (fresh, p\<lparr>entries := (entries p)(key \<mapsto> fresh)\<rparr>)
          else (e, p))"

definition plan_decision :: "preview \<Rightarrow> time \<Rightarrow> bool \<Rightarrow> string \<Rightarrow> plan_entry \<Rightarrow> bool \<times> string" where
  "plan_decision p now observed driver e =
     (if driver \<noteq> ''ab_eip'' then (True, ''unsupported_driver'')
      else if observed then (True, if would_poll e then ''observed_demand'' else ''wake_requested'')
      else if now - entry_started e < startup_grace p then (True, ''startup_grace'')
      else if now - last_demand e < idle_grace p then (True, ''idle_grace'')
      else (False, ''no_observed_demand''))"

definition plan_tag :: "demand_tag \<Rightarrow> time \<Rightarrow> preview \<Rightarrow> preview" where
  "plan_tag t now p =
     (let key = plan_key (dt_connection t) (dt_name t) in
      case touch_entry key (dt_epoch t) now p of (e0, p1) \<Rightarrow>
        let e1 = (if dt_observed t then e0\<lparr>last_demand := now\<rparr> else e0) in
        case plan_decision p now (dt_observed t) (dt_driver t) e1 of (poll, reason) \<Rightarrow>
          p1\<lparr>entries := (entries p1)(key \<mapsto> e1\<lparr>would_poll := poll\<rparr>),
             rows := rows p1 @ [\<lparr>row_connection = dt_connection t, row_name = dt_name t,
                row_would_poll = poll, row_reason = reason, row_epoch = dt_epoch t\<rparr>]\<rparr>)"

fun plan_tags :: "json list \<Rightarrow> time \<Rightarrow> string set \<Rightarrow> preview \<Rightarrow> json_error option \<times> string set \<times> preview" where
  "plan_tags [] now seen p = (None, seen, p)"
| "plan_tags (tag # rest) now seen p =
     (case read_demand_key tag of
        Inl err \<Rightarrow> (Some err, seen, p)
      | Inr None \<Rightarrow> plan_tags rest now seen p
      | Inr (Some (cid, name, epoch)) \<Rightarrow>
          let seen' = insert (plan_key cid name) seen in
          (case jvalue get_bool tag ''observed_demand'' False of
             Inl err \<Rightarrow> (Some err, seen', snd (touch_entry (plan_key cid name) epoch now p))
           | Inr observed \<Rightarrow>
               (case jvalue get_string tag ''driver'' [] of
                  Inl err \<Rightarrow>
                    (case touch_entry (plan_key cid name) epoch now p of (e, p1) \<Rightarrow>
                      (Some err, seen', p1\<lparr>entries := (entries p1)(plan_key cid name \<mapsto>
                         (if observed then e\<lparr>last_demand := now\<rparr> else e))\<rparr>))
                | Inr driver \<Rightarrow>
                    plan_tags rest now seen'
                      (plan_tag \<lparr>dt_connection = cid, dt_name = name, dt_epoch = epoch,
                         dt_observed = observed, dt_driver = driver\<rparr> now p))))"

text \<open>What a range-based \<open>for\<close> over a JSON value visits.\<close>

fun json_elements :: "json \<Rightarrow> json list" where
  "json_elements (JArr xs) = xs"
| "json_elements (JObj kvs) = map snd kvs"
| "json_elements JNull = []"
| "json_elements j = [j]"

definition refresh :: "json \<Rightarrow> time \<Rightarrow> preview \<Rightarrow> json_error option \<times> preview" where
  "refresh demand now p =
     (let p0 = p\<lparr>rows := []\<rparr> in
      case jat demand ''tags'' of
        Inl err \<Rightarrow> (Some err, p0)
      | Inr tags \<Rightarrow>
          (case plan_tags (json_elements tags) now {} p0 of
             (Some err, seen, p1) \<Rightarrow> (Some err, p1)
           | (None, seen, p1) \<Rightarrow>
               (None, p1\<lparr>entries := keep_entries (\<lambda>k e. k \<in> seen) (entries p1),
                         updated := now, initialized := True\<rparr>)))"

definition plan_stale :: "time \<Rightarrow> preview \<Rightarrow> bool" where
  "plan_stale now p \<longleftrightarrow> \<not> initialized p \<or> now < updated p \<or> stale_after p < now - updated p"

definition should_poll :: "string \<Rightarrow> string \<Rightarrow> u64 \<Rightarrow> time \<Rightarrow> preview \<Rightarrow> bool" where
  "should_poll cid name epoch now p =
     (if plan_stale now p then True
      else case entries p (plan_key cid name) of
        None \<Rightarrow> True
      | Some e \<Rightarrow> entry_epoch e \<noteq> epoch \<or> would_poll e)"

section \<open>snapshot\<close>

record plan_summary =
  sum_poll_work :: nat
  sum_would_poll :: nat
  sum_would_idle :: nat

record plan_report =
  report_stale :: bool
  report_connections :: "string \<rightharpoonup> plan_summary"
  report_tags :: "plan_row list"

definition stale_row :: "plan_row \<Rightarrow> plan_row" where
  "stale_row r = r\<lparr>row_would_poll := True, row_reason := ''stale_demand_snapshot''\<rparr>"

definition count_row :: "plan_row \<Rightarrow> (string \<rightharpoonup> plan_summary) \<Rightarrow> (string \<rightharpoonup> plan_summary)" where
  "count_row r m =
     (let s0 = (case m (row_connection r) of None \<Rightarrow> \<lparr>sum_poll_work = 0, sum_would_poll = 0, sum_would_idle = 0\<rparr>
                | Some s \<Rightarrow> s);
          s1 = s0\<lparr>sum_poll_work := sum_poll_work s0 + 1\<rparr>;
          s2 = (if row_would_poll r then s1\<lparr>sum_would_poll := sum_would_poll s1 + 1\<rparr>
                else s1\<lparr>sum_would_idle := sum_would_idle s1 + 1\<rparr>)
      in m(row_connection r \<mapsto> s2))"

definition plan_snapshot :: "string \<Rightarrow> bool \<Rightarrow> time \<Rightarrow> preview \<Rightarrow> plan_report" where
  "plan_snapshot wanted includeTags now p =
     (let stale = plan_stale now p;
          shown = filter (\<lambda>r. wanted = [] \<or> row_connection r = wanted) (rows p);
          shown' = (if stale then map stale_row shown else shown)
      in \<lparr>report_stale = stale, report_connections = foldl (\<lambda>m r. count_row r m) Map.empty shown',
          report_tags = (if includeTags then shown' else [])\<rparr>)"

section \<open>What a demand report says of one tag\<close>

definition demand_tags :: "json \<Rightarrow> json list" where
  "demand_tags demand = (case jat demand ''tags'' of Inl e \<Rightarrow> [] | Inr tags \<Rightarrow> json_elements tags)"

definition lists_tag :: "json list \<Rightarrow> string \<Rightarrow> u64 \<Rightarrow> bool" where
  "lists_tag tags key epoch \<longleftrightarrow> (\<exists>tag \<in> set tags. \<exists>cid name.
     read_demand_key tag = Inr (Some (cid, name, epoch)) \<and> plan_key cid name = key)"

definition observes_tag :: "json list \<Rightarrow> string \<Rightarrow> bool" where
  "observes_tag tags key \<longleftrightarrow> (\<exists>tag \<in> set tags. \<exists>cid name epoch.
     read_demand_key tag = Inr (Some (cid, name, epoch)) \<and> plan_key cid name = key \<and>
     jvalue get_bool tag ''observed_demand'' False = Inr True)"

definition polls_ab_eip :: "json list \<Rightarrow> string \<Rightarrow> bool" where
  "polls_ab_eip tags key \<longleftrightarrow> (\<exists>tag \<in> set tags. \<exists>cid name epoch.
     read_demand_key tag = Inr (Some (cid, name, epoch)) \<and> plan_key cid name = key \<and>
     jvalue get_string tag ''driver'' [] = Inr ''ab_eip'')"

text \<open>The graces never change.\<close>

lemma touch_entry_frame [simp]:
  "startup_grace (snd (touch_entry k e now p)) = startup_grace p"
  "idle_grace (snd (touch_entry k e now p)) = idle_grace p"
  "stale_after (snd (touch_entry k e now p)) = stale_after p"
  by (simp_all add: touch_entry_def Let_def split: option.splits)

lemma touch_entry_entries:
  "entries (snd (touch_entry key epoch now p)) = (entries p)(key \<mapsto> fst (touch_entry key epoch now p))"
  by (auto simp: touch_entry_def Let_def split: option.splits)

lemma plan_tag_frame [simp]:
  "startup_grace (plan_tag t now p) = startup_grace p" "idle_grace (plan_tag t now p) = idle_grace p"
  "stale_after (plan_tag t now p) = stale_after p"
  by (cases "touch_entry (plan_key (dt_connection t) (dt_name t)) (dt_epoch t) now p",
      use touch_entry_frame [of "plan_key (dt_connection t) (dt_name t)" "dt_epoch t" now p]
      in \<open>simp_all add: plan_tag_def Let_def split: prod.splits\<close>)+

section \<open>Successful plans and the history behind an entry\<close>

text \<open>
  The history is the reports planned so far with their times. An entry records the last time any
  of them observed demand for its key, every report since the entry was made lists the key with the
  entry's epoch, and an entry marked idle passed all the tests of the last report.
\<close>

type_synonym plan_history = "(json list \<times> time) list"

definition entry_inv ::
    "plan_history \<Rightarrow> time \<Rightarrow> json list \<Rightarrow> string set \<Rightarrow> preview \<Rightarrow> string \<Rightarrow> plan_entry \<Rightarrow> bool" where
  "entry_inv h now done seen p k e \<longleftrightarrow>
     last_demand e \<le> now \<and> entry_started e \<le> now \<and>
     (\<forall>(d, t) \<in> set h. observes_tag d k \<longrightarrow> t \<le> last_demand e) \<and>
     (observes_tag done k \<longrightarrow> last_demand e = now) \<and>
     (\<forall>(d, t) \<in> set h. entry_started e < t \<longrightarrow> lists_tag d k (entry_epoch e)) \<and>
     (k \<in> seen \<longrightarrow> lists_tag done k (entry_epoch e)) \<and>
     (k \<in> seen \<and> \<not> would_poll e \<longrightarrow>
        startup_grace p \<le> now - entry_started e \<and> idle_grace p \<le> now - last_demand e \<and>
        polls_ab_eip done k)"

definition plan_inv :: "plan_history \<Rightarrow> time \<Rightarrow> json list \<Rightarrow> string set \<Rightarrow> preview \<Rightarrow> bool" where
  "plan_inv h now done seen p \<longleftrightarrow>
     (\<forall>(d, t) \<in> set h. t \<le> now) \<and>
     (\<forall>k. k \<in> seen \<longleftrightarrow> (\<exists>e. lists_tag done k e)) \<and>
     (\<forall>k e. entries p k = Some e \<longrightarrow> entry_inv h now done seen p k e)"

lemma observes_append: "observes_tag (xs @ ys) k \<longleftrightarrow> observes_tag xs k \<or> observes_tag ys k"
  by (simp only: observes_tag_def set_append bex_Un)

lemma lists_append: "lists_tag (xs @ ys) k e \<longleftrightarrow> lists_tag xs k e \<or> lists_tag ys k e"
  by (simp only: lists_tag_def set_append bex_Un)

lemma polls_append: "polls_ab_eip (xs @ ys) k \<longleftrightarrow> polls_ab_eip xs k \<or> polls_ab_eip ys k"
  by (simp only: polls_ab_eip_def set_append bex_Un)

lemmas tag_appends = observes_append lists_append polls_append

lemma skipped_tag:
  assumes "read_demand_key tag = Inr None"
  shows "\<not> observes_tag [tag] k" "\<not> lists_tag [tag] k e" "\<not> polls_ab_eip [tag] k"
  using assms by (simp_all add: observes_tag_def lists_tag_def polls_ab_eip_def)

lemma planned_tag:
  assumes "read_demand_key tag = Inr (Some (cid, name, epoch))"
  shows "lists_tag [tag] k e \<longleftrightarrow> k = plan_key cid name \<and> e = epoch"
    and "observes_tag [tag] k \<longleftrightarrow>
      k = plan_key cid name \<and> jvalue get_bool tag ''observed_demand'' False = Inr True"
    and "polls_ab_eip [tag] k \<longleftrightarrow>
      k = plan_key cid name \<and> jvalue get_string tag ''driver'' [] = Inr ''ab_eip''"
  using assms by (auto simp: observes_tag_def lists_tag_def polls_ab_eip_def)

text \<open>The entry of the key itself after one tag, spelled out.\<close>

lemma plan_tag_entries:
  assumes "touch_entry (plan_key (dt_connection t) (dt_name t)) (dt_epoch t) now p = (e0, p1)"
  shows "entries (plan_tag t now p) = (entries p)(plan_key (dt_connection t) (dt_name t) \<mapsto>
    (let e1 = (if dt_observed t then e0\<lparr>last_demand := now\<rparr> else e0)
     in e1\<lparr>would_poll := fst (plan_decision p now (dt_observed t) (dt_driver t) e1)\<rparr>))"
  using assms touch_entry_entries [of "plan_key (dt_connection t) (dt_name t)" "dt_epoch t" now p]
  by (simp add: plan_tag_def Let_def split: prod.splits)

lemma plan_decision_idle:
  "\<not> fst (plan_decision p now observed driver e) \<longleftrightarrow>
     driver = ''ab_eip'' \<and> \<not> observed \<and> startup_grace p \<le> now - entry_started e \<and>
     idle_grace p \<le> now - last_demand e"
  by (auto simp: plan_decision_def)

lemma touch_entry_inv:
  assumes inv: "plan_inv h now done seen p" and te: "touch_entry key epoch now p = (e0, p1)"
  shows "entry_epoch e0 = epoch \<and> last_demand e0 \<le> now \<and> entry_started e0 \<le> now \<and>
    (\<forall>(d, t) \<in> set h. observes_tag d key \<longrightarrow> t \<le> last_demand e0) \<and>
    (observes_tag done key \<longrightarrow> last_demand e0 = now) \<and>
    (\<forall>(d, t) \<in> set h. entry_started e0 < t \<longrightarrow> lists_tag d key epoch)"
proof (cases "\<exists>e. entries p key = Some e \<and> entry_epoch e = epoch")
  case True
  then obtain e where e: "entries p key = Some e" "entry_epoch e = epoch" by blast
  then have "e0 = e" using te by (simp add: touch_entry_def)
  moreover have "entry_inv h now done seen p key e" using inv e(1) by (simp add: plan_inv_def)
  ultimately show ?thesis using e(2) by (simp add: entry_inv_def)
next
  case False
  then have "e0 = \<lparr>entry_epoch = epoch, entry_started = now, last_demand = now, would_poll = True\<rparr>"
    using te by (auto simp: touch_entry_def Let_def split: option.splits if_splits)
  moreover have "\<forall>(d, t) \<in> set h. t \<le> now" using inv by (simp add: plan_inv_def)
  ultimately show ?thesis by (auto simp: not_less [symmetric])
qed

lemma plan_tag_inv:
  assumes inv: "plan_inv h now done seen p"
    and key: "read_demand_key tag = Inr (Some (cid, name, epoch))"
    and obs: "jvalue get_bool tag ''observed_demand'' False = Inr observed"
    and drv: "jvalue get_string tag ''driver'' [] = Inr driver"
  shows "plan_inv h now (done @ [tag]) (insert (plan_key cid name) seen)
    (plan_tag \<lparr>dt_connection = cid, dt_name = name, dt_epoch = epoch, dt_observed = observed,
       dt_driver = driver\<rparr> now p)"
proof -
  let ?k = "plan_key cid name"
  let ?t = "\<lparr>dt_connection = cid, dt_name = name, dt_epoch = epoch, dt_observed = observed, dt_driver = driver\<rparr>"
  obtain e0 p1 where te: "touch_entry ?k epoch now p = (e0, p1)" by (cases "touch_entry ?k epoch now p")
  define e1 where "e1 = (if observed then e0\<lparr>last_demand := now\<rparr> else e0)"
  define e2 where "e2 = e1\<lparr>would_poll := fst (plan_decision p now observed driver e1)\<rparr>"
  have ent: "entries (plan_tag ?t now p) = (entries p)(?k \<mapsto> e2)"
    using plan_tag_entries [of ?t now p e0 p1] te by (simp add: e1_def e2_def Let_def)
  note new = planned_tag [OF key]
  have here: "entry_inv h now (done @ [tag]) (insert ?k seen) (plan_tag ?t now p) ?k e2"
    using touch_entry_inv [OF inv te] obs drv plan_decision_idle [of p now observed driver e1] inv
    by (auto simp: entry_inv_def tag_appends new e1_def e2_def plan_inv_def)
  have other: "entry_inv h now (done @ [tag]) (insert ?k seen) (plan_tag ?t now p) k e"
    if "k \<noteq> ?k" "entries p k = Some e" for k e
    using inv that by (auto simp: plan_inv_def entry_inv_def tag_appends new)
  show ?thesis
    using inv here other by (auto simp: plan_inv_def ent tag_appends new)
qed

lemma plan_tags_inv:
  assumes "plan_inv h now done seen p" "plan_tags tags now seen p = (None, seen', p')"
  shows "plan_inv h now (done @ tags) seen' p' \<and>
    startup_grace p' = startup_grace p \<and> idle_grace p' = idle_grace p \<and> stale_after p' = stale_after p"
  using assms
proof (induction tags arbitrary: "done" seen p)
  case (Cons tag tags)
  show ?case
  proof (cases "read_demand_key tag")
    case (Inr r)
    show ?thesis
    proof (cases r)
      case None
      note sk = skipped_tag [OF Inr [unfolded None]]
      have "plan_inv h now (done @ [tag]) seen p"
        using Cons.prems(1) by (simp add: plan_inv_def entry_inv_def tag_appends sk)
      from Cons.IH [OF this] Cons.prems(2) Inr None show ?thesis by simp
    next
      case (Some c)
      obtain cid name epoch where c: "c = (cid, name, epoch)" by (cases c)
      note key = Inr [unfolded Some c]
      from Cons.prems(2) key obtain observed driver where
        obs: "jvalue get_bool tag ''observed_demand'' False = Inr observed" and
        drv: "jvalue get_string tag ''driver'' [] = Inr driver"
        by (auto simp: Let_def split: sum.splits prod.splits)
      from Cons.IH [OF plan_tag_inv [OF Cons.prems(1) key obs drv]] Cons.prems(2) key obs drv show ?thesis
        by (simp add: Let_def)
    qed
  qed (use Cons.prems(2) in simp)
qed simp

text \<open>After a refresh the last report is part of the history.\<close>

definition history_inv :: "plan_history \<Rightarrow> preview \<Rightarrow> bool" where
  "history_inv h p \<longleftrightarrow>
     (\<forall>k e. entries p k = Some e \<longrightarrow>
        entry_started e \<le> updated p \<and> last_demand e \<le> updated p \<and>
        (\<forall>(d, t) \<in> set h. observes_tag d k \<longrightarrow> t \<le> last_demand e) \<and>
        (\<forall>(d, t) \<in> set h. entry_started e < t \<longrightarrow> lists_tag d k (entry_epoch e)) \<and>
        (\<not> would_poll e \<longrightarrow>
           startup_grace p \<le> updated p - entry_started e \<and> idle_grace p \<le> updated p - last_demand e \<and>
           (\<exists>d. (d, updated p) \<in> set h \<and> polls_ab_eip d k))) \<and>
     (\<forall>(d, t) \<in> set h. t \<le> updated p)"

lemma refresh_history_inv:
  assumes inv: "history_inv h p" and r: "refresh demand now p = (None, p')"
    and mono: "updated p \<le> now"
  shows "history_inv (h @ [(demand_tags demand, now)]) p' \<and> updated p' = now \<and> initialized p' \<and>
    startup_grace p' = startup_grace p \<and> idle_grace p' = idle_grace p \<and> stale_after p' = stale_after p"
proof -
  let ?p0 = "p\<lparr>rows := []\<rparr>"
  from r obtain tags seen p1 where tags: "jat demand ''tags'' = Inr tags"
    and run: "plan_tags (json_elements tags) now {} ?p0 = (None, seen, p1)"
    and p': "p' = p1\<lparr>entries := keep_entries (\<lambda>k e. k \<in> seen) (entries p1), updated := now, initialized := True\<rparr>"
    by (auto simp: refresh_def Let_def split: sum.splits prod.splits option.splits)
  have dt: "demand_tags demand = json_elements tags" by (simp add: demand_tags_def tags)
  have empty: "\<not> observes_tag [] k" "\<not> lists_tag [] k e" for k e
    by (simp_all add: observes_tag_def lists_tag_def)
  have le: "t \<le> now" if "(d, t) \<in> set h" for d t
    using inv mono that by (fastforce simp: history_inv_def)
  have "plan_inv h now [] {} ?p0"
    unfolding plan_inv_def entry_inv_def
    using inv mono le by (fastforce simp: history_inv_def empty)
  from plan_tags_inv [OF this run]
  have pi: "plan_inv h now (json_elements tags) seen p1"
    and fr: "startup_grace p1 = startup_grace p" "idle_grace p1 = idle_grace p" "stale_after p1 = stale_after p"
    by simp_all
  have ent: "entry_inv h now (json_elements tags) seen p1 k e \<and> k \<in> seen" if "entries p' k = Some e" for k e
    using that pi by (simp add: p' plan_inv_def)
  have upd: "updated p' = now" "startup_grace p' = startup_grace p1" "idle_grace p' = idle_grace p1"
    by (simp_all add: p')
  have "history_inv (h @ [(demand_tags demand, now)]) p'"
    unfolding history_inv_def upd dt
  proof (intro conjI allI impI)
    fix k e assume "entries p' k = Some e"
    from ent [OF this] show "entry_started e \<le> now" "last_demand e \<le> now"
      "\<forall>(d, t) \<in> set (h @ [(json_elements tags, now)]). observes_tag d k \<longrightarrow> t \<le> last_demand e"
      "\<forall>(d, t) \<in> set (h @ [(json_elements tags, now)]). entry_started e < t \<longrightarrow> lists_tag d k (entry_epoch e)"
      by (auto simp: entry_inv_def)
  next
    fix k e assume e: "entries p' k = Some e" "\<not> would_poll e"
    from ent [OF e(1)] e(2) show "startup_grace p1 \<le> now - entry_started e"
      "idle_grace p1 \<le> now - last_demand e"
      "\<exists>d. (d, now) \<in> set (h @ [(json_elements tags, now)]) \<and> polls_ab_eip d k"
      by (auto simp: entry_inv_def)
  next
    show "\<forall>(d, t) \<in> set (h @ [(json_elements tags, now)]). t \<le> now" using le by auto
  qed
  then show ?thesis using fr by (simp add: p')
qed

definition plan_run :: "preview \<Rightarrow> (json \<times> time) list \<Rightarrow> preview" where
  "plan_run p reports = foldl (\<lambda>p (d, t). snd (refresh d t p)) p reports"

fun plans_succeed :: "preview \<Rightarrow> (json \<times> time) list \<Rightarrow> bool" where
  "plans_succeed p [] = True"
| "plans_succeed p ((d, t) # rest) = (fst (refresh d t p) = None \<and> plans_succeed (snd (refresh d t p)) rest)"

definition plan_history_of :: "(json \<times> time) list \<Rightarrow> plan_history" where
  "plan_history_of reports = map (\<lambda>(d, t). (demand_tags d, t)) reports"

lemma plan_run_inv:
  assumes "history_inv h p" "plans_succeed p reports" "sorted (map snd reports)"
    "\<forall>(d, t) \<in> set reports. updated p \<le> t"
  shows "let p' = plan_run p reports in history_inv (h @ plan_history_of reports) p' \<and>
    startup_grace p' = startup_grace p \<and> idle_grace p' = idle_grace p \<and> stale_after p' = stale_after p \<and>
    (reports \<noteq> [] \<longrightarrow> updated p' = snd (last reports))"
  using assms
proof (induction reports arbitrary: h p)
  case Nil
  then show ?case by (simp add: plan_run_def plan_history_of_def)
next
  case (Cons x reports)
  obtain d t where x: "x = (d, t)" by (cases x)
  obtain p1 where r: "refresh d t p = (None, p1)"
    using Cons.prems(2) by (cases "refresh d t p") (simp add: x)
  from refresh_history_inv [OF Cons.prems(1) r] Cons.prems(4)
  have step: "history_inv (h @ [(demand_tags d, t)]) p1" "updated p1 = t"
    "startup_grace p1 = startup_grace p" "idle_grace p1 = idle_grace p" "stale_after p1 = stale_after p"
    by (simp_all add: x)
  have "let p' = plan_run p1 reports in history_inv ((h @ [(demand_tags d, t)]) @ plan_history_of reports) p' \<and>
      startup_grace p' = startup_grace p1 \<and> idle_grace p' = idle_grace p1 \<and> stale_after p' = stale_after p1 \<and>
      (reports \<noteq> [] \<longrightarrow> updated p' = snd (last reports))"
    using Cons.prems step r by (intro Cons.IH) (auto simp: x)
  then show ?case
    using step r by (auto simp: x plan_run_def plan_history_of_def Let_def)
qed

text \<open>
  C16. The plan fails open: the poller is told to leave a tag out only if the last of its reports is
  no older than the staleness limit and lists the tag for the Allen-Bradley driver, no report of
  the idle grace period observed demand for it, and every report of the startup grace period
  already listed it under the very driver epoch the poller asks about.
\<close>

theorem idle_only_without_demand:
  assumes "plans_succeed (new_preview startup idle stale) reports"
    and "sorted (map snd reports)" "\<forall>(d, t) \<in> set reports. 0 \<le> t" "reports \<noteq> []"
    and "\<not> should_poll cid name epoch now (plan_run (new_preview startup idle stale) reports)"
  shows "let t = snd (last reports); key = plan_key cid name in
    t \<le> now \<and> now - t \<le> stale \<and>
    (\<exists>(d, u) \<in> set reports. u = t \<and> polls_ab_eip (demand_tags d) key) \<and>
    (\<forall>(d, u) \<in> set reports. (t - u < idle \<longrightarrow> \<not> observes_tag (demand_tags d) key) \<and>
       (t - u < startup \<longrightarrow> lists_tag (demand_tags d) key epoch))"
proof -
  let ?init = "new_preview startup idle stale"
  let ?p = "plan_run ?init reports"
  let ?key = "plan_key cid name"
  have "history_inv [] ?init" "updated ?init = 0" by (simp_all add: history_inv_def new_preview_def)
  have p0: "startup_grace ?init = startup" "idle_grace ?init = idle" "stale_after ?init = stale"
    by (simp_all add: new_preview_def)
  have "\<forall>(d, t) \<in> set reports. updated ?init \<le> t" using assms(3) \<open>updated ?init = 0\<close> by simp
  from plan_run_inv [OF \<open>history_inv [] ?init\<close> assms(1,2) this] assms(4) p0
  have inv: "history_inv (plan_history_of reports) ?p" and upd: "updated ?p = snd (last reports)"
    and gr: "startup_grace ?p = startup" "idle_grace ?p = idle" "stale_after ?p = stale"
    by (simp_all add: Let_def)
  from assms(5) obtain e where e: "entries ?p ?key = Some e" "entry_epoch e = epoch" "\<not> would_poll e"
    and st: "\<not> plan_stale now ?p"
    by (auto simp: should_poll_def split: if_splits option.splits)
  have ent: "\<forall>(d, t) \<in> set reports. observes_tag (demand_tags d) ?key \<longrightarrow> t \<le> last_demand e"
    "\<forall>(d, t) \<in> set reports. entry_started e < t \<longrightarrow> lists_tag (demand_tags d) ?key epoch"
    "startup \<le> updated ?p - entry_started e" "idle \<le> updated ?p - last_demand e"
    "\<exists>(d, t) \<in> set reports. t = updated ?p \<and> polls_ab_eip (demand_tags d) ?key"
    using inv e gr by (fastforce simp: history_inv_def plan_history_of_def)+
  show ?thesis
    using st ent gr upd by (force simp: Let_def plan_stale_def)
qed

definition demo_report :: "bool \<Rightarrow> json" where
  "demo_report observed = JObj [(''tags'', JArr [JObj [(''poll_work'', JBool True), (''enabled'', JBool True),
     (''connection_id'', JStr ''plc''), (''name'', JStr ''x''), (''driver_epoch'', JInt 3),
     (''driver'', JStr ''ab_eip''), (''observed_demand'', JBool observed)]])]"

lemma demo_refresh:
  "refresh (demo_report ob) now p =
     (None, (plan_tag \<lparr>dt_connection = ''plc'', dt_name = ''x'', dt_epoch = 3, dt_observed = ob,
        dt_driver = ''ab_eip''\<rparr> now (p\<lparr>rows := []\<rparr>))
        \<lparr>entries := keep_entries (\<lambda>k e. k \<in> {plan_key ''plc'' ''x''})
           (entries (plan_tag \<lparr>dt_connection = ''plc'', dt_name = ''x'', dt_epoch = 3, dt_observed = ob,
              dt_driver = ''ab_eip''\<rparr> now (p\<lparr>rows := []\<rparr>))), updated := now, initialized := True\<rparr>)"
  by (simp add: refresh_def demo_report_def jat_def jvalue_def read_demand_key_def Let_def)

theorem idle_only_without_demand_witness:
  "let reports = [(demo_report True, 0), (demo_report False, 50)] in
   \<not> should_poll ''plc'' ''x'' 3 51 (plan_run (new_preview 40 30 5) reports) \<and>
   \<not> observes_tag (demand_tags (demo_report False)) (plan_key ''plc'' ''x'')"
proof -
  let ?reports = "[(demo_report True, 0), (demo_report False, 50)]"
  let ?p = "new_preview 40 30 5"
  have ok: "plans_succeed ?p ?reports" by (simp add: demo_refresh)
  have idle: "\<not> should_poll ''plc'' ''x'' 3 51 (plan_run ?p ?reports)"
    by (simp add: plan_run_def demo_refresh plan_tag_def touch_entry_def plan_decision_def new_preview_def
        should_poll_def plan_stale_def Let_def)
  from idle_only_without_demand [OF ok _ _ _ idle] idle show ?thesis by (simp add: Let_def)
qed

section \<open>The report to the user\<close>

lemma count_rows:
  "(foldl (\<lambda>m r. count_row r m) m rs) c =
     (let mine = filter (\<lambda>r. row_connection r = c) rs in
      if mine = [] then m c
      else let s = (case m c of None \<Rightarrow> \<lparr>sum_poll_work = 0, sum_would_poll = 0, sum_would_idle = 0\<rparr> | Some s \<Rightarrow> s)
           in Some \<lparr>sum_poll_work = sum_poll_work s + length mine,
                sum_would_poll = sum_would_poll s + length (filter row_would_poll mine),
                sum_would_idle = sum_would_idle s + length (filter (\<lambda>r. \<not> row_would_poll r) mine)\<rparr>)"
  by (induction rs arbitrary: m) (auto simp: count_row_def Let_def split: option.splits)

text \<open>
  The preview report adds up: per connection the planned work is the number of its planned tags
  and splits into those polled and those idle; a stale plan reports every tag as polled.
\<close>

theorem plan_report_adds_up:
  "let r = plan_snapshot wanted includeTags now p;
       mine = filter (\<lambda>x. row_connection x = c \<and> (wanted = [] \<or> c = wanted)) (rows p) in
   (report_connections r c = None \<longleftrightarrow> mine = []) \<and>
   (\<forall>s. report_connections r c = Some s \<longrightarrow>
      sum_poll_work s = length mine \<and> sum_would_poll s + sum_would_idle s = sum_poll_work s \<and>
      (report_stale r \<longrightarrow> sum_would_idle s = 0) \<and>
      (\<not> report_stale r \<longrightarrow> sum_would_poll s = length (filter row_would_poll mine)))"
proof -
  let ?shown = "filter (\<lambda>r. wanted = [] \<or> row_connection r = wanted) (rows p)"
  have mine: "filter (\<lambda>x. row_connection x = c) ?shown =
      filter (\<lambda>x. row_connection x = c \<and> (wanted = [] \<or> c = wanted)) (rows p)"
    by (auto intro!: filter_cong)
  have st: "filter (\<lambda>x. row_connection x = c) (map stale_row xs) =
      map stale_row (filter (\<lambda>x. row_connection x = c) xs)" for xs
    by (induction xs) (simp_all add: stale_row_def)
  have all: "filter row_would_poll (map stale_row xs) = map stale_row xs"
    "filter (\<lambda>r. \<not> row_would_poll r) (map stale_row xs) = []" for xs
    by (induction xs) (simp_all add: stale_row_def)
  have split: "length (filter row_would_poll xs) + length (filter (\<lambda>r. \<not> row_would_poll r) xs) = length xs" for xs
    by (rule sum_length_filter_compl)
  show ?thesis
    by (cases "plan_stale now p")
       (auto simp: plan_snapshot_def Let_def count_rows st all mine split simp del: filter_filter)
qed

definition sample_plan :: preview where
  "sample_plan = default_preview\<lparr>rows := [
     \<lparr>row_connection = ''c'', row_name = ''t'', row_would_poll = False, row_reason = ''no_observed_demand'', row_epoch = 1\<rparr>],
     initialized := True\<rparr>"

theorem plan_report_adds_up_witness:
  "\<exists>s. report_connections (plan_snapshot [] True 5 sample_plan) ''c'' = Some s \<and> sum_poll_work s = 1 \<and>
       sum_would_poll s + sum_would_idle s = 1"
proof -
  have "\<exists>s. report_connections (plan_snapshot [] True 5 sample_plan) ''c'' = Some s"
    using plan_report_adds_up [of "[]" True 5 sample_plan "''c''"] by (auto simp: Let_def sample_plan_def)
  moreover have "length (filter (\<lambda>x. row_connection x = ''c'' \<and> (([] :: string) = [] \<or> ''c'' = [])) (rows sample_plan)) = 1"
    by (simp add: sample_plan_def)
  ultimately show ?thesis
    using plan_report_adds_up [of "[]" True 5 sample_plan "''c''"] by (auto simp: Let_def)
qed

end
