(* ===== verification/DemandClient.thy ===== *)
theory DemandClient
  imports OrderedMap Json
begin

text \<open>
  The client side of demand: the heartbeat that registers and renews a service's scopes
  (consumer\_demand\_client.h), and \<open>ExecutionDemand\<close> (execution\_demand.h), which keeps the
  configuration of every running execution. libcurl, the provider callback, the clock and the stop
  flag are the environment of a pass: arguments of the functions that use them.
\<close>

section \<open>consumer\_demand\_base\_url\<close>

definition consumer_demand_base_url :: "string \<Rightarrow> string" where
  "consumer_demand_base_url url = rev (dropWhile (\<lambda>c. c = CHR ''/'') (rev url))"

section \<open>ConsumerDemandClient\<close>

text \<open>What a request asks: its URL and its JSON body.\<close>

record demand_request =
  req_url :: string
  req_body :: json

record sent_entry =
  sent_scope :: json
  sent_next :: time

record demand_client =
  client_owner :: string
  client_id :: string
  sent :: "(string, sent_entry) omap"
  provider_errors :: nat
  request_errors :: nat
  successful_requests :: nat
  requests :: "demand_request list"

text \<open>\<open>ok\<close> says whether the transfer succeeded with a 2xx status.\<close>

definition client_post :: "(demand_request \<Rightarrow> bool) \<Rightarrow> string \<Rightarrow> json \<Rightarrow> bool \<Rightarrow> demand_client \<Rightarrow> demand_client" where
  "client_post ok base sc release c =
     (let body0 = (if is_object sc then sc else JObj []);
          body = jset ''owner'' (JStr (client_owner c)) (jset ''client_id'' (JStr (client_id c)) body0);
          url = base @ (if release then ''/polling/demand/release'' else ''/polling/demand/register'');
          r = \<lparr>req_url = url, req_body = body\<rparr>;
          c1 = c\<lparr>requests := requests c @ [r]\<rparr>
      in if ok r then c1\<lparr>successful_requests := successful_requests c1 + 1\<rparr>
         else c1\<lparr>request_errors := request_errors c1 + 1\<rparr>)"

text \<open>First loop: release what the provider no longer wants.\<close>

fun release_unwanted ::
    "(demand_request \<Rightarrow> bool) \<Rightarrow> (string, json) omap \<Rightarrow> (string, sent_entry) omap \<Rightarrow> demand_client \<Rightarrow> demand_client" where
  "release_unwanted ok desired [] c = c"
| "release_unwanted ok desired ((k, e) # rest) c =
     (if om_get desired k = None
      then release_unwanted ok desired rest
             ((client_post ok k JNull True c)\<lparr>sent := om_del k (sent c)\<rparr>)
      else release_unwanted ok desired rest c)"

text \<open>
  Second loop: register what is new, changed or due. \<open>stop k\<close> and \<open>clock k\<close> are the stop flag and
  the time read when the loop reaches scope \<open>k\<close>.
\<close>

fun renew_wanted ::
    "(demand_request \<Rightarrow> bool) \<Rightarrow> (string \<Rightarrow> bool) \<Rightarrow> (string \<Rightarrow> time) \<Rightarrow> (string, json) omap \<Rightarrow>
     demand_client \<Rightarrow> demand_client" where
  "renew_wanted ok stop clock [] c = c"
| "renew_wanted ok stop clock ((k, sc) # rest) c =
     (if stop k then c
      else
        let now = clock k in
        if (case om_get (sent c) k of None \<Rightarrow> True | Some e \<Rightarrow> \<not> json_eq (sent_scope e) sc \<or> sent_next e \<le> now)
        then renew_wanted ok stop clock rest
               ((client_post ok k sc False c)
                  \<lparr>sent := om_put k \<lparr>sent_scope = sc, sent_next = now + seconds 10\<rparr> (sent c)\<rparr>)
        else renew_wanted ok stop clock rest c)"

text \<open>One pass of the worker; the provider returns the desired scopes or throws (\<open>None\<close>).\<close>

definition client_pass ::
    "(demand_request \<Rightarrow> bool) \<Rightarrow> (string \<Rightarrow> bool) \<Rightarrow> (string \<Rightarrow> time) \<Rightarrow> (string, json) omap option \<Rightarrow>
     demand_client \<Rightarrow> demand_client" where
  "client_pass ok stop clock provided c =
     (case provided of
        None \<Rightarrow> c\<lparr>provider_errors := provider_errors c + 1\<rparr>
      | Some desired \<Rightarrow> renew_wanted ok stop clock desired (release_unwanted ok desired (sent c) c))"

text \<open>After the loop ends every remaining scope is released.\<close>

definition client_finish :: "(demand_request \<Rightarrow> bool) \<Rightarrow> demand_client \<Rightarrow> demand_client" where
  "client_finish ok c = foldl (\<lambda>acc (k, e). client_post ok k JNull True acc) c (sent c)"

lemma client_post_simps [simp]:
  "sent (client_post ok b sc r c) = sent c"
  "client_owner (client_post ok b sc r c) = client_owner c"
  "client_id (client_post ok b sc r c) = client_id c"
  by (simp_all add: client_post_def Let_def)

lemma release_unwanted_sent:
  "om_ok (sent c) \<Longrightarrow>
     om_ok (sent (release_unwanted ok desired xs c)) \<and>
     om_get (sent (release_unwanted ok desired xs c)) k =
       (if k \<in> fst ` set xs \<and> om_get desired k = None then None else om_get (sent c) k)"
  by (induction ok desired xs c rule: release_unwanted.induct) (auto simp: om.get_del om.ok_del)

lemma renew_wanted_sent:
  assumes "om_ok (sent c)" "om_ok desired" "\<forall>k. \<not> stop k"
  shows "om_ok (sent (renew_wanted ok stop clock desired c)) \<and>
    (case om_get desired k of
       None \<Rightarrow> om_get (sent (renew_wanted ok stop clock desired c)) k = om_get (sent c) k
     | Some sc \<Rightarrow> om_get (sent (renew_wanted ok stop clock desired c)) k =
         (case om_get (sent c) k of
            Some e \<Rightarrow> if json_eq (sent_scope e) sc \<and> clock k < sent_next e then Some e
                       else Some \<lparr>sent_scope = sc, sent_next = clock k + seconds 10\<rparr>
          | None \<Rightarrow> Some \<lparr>sent_scope = sc, sent_next = clock k + seconds 10\<rparr>))"
  using assms
proof (induction ok stop clock desired c rule: renew_wanted.induct)
  case (1 ok stop clock c)
  then show ?case by (simp add: om_get_def)
next
  case (2 ok stop clock j sc rest c)
  have okr: "om_ok rest" and none: "om_get rest j = None"
    using "2.prems"(2) by (auto simp: om_ok_def om_get_def map_of_eq_None_iff)
  let ?due = "case om_get (sent c) j of None \<Rightarrow> True | Some e \<Rightarrow> \<not> json_eq (sent_scope e) sc \<or> sent_next e \<le> clock j"
  let ?c1 = "(client_post ok j sc False c)
    \<lparr>sent := om_put j \<lparr>sent_scope = sc, sent_next = clock j + seconds 10\<rparr> (sent c)\<rparr>"
  show ?case
  proof (cases ?due)
    case True
    have step: "renew_wanted ok stop clock ((j, sc) # rest) c = renew_wanted ok stop clock rest ?c1"
      using True "2.prems"(3) by (simp add: Let_def)
    have put: "om_get (sent ?c1) i =
        (if i = j then Some \<lparr>sent_scope = sc, sent_next = clock j + seconds 10\<rparr> else om_get (sent c) i)" for i
      using "2.prems"(1) by (simp add: om.get_put)
    have okc: "om_ok (sent ?c1)" using "2.prems"(1) by (simp add: om.ok_put)
    have head: "om_get ((j, sc) # rest) k = (if k = j then Some sc else om_get rest k)" by (simp add: om_get_def)
    note ih = "2.IH"(1) [OF _ refl True okc okr "2.prems"(3)]
    have stop: "\<not> stop j" using "2.prems"(3) by simp
    show ?thesis
    proof (cases "k = j")
      case True
      with ih [OF stop] none put [of j] \<open>?due\<close> show ?thesis
        unfolding step head by (cases "om_get (sent c) j") auto
    next
      case False
      with ih [OF stop] put [of k] show ?thesis unfolding step head by (simp cong: option.case_cong)
    qed
  next
    case False
    have stop: "\<not> stop j" using "2.prems"(3) by simp
    have step: "renew_wanted ok stop clock ((j, sc) # rest) c = renew_wanted ok stop clock rest c"
      using False stop by (simp add: Let_def)
    have head: "om_get ((j, sc) # rest) k = (if k = j then Some sc else om_get rest k)" by (simp add: om_get_def)
    note ih = "2.IH"(2) [OF stop refl False "2.prems"(1) okr "2.prems"(3)]
    show ?thesis
    proof (cases "k = j")
      case True
      with ih none False show ?thesis unfolding step head by (cases "om_get (sent c) j") auto
    next
      case False
      with ih show ?thesis unfolding step head by simp
    qed
  qed
qed


definition sample_client :: demand_client where
  "sample_client = \<lparr>client_owner = ''log'', client_id = ''c1'',
     sent = [(''old'', \<lparr>sent_scope = JNull, sent_next = 5\<rparr>)],
     provider_errors = 0, request_errors = 0, successful_requests = 0, requests = []\<rparr>"


section \<open>ExecutionDemand\<close>

text \<open>
  The caller of \<open>retain\<close> holds the only strong pointer to the copy; the object keeps a weak one. An
  allocation is a number, and \<open>ed\_live\<close> the set of those whose strong pointer still exists.
\<close>

record 'c exec_demand =
  ed_running :: "(nat \<times> 'c) list"
  ed_live :: "nat set"
  ed_next :: nat

definition new_exec :: "'c exec_demand" where
  "new_exec = \<lparr>ed_running = [], ed_live = {}, ed_next = 0\<rparr>"

definition ed_prune :: "'c exec_demand \<Rightarrow> 'c exec_demand" where
  "ed_prune s = s\<lparr>ed_running := filter (\<lambda>r. fst r \<in> ed_live s) (ed_running s)\<rparr>"

definition ed_retain :: "'c \<Rightarrow> 'c exec_demand \<Rightarrow> nat \<times> 'c exec_demand" where
  "ed_retain config s =
     (let p = ed_next s;
          s1 = ed_prune (s\<lparr>ed_live := insert p (ed_live s), ed_next := Suc p\<rparr>)
      in (p, s1\<lparr>ed_running := ed_running s1 @ [(p, config)]\<rparr>))"

definition ed_release :: "nat \<Rightarrow> 'c exec_demand \<Rightarrow> 'c exec_demand" where
  "ed_release p s = s\<lparr>ed_live := ed_live s - {p}\<rparr>"

definition ed_snapshot :: "'c exec_demand \<Rightarrow> 'c list \<times> 'c exec_demand" where
  "ed_snapshot s = (map snd (ed_running (ed_prune s)), ed_prune s)"

datatype 'c exec_op = Retain 'c | Release nat | Snapshot

fun exec_step :: "'c exec_demand \<Rightarrow> 'c exec_op \<Rightarrow> 'c exec_demand" where
  "exec_step s (Retain c) = snd (ed_retain c s)"
| "exec_step s (Release p) = ed_release p s"
| "exec_step s Snapshot = snd (ed_snapshot s)"

definition exec_run :: "'c exec_op list \<Rightarrow> 'c exec_demand" where
  "exec_run ops = foldl exec_step new_exec ops"

text \<open>The specification: the executions started and not yet ended, in the order they started.\<close>

fun active_step :: "nat \<times> (nat \<times> 'c) list \<Rightarrow> 'c exec_op \<Rightarrow> nat \<times> (nat \<times> 'c) list" where
  "active_step (n, xs) (Retain c) = (Suc n, xs @ [(n, c)])"
| "active_step (n, xs) (Release p) = (n, filter (\<lambda>r. fst r \<noteq> p) xs)"
| "active_step (n, xs) Snapshot = (n, xs)"

definition active_executions :: "'c exec_op list \<Rightarrow> (nat \<times> 'c) list" where
  "active_executions ops = snd (foldl active_step (0, []) ops)"

definition exec_sim :: "'c exec_demand \<Rightarrow> nat \<times> (nat \<times> 'c) list \<Rightarrow> bool" where
  "exec_sim s a \<longleftrightarrow> ed_next s = fst a \<and> (\<forall>p \<in> ed_live s. p < fst a) \<and>
     (\<forall>r \<in> set (ed_running s). fst r < fst a) \<and>
     filter (\<lambda>r. fst r \<in> ed_live s) (ed_running s) = snd a"

lemma exec_step_sim: "exec_sim s a \<Longrightarrow> exec_sim (exec_step s x) (active_step a x)"
proof (cases a; cases x)
  fix n xs c
  assume a: "a = (n, xs)" and x: "x = Retain c" and sim: "exec_sim s a"
  have "filter (\<lambda>r. fst r = n \<or> fst r \<in> ed_live s) (ed_running s) = filter (\<lambda>r. fst r \<in> ed_live s) (ed_running s)"
    using sim a by (intro filter_cong) (auto simp: exec_sim_def)
  then show ?thesis using sim by (auto simp: a x exec_sim_def ed_retain_def ed_prune_def Let_def less_Suc_eq)
next
  fix n xs p
  assume a: "a = (n, xs)" and x: "x = Release p" and sim: "exec_sim s a"
  have "filter (\<lambda>r. fst r \<in> ed_live s \<and> fst r \<noteq> p) (ed_running s) =
      filter (\<lambda>r. fst r \<noteq> p) (filter (\<lambda>r. fst r \<in> ed_live s) (ed_running s))"
    by (simp add: conj_commute)
  then show ?thesis using sim by (auto simp: a x exec_sim_def ed_release_def)
next
  fix n xs
  assume "a = (n, xs)" "x = Snapshot" "exec_sim s a"
  then show ?thesis by (auto simp: exec_sim_def ed_snapshot_def ed_prune_def)
qed

lemma exec_run_sim: "exec_sim (exec_run ops) (foldl active_step (0, []) ops)"
proof -
  have "exec_sim (foldl exec_step s ops) (foldl active_step a ops)" if "exec_sim s a" for s a
    using that by (induction ops arbitrary: s a) (simp_all add: exec_step_sim)
  moreover have "exec_sim new_exec (0, [])" by (simp add: exec_sim_def new_exec_def)
  ultimately show ?thesis by (simp add: exec_run_def)
qed

text \<open>
  C34. \<open>ExecutionDemand\<close> implements its specification: in every history the snapshot lists the
  configurations of exactly the executions that are running, in the order they were started; the
  lazy removal of expired pointers is never visible, and an ended execution's demand is gone at once.
\<close>

theorem execution_demand_refines:
  "fst (ed_snapshot (exec_run ops)) = map snd (active_executions ops)"
  using exec_run_sim [of ops]
  by (simp add: exec_sim_def ed_snapshot_def ed_prune_def active_executions_def)

end
