(* ===== verification/Paths.thy ===== *)
theory Paths
  imports Prelude
begin

text \<open>
  \<open>std::filesystem\<close>, as far as the configuration code uses it: the extension and stem of a file
  name, \<open>operator/\<close>, the normal form \<open>lexically_normal\<close> compares, and what a directory looks
  like to \<open>exists\<close>, \<open>directory_iterator\<close> and \<open>is_regular_file\<close>.
\<close>

section \<open>Names\<close>

text \<open>The extension starts at the last dot, unless there is none or it is the first character.\<close>

definition last_part :: "string \<Rightarrow> string" where
  "last_part name = rev (takeWhile (\<lambda>c. c \<noteq> CHR ''.'') (rev name))"

definition has_extension :: "string \<Rightarrow> bool" where
  "has_extension name \<longleftrightarrow> name \<noteq> ''..'' \<and> Suc (length (last_part name)) < length name"

definition extension :: "string \<Rightarrow> string" where
  "extension name = (if has_extension name then CHR ''.'' # last_part name else [])"

definition stem :: "string \<Rightarrow> string" where
  "stem name = take (length name - length (extension name)) name"

definition path_join :: "string \<Rightarrow> string \<Rightarrow> string" where
  "path_join a b =
     (if b \<noteq> [] \<and> hd b = CHR ''/'' then b
      else if a = [] \<or> last a = CHR ''/'' then a @ b else a @ CHR ''/'' # b)"

section \<open>Normal forms\<close>

fun split_path :: "string \<Rightarrow> string \<Rightarrow> string list" where
  "split_path acc [] = [rev acc]"
| "split_path acc (c # cs) = (if c = CHR ''/'' then rev acc # split_path [] cs else split_path (c # acc) cs)"

text \<open>One name on the reversed list of names kept so far.\<close>

definition push_name :: "bool \<Rightarrow> string list \<Rightarrow> string \<Rightarrow> string list" where
  "push_name absolute kept n =
     (if n = [] \<or> n = ''.'' then kept
      else if n = ''..'' then
        (case kept of
           k # ks \<Rightarrow> if k = ''..'' then n # kept else ks
         | [] \<Rightarrow> if absolute then [] else [n])
      else n # kept)"

text \<open>Whether the path is absolute, its names in order, and whether a separator ends it.\<close>

definition lexically_normal :: "string \<Rightarrow> bool \<times> string list \<times> bool" where
  "lexically_normal p =
     (let absolute = (p \<noteq> [] \<and> hd p = CHR ''/'');
          raw = split_path [] p;
          kept = foldl (push_name absolute) [] raw
      in (absolute, rev kept,
          last raw \<in> {[], ''.'', ''..''} \<and> kept \<noteq> [] \<and> hd kept \<noteq> ''..''))"

text \<open>A name as a directory listing gives it.\<close>

definition file_name :: "string \<Rightarrow> bool" where
  "file_name n \<longleftrightarrow> n \<notin> {[], ''.'', ''..''} \<and> CHR ''/'' \<notin> set n"

lemma split_path_last:
  "CHR ''/'' \<notin> set n \<Longrightarrow> split_path acc n = [rev acc @ n]"
  by (induction n arbitrary: acc) auto

lemma split_path_append:
  "CHR ''/'' \<notin> set n \<Longrightarrow> split_path acc (p @ CHR ''/'' # n) = split_path acc p @ [n]"
  by (induction p arbitrary: acc) (auto simp: split_path_last)

text \<open>Files of one directory have the same normal form exactly if they have the same name.\<close>

lemma lexically_normal_file:
  assumes "file_name n"
  shows "lexically_normal (d @ CHR ''/'' # n) =
    (let absolute = hd (d @ ''/'') = CHR ''/''
     in (absolute, rev (n # foldl (push_name absolute) [] (split_path [] d)), False))"
proof -
  have "CHR ''/'' \<notin> set n" "n \<notin> {[], ''.'', ''..''}" using assms by (auto simp: file_name_def)
  moreover have "hd (d @ CHR ''/'' # n) = hd (d @ ''/'')" by (cases d) simp_all
  ultimately show ?thesis by (simp add: lexically_normal_def Let_def split_path_append push_name_def)
qed

lemma same_directory_normal:
  "file_name n \<Longrightarrow> file_name m \<Longrightarrow>
     lexically_normal (d @ CHR ''/'' # n) = lexically_normal (d @ CHR ''/'' # m) \<longleftrightarrow> n = m"
  by (auto simp: lexically_normal_file Let_def)

section \<open>Directories\<close>

text \<open>
  \<open>StatFails\<close> and \<open>Unreadable\<close> are the cases in which \<open>is_regular_file\<close>, \<open>exists\<close> or the iterator
  throw \<open>filesystem_error\<close>.
\<close>

datatype file_kind = Regular | OtherKind | StatFails

record dir_entry =
  entry_name :: string
  entry_kind :: file_kind

datatype directory = Missing | Unreadable | Listing "dir_entry list"

end
