(* ===== verification/SavedConfig.thy ===== *)
theory SavedConfig
  imports OrderedMap Json Paths
begin

text \<open>
  \<open>RuntimeConfigState\<close> (runtime\_config\_state.h): whether the saved connection and tag files differ
  from those the runtime last loaded. The directories and the reader of a file are the environment:
  \<open>None\<close> from the reader is an exception.
\<close>

type_synonym files = "(string, json) omap"

record saved_snapshot =
  snap_files :: files
  snap_error :: string

record runtime_config =
  applied_files :: files
  rc_initialized :: bool

definition new_runtime_config :: runtime_config where
  "new_runtime_config = \<lparr>applied_files = [], rc_initialized = False\<rparr>"

section \<open>capture\<close>

text \<open>The loop over one directory; \<open>None\<close> beside the files is an exception that ended it.\<close>

fun capture_entries ::
    "(string \<Rightarrow> json option) \<Rightarrow> string \<Rightarrow> string \<Rightarrow> dir_entry list \<Rightarrow> files \<Rightarrow> files \<times> unit option" where
  "capture_entries read base dir [] fs = (fs, Some ())"
| "capture_entries read base dir (e # rest) fs =
     (let ext = extension (entry_name e) in
      case entry_kind e of
        StatFails \<Rightarrow> (fs, None)
      | OtherKind \<Rightarrow> capture_entries read base dir rest fs
      | Regular \<Rightarrow>
          if ext \<noteq> ''.json'' \<and> \<not> (dir = ''tags'' \<and> ext = ''.jsonc'')
          then capture_entries read base dir rest fs
          else (case read (path_join (path_join base dir) (entry_name e)) of
                  None \<Rightarrow> (fs, None)
                | Some j \<Rightarrow> capture_entries read base dir rest (om_put (dir @ ''/'' @ entry_name e) j fs)))"

fun capture_dirs ::
    "(string \<Rightarrow> json option) \<Rightarrow> (string \<Rightarrow> directory) \<Rightarrow> string \<Rightarrow> string list \<Rightarrow> files \<Rightarrow> files \<times> unit option" where
  "capture_dirs read disk base [] fs = (fs, Some ())"
| "capture_dirs read disk base (dir # rest) fs =
     (case disk (path_join base dir) of
        Missing \<Rightarrow> capture_dirs read disk base rest fs
      | Unreadable \<Rightarrow> (fs, None)
      | Listing es \<Rightarrow>
          (case capture_entries read base dir es fs of
             (fs', None) \<Rightarrow> (fs', None)
           | (fs', Some _) \<Rightarrow> capture_dirs read disk base rest fs'))"

definition capture :: "(string \<Rightarrow> json option) \<Rightarrow> (string \<Rightarrow> directory) \<Rightarrow> string \<Rightarrow> saved_snapshot" where
  "capture read disk base =
     (case capture_dirs read disk base [''connections'', ''tags''] [] of
        (fs, r) \<Rightarrow> \<lparr>snap_files = fs,
          snap_error = (if r = None then ''Could not read saved connection/tag configuration.'' else [])\<rparr>)"

section \<open>applied and pending\<close>

definition belongs :: "string \<Rightarrow> string \<Rightarrow> json \<Rightarrow> bool" where
  "belongs connection path j =
     (let key = (if take 12 path = ''connections/'' then ''id'' else ''connection_id'')
      in is_object j \<and> jfind j key = Some (JStr connection))"

definition applied :: "saved_snapshot \<Rightarrow> string \<Rightarrow> runtime_config \<Rightarrow> runtime_config" where
  "applied loaded connection s =
     (if snap_error loaded \<noteq> [] then s
      else if connection = [] then s\<lparr>applied_files := snap_files loaded, rc_initialized := True\<rparr>
      else
        let kept = om_keep (\<lambda>k v. \<not> belongs connection k v) (applied_files s) in
        s\<lparr>applied_files := foldl (\<lambda>m (k, v). if belongs connection k v then om_emplace k v m else m)
            kept (snap_files loaded)\<rparr>)"

definition files_eq :: "files \<Rightarrow> files \<Rightarrow> bool" where
  "files_eq = list_all2 (\<lambda>e f. fst e = fst f \<and> json_eq (snd e) (snd f))"

definition pending :: "saved_snapshot \<Rightarrow> runtime_config \<Rightarrow> bool" where
  "pending saved s \<longleftrightarrow>
     \<not> rc_initialized s \<or> snap_error saved \<noteq> [] \<or> \<not> files_eq (snap_files saved) (applied_files s)"

section \<open>What capture reads\<close>

text \<open>The configuration on disk: the files with the right extension, by directory and name.\<close>

definition config_file :: "(string \<Rightarrow> directory) \<Rightarrow> string \<Rightarrow> string \<Rightarrow> string \<Rightarrow> bool" where
  "config_file disk base dir name \<longleftrightarrow>
     (\<exists>es. disk (path_join base dir) = Listing es \<and> \<lparr>entry_name = name, entry_kind = Regular\<rparr> \<in> set es) \<and>
     (extension name = ''.json'' \<or> dir = ''tags'' \<and> extension name = ''.jsonc'')"

definition saved_file ::
    "(string \<Rightarrow> json option) \<Rightarrow> (string \<Rightarrow> directory) \<Rightarrow> string \<Rightarrow> string \<Rightarrow> string \<Rightarrow> json option" where
  "saved_file read disk base dir name =
     (if config_file disk base dir name then read (path_join (path_join base dir) name) else None)"

lemma capture_entries_spec:
  assumes "capture_entries read base dir es fs = (fs', Some u)" "om_ok fs"
  shows "om_ok fs' \<and> (\<forall>k. om_get fs' k =
     (if \<exists>name. k = dir @ ''/'' @ name \<and> \<lparr>entry_name = name, entry_kind = Regular\<rparr> \<in> set es \<and>
           (extension name = ''.json'' \<or> dir = ''tags'' \<and> extension name = ''.jsonc'')
      then read (path_join (path_join base dir) (drop (Suc (length dir)) k)) else om_get fs k))"
  using assms
proof (induction read base dir es fs rule: capture_entries.induct)
  case (1 read base dir fs)
  then show ?case by simp
next
  case (2 read base dir e rest fs)
  obtain name kind where e: "e = \<lparr>entry_name = name, entry_kind = kind\<rparr>" by (cases e)
  let ?wanted = "extension name = ''.json'' \<or> dir = ''tags'' \<and> extension name = ''.jsonc''"
  show ?case
  proof (cases "kind = Regular \<and> ?wanted")
    case True
    then obtain j where j: "read (path_join (path_join base dir) name) = Some j"
      using "2.prems"(1) by (auto simp: e split: option.splits)
    let ?fs = "om_put (dir @ ''/'' @ name) j fs"
    have rest: "capture_entries read base dir rest ?fs = (fs', Some u)" using "2.prems"(1) True j by (auto simp: e)
    have "om_ok ?fs" using "2.prems"(2) by (simp add: om.ok_put)
    note ih = "2.IH"(2) [of "extension name" j, simplified e dir_entry.simps, OF refl _ _ j rest [folded e] this]
    show ?thesis using ih True j "2.prems"(2)
      by (auto simp: e om.get_put)
  next
    case False
    with "2.prems"(1) have rest: "capture_entries read base dir rest fs = (fs', Some u)"
      by (cases kind) (auto simp: e split: if_splits)
    have "kind \<noteq> StatFails" using "2.prems"(1) by (auto simp: e)
    with False show ?thesis using "2.IH"(1,3) "2.prems"(2) rest
      by (cases kind) (auto simp: e)
  qed
qed

lemma json_eq_object:
  assumes "list_all2 (\<lambda>e f. fst e = fst f \<and> json_eq (snd e) (snd f)) xs ys"
  shows "rel_option json_eq (map_of xs k) (map_of ys k)"
  using assms by (induction xs ys rule: list_all2_induct) auto

lemma files_eq_iff:
  assumes "om_ok a" "om_ok b"
  shows "files_eq a b \<longleftrightarrow> (\<forall>k. rel_option json_eq (om_get a k) (om_get b k))"
proof
  assume "files_eq a b"
  then show "\<forall>k. rel_option json_eq (om_get a k) (om_get b k)"
    by (simp add: files_eq_def om_get_def json_eq_object)
next
  assume "\<forall>k. rel_option json_eq (om_get a k) (om_get b k)"
  with assms show "files_eq a b"
  proof (induction a arbitrary: b)
    case Nil
    show ?case
    proof (cases b)
      case (Cons f b')
      with Nil.prems(3) [rule_format, of "fst f"] show ?thesis by (cases f) (simp add: om_get_def)
    qed (simp add: files_eq_def)
  next
    case (Cons e a)
    obtain k v where e: "e = (k, v)" by (cases e)
    have k: "rel_option json_eq (Some v) (om_get b k)" using Cons.prems(3) by (metis e om_get_def map_of_Cons_code(2))
    then obtain f b' where b: "b = f # b'" by (cases b) (auto simp: om_get_def)
    obtain k' w where f: "f = (k', w)" by (cases f)
    have lt: "\<forall>x \<in> fst ` set a. k < x" "\<forall>x \<in> fst ` set b'. k' < x" "om_ok a" "om_ok b'"
      using Cons.prems by (auto simp: om_ok_def e b f)
    have none: "om_get a k = None" "om_get b' k' = None"
      using lt by (auto simp: om_get_def map_of_eq_None_iff)
    have absent: "x \<notin> fst ` set m \<Longrightarrow> map_of m x = None" for x and m :: files
      by (simp add: map_of_eq_None_iff)
    have "rel_option json_eq (om_get (e # a) k') (Some w)"
      using Cons.prems(3) by (metis b f om_get_def map_of_Cons_code(2))
    then have "k' = k \<or> k' \<in> fst ` set a" using absent [of k' a] by (cases "k' \<in> fst ` set a") (auto simp: e om_get_def split: if_splits)
    moreover have "k = k' \<or> k \<in> fst ` set b'"
      using k absent [of k b'] by (cases "k \<in> fst ` set b'") (auto simp: b f om_get_def split: if_splits)
    ultimately have kk: "k' = k" using lt by force
    have "rel_option json_eq (om_get a x) (om_get b' x)" for x
      using Cons.prems(3) [rule_format, of x] none kk by (cases "x = k") (auto simp: e b f om_get_def)
    then have "files_eq a b'" using Cons.IH lt by blast
    moreover have "json_eq v w" using k by (simp add: b f kk om_get_def)
    ultimately show ?case by (simp add: files_eq_def e b f kk)
  qed
qed

text \<open>A captured snapshot holds exactly the configuration files, under \<open>directory/name\<close>.\<close>

lemma capture_spec:
  assumes "snap_error (capture read disk base) = []"
  shows "om_ok (snap_files (capture read disk base))"
    and "dir \<in> {''connections'', ''tags''} \<Longrightarrow>
      om_get (snap_files (capture read disk base)) (dir @ ''/'' @ name) = saved_file read disk base dir name"
    and "(\<forall>dir \<in> {''connections'', ''tags''}. \<forall>name. k \<noteq> dir @ ''/'' @ name) \<Longrightarrow>
      om_get (snap_files (capture read disk base)) k = None"
proof -
  define one where "one dir fs = (case disk (path_join base dir) of
      Missing \<Rightarrow> (fs, Some ()) | Unreadable \<Rightarrow> (fs, None) | Listing es \<Rightarrow> capture_entries read base dir es fs)"
    for dir fs
  have one: "om_ok fs' \<and> (\<forall>k. om_get fs' k =
      (if \<exists>name. k = dir @ ''/'' @ name \<and> config_file disk base dir name
       then read (path_join (path_join base dir) (drop (Suc (length dir)) k)) else om_get fs k))"
    if "one dir fs = (fs', Some ())" "om_ok fs" for dir fs fs'
    using that capture_entries_spec [of read base dir _ fs fs' "()"]
    by (auto simp: one_def config_file_def split: directory.splits)
  obtain fs1 r1 where s1: "one ''connections'' [] = (fs1, r1)" by (cases "one ''connections'' []")
  obtain fs2 r2 where s2: "one ''tags'' fs1 = (fs2, r2)" by (cases "one ''tags'' fs1")
  have files: "r1 = Some ()" "r2 = Some ()" "snap_files (capture read disk base) = fs2"
    using assms s1 s2 by (auto simp: capture_def one_def split: directory.splits prod.splits if_splits option.splits)
  note c = one [OF s1 [unfolded files]]
  have ok1: "om_ok fs1" using c by (simp add: om_ok_def)
  note t = one [OF s2 [unfolded files] ok1]
  show "om_ok (snap_files (capture read disk base))" using t files by simp
  show "om_get (snap_files (capture read disk base)) (dir @ ''/'' @ name) = saved_file read disk base dir name"
    if "dir \<in> {''connections'', ''tags''}"
    using that t c files by (auto simp: saved_file_def om_ok_def om_get_def)
  show "om_get (snap_files (capture read disk base)) k = None"
    if "\<forall>dir \<in> {''connections'', ''tags''}. \<forall>name. k \<noteq> dir @ ''/'' @ name"
    using that t c files by (auto simp: om_ok_def om_get_def)
qed

text \<open>
  C35. Saves made during a reload stay pending: after a full load of the snapshot captured when the
  load began, the configuration is pending exactly if the disk can no longer be read or some
  connection or tag file now differs from what was captured, being created, deleted or changed.
  A load whose capture failed changes nothing.
\<close>

theorem saves_during_reload_stay_pending:
  assumes "snap_error (capture read0 disk0 base) = []"
  shows "(pending (capture read1 disk1 base) (applied (capture read0 disk0 base) [] s) \<longleftrightarrow>
      snap_error (capture read1 disk1 base) \<noteq> [] \<or>
      (\<exists>dir \<in> {''connections'', ''tags''}. \<exists>name.
         \<not> rel_option json_eq (saved_file read1 disk1 base dir name) (saved_file read0 disk0 base dir name))) \<and>
    (snap_error bad \<noteq> [] \<longrightarrow> applied bad connection s = s)"
proof -
  let ?s = "applied (capture read0 disk0 base) [] s"
  have st: "rc_initialized ?s" "applied_files ?s = snap_files (capture read0 disk0 base)"
    using assms by (simp_all add: applied_def)
  have "files_eq (snap_files (capture read1 disk1 base)) (applied_files ?s) \<longleftrightarrow>
      (\<forall>dir \<in> {''connections'', ''tags''}. \<forall>name.
         rel_option json_eq (saved_file read1 disk1 base dir name) (saved_file read0 disk0 base dir name))"
    if new: "snap_error (capture read1 disk1 base) = []"
    using capture_spec [OF new] capture_spec [OF assms]
    by (simp only: st(2) files_eq_iff) (metis option.rel_inject(1) insertI1 insertI2)
  then show ?thesis using st by (auto simp: pending_def) (simp add: applied_def)
qed

definition demo_disk :: "string \<Rightarrow> directory" where
  "demo_disk p = (if p = ''cfg/tags'' then Listing [\<lparr>entry_name = ''a.json'', entry_kind = Regular\<rparr>] else Missing)"

theorem saves_during_reload_stay_pending_witness:
  "pending (capture (\<lambda>p. Some (JInt 2)) demo_disk ''cfg'')
     (applied (capture (\<lambda>p. Some (JInt 1)) demo_disk ''cfg'') [] new_runtime_config)"
proof -
  have dot: "last_part ''a.json'' = ''json''" by (simp add: last_part_def)
  have ok: "snap_error (capture (\<lambda>p. Some (JInt n)) demo_disk ''cfg'') = []" for n
    by (simp add: capture_def demo_disk_def path_join_def Let_def extension_def has_extension_def dot)
  have "saved_file (\<lambda>p. Some (JInt n)) demo_disk ''cfg'' ''tags'' ''a.json'' = Some (JInt n)" for n
    by (simp add: saved_file_def config_file_def demo_disk_def path_join_def extension_def has_extension_def dot)
  then have "\<not> rel_option json_eq (saved_file (\<lambda>p. Some (JInt 2)) demo_disk ''cfg'' ''tags'' ''a.json'')
      (saved_file (\<lambda>p. Some (JInt 1)) demo_disk ''cfg'' ''tags'' ''a.json'')" by simp
  then show ?thesis
    using saves_during_reload_stay_pending [OF ok [of 1], of "\<lambda>p. Some (JInt 2)" demo_disk new_runtime_config] by blast
qed

section \<open>Loading one connection\<close>

lemma json_eq_belongs:
  assumes "json_eq v w"
  shows "belongs c k v = belongs c k w"
proof -
  have str: "json_eq a b \<Longrightarrow> (a = JStr x) = (b = JStr x)" for a b x by (cases a; cases b) auto
  have "(jfind v key = Some (JStr c)) = (jfind w key = Some (JStr c))" for key
  proof (cases v)
    case (JObj xs)
    then obtain ys where w: "w = JObj ys" using assms by (cases w) auto
    then have "rel_option json_eq (map_of xs key) (map_of ys key)" using assms JObj json_eq_object by auto
    then show ?thesis using JObj w str by (cases rule: option.rel_cases) auto
  qed (use assms in \<open>cases w; auto\<close>)+
  moreover have "is_object v = is_object w" using assms by (cases v; cases w) auto
  ultimately show ?thesis by (simp add: belongs_def Let_def)
qed

lemma insert_belonging:
  assumes "om_ok m" "om_ok xs"
  shows "om_ok (foldl (\<lambda>m (k, v). if belongs c k v then om_emplace k v m else m) m xs) \<and>
    om_get (foldl (\<lambda>m (k, v). if belongs c k v then om_emplace k v m else m) m xs) k =
      (case om_get m k of Some w \<Rightarrow> Some w
       | None \<Rightarrow> (case om_get xs k of Some v \<Rightarrow> if belongs c k v then Some v else None | None \<Rightarrow> None))"
  using assms
proof (induction xs arbitrary: m)
  case Nil
  then show ?case by (simp add: om_get_def split: option.splits)
next
  case (Cons e xs)
  obtain j v where e: "e = (j, v)" by (cases e)
  have ok: "om_ok xs" and none: "om_get xs j = None"
    using Cons.prems by (auto simp: om_ok_def e om_get_def map_of_eq_None_iff)
  let ?m = "if belongs c j v then om_emplace j v m else m"
  have m: "om_ok ?m" using Cons.prems by (simp add: om_ok_emplace)
  have head: "om_get ((j, v) # xs) k = (if k = j then Some v else om_get xs k)" by (simp add: om_get_def)
  show ?case
    using Cons.IH [OF m ok] none Cons.prems(1) unfolding e head
    by (cases "k = j"; cases "om_get m j") (auto simp: om_get_emplace split: option.splits)
qed

lemma applied_partial:
  assumes "om_ok (applied_files s)" "om_ok (snap_files loaded)" "snap_error loaded = []" "c \<noteq> []"
  shows "om_ok (applied_files (applied loaded c s)) \<and>
    om_get (applied_files (applied loaded c s)) k =
      (case keep_entries (\<lambda>k v. \<not> belongs c k v) (om_get (applied_files s)) k of
         Some w \<Rightarrow> Some w
       | None \<Rightarrow> (case om_get (snap_files loaded) k of
                    Some v \<Rightarrow> if belongs c k v then Some v else None | None \<Rightarrow> None))"
  using insert_belonging [OF om.ok_keep [OF assms(1), of "\<lambda>k v. \<not> belongs c k v"] assms(2), of c k] assms
  by (simp add: applied_def Let_def om.get_keep)

text \<open>What a reload of connection \<open>c\<close> brings up to date: a file that did not change, or one
  that belongs to \<open>c\<close> in both states it is found in.\<close>

definition settled :: "string \<Rightarrow> string \<Rightarrow> json option \<Rightarrow> json option \<Rightarrow> bool" where
  "settled c k saved old \<longleftrightarrow> rel_option json_eq saved old \<or>
     (\<forall>v \<in> set_option saved. belongs c k v) \<and> (\<forall>w \<in> set_option old. belongs c k w)"

text \<open>
  Reloading one connection settles that connection and nothing else: afterwards the
  configuration is still pending exactly if some changed file does not belong to the reloaded
  connection, before or after its change; in particular another connection's change is never hidden.
\<close>

theorem partial_reload_settles_connection:
  assumes "om_ok (applied_files s)" "om_ok (snap_files loaded)" "snap_error loaded = []" "c \<noteq> []"
    and "rc_initialized s" "\<forall>k v. om_get (snap_files loaded) k = Some v \<longrightarrow> json_eq v v"
  shows "pending loaded (applied loaded c s) \<longleftrightarrow>
    (\<exists>k. \<not> settled c k (om_get (snap_files loaded) k) (om_get (applied_files s) k))"
proof -
  let ?s = "applied loaded c s"
  note new = applied_partial [OF assms(1-4)]
  have "rel_option json_eq (om_get (snap_files loaded) k) (om_get (applied_files ?s) k) \<longleftrightarrow>
      settled c k (om_get (snap_files loaded) k) (om_get (applied_files s) k)" for k
    using new [of k] assms(6) json_eq_belongs
    by (cases "om_get (snap_files loaded) k"; cases "om_get (applied_files s) k")
       (auto simp: settled_def keep_entries_def)
  moreover have "rc_initialized ?s" using assms by (simp add: applied_def Let_def)
  ultimately show ?thesis using assms(2,3) new by (simp add: pending_def files_eq_iff)
qed

theorem partial_reload_settles_connection_witness:
  "pending \<lparr>snap_files = [(''tags/a.json'', JInt 1)], snap_error = []\<rparr>
     (applied \<lparr>snap_files = [(''tags/a.json'', JInt 1)], snap_error = []\<rparr> ''plc'' \<lparr>applied_files = [], rc_initialized = True\<rparr>)"
proof -
  let ?l = "\<lparr>snap_files = [(''tags/a.json'', JInt 1)], snap_error = []\<rparr>"
  let ?s = "\<lparr>applied_files = [], rc_initialized = True\<rparr>"
  have h: "om_ok (applied_files ?s)" "om_ok (snap_files ?l)" "snap_error ?l = []" "''plc'' \<noteq> []" "rc_initialized ?s"
    "\<forall>k v. om_get (snap_files ?l) k = Some v \<longrightarrow> json_eq v v"
    by (simp_all add: om_ok_def om_get_def)
  have "\<not> settled ''plc'' ''tags/a.json'' (om_get (snap_files ?l) ''tags/a.json'') (om_get (applied_files ?s) ''tags/a.json'')"
    by (simp add: settled_def om_get_def belongs_def)
  then show ?thesis using partial_reload_settles_connection [OF h] by blast
qed

end
