(* ===== verification/ConnectionFiles.thy ===== *)
theory ConnectionFiles
  imports Json OrderedMap Paths
begin

text \<open>
  connection\_names.h: the display name of a connection and the check that a save does not take a
  name in use. connection\_tag\_cleanup.h: the tag files removed with a connection. Directories and
  the readers of their files are the environment; \<open>None\<close> from a reader is an exception.
\<close>

datatype file_error = ReadError | FilesystemError | JsonError json_error | DeleteError string

section \<open>connection\_name\_key and connection\_friendly\_name\<close>

definition is_blank :: "char \<Rightarrow> bool" where
  "is_blank c \<longleftrightarrow> c \<in> {CHR '' '', CHR 0x09, CHR 0x0D, CHR 0x0A}"

definition trim_blank :: "string \<Rightarrow> string" where
  "trim_blank s = rev (dropWhile is_blank (rev (dropWhile is_blank s)))"

definition connection_name_key :: "string \<Rightarrow> string" where
  "connection_name_key name = map to_lower (trim_blank name)"

definition connection_friendly_name :: "json \<Rightarrow> json_error + string" where
  "connection_friendly_name j =
     rbind (jvalue get_string j ''description'' []) (\<lambda>description.
       if connection_name_key description = [] then jvalue get_string j ''id'' [] else Inr description)"

section \<open>connection\_name\_conflict\<close>

definition lift_json :: "json_error + 'a \<Rightarrow> file_error + 'a" where
  "lift_json r = (case r of Inl e \<Rightarrow> Inl (JsonError e) | Inr a \<Rightarrow> Inr a)"

definition conflict_message :: "string \<Rightarrow> string" where
  "conflict_message name =
     ''Connection name '' @ [CHR 0x27] @ name @ [CHR 0x27] @ '' is already in use. Choose a unique connection name.''"

definition conflict_with :: "json \<Rightarrow> string \<Rightarrow> json \<Rightarrow> file_error + string option" where
  "conflict_with candidate key other =
     rbind (lift_json (jvalue get_string other ''id'' [])) (\<lambda>other_id.
     rbind (lift_json (jvalue get_string candidate ''id'' [])) (\<lambda>own_id.
       if other_id = own_id \<or> key = [] then Inr None
       else rbind (lift_json (connection_friendly_name other)) (\<lambda>other_name.
         if key = connection_name_key other_name
         then rbind (lift_json (connection_friendly_name candidate)) (\<lambda>name. Inr (Some (conflict_message name)))
         else Inr None)))"

fun scan_names ::
    "(string \<Rightarrow> json option) \<Rightarrow> string \<Rightarrow> string \<Rightarrow> json \<Rightarrow> string \<Rightarrow> dir_entry list \<Rightarrow> file_error + string" where
  "scan_names read dir target candidate key [] = Inr []"
| "scan_names read dir target candidate key (e # rest) =
     (let path = path_join dir (entry_name e); ext = extension (entry_name e) in
      case entry_kind e of
        StatFails \<Rightarrow> Inl FilesystemError
      | OtherKind \<Rightarrow> scan_names read dir target candidate key rest
      | Regular \<Rightarrow>
          if ext \<noteq> ''.json'' \<and> ext \<noteq> ''.jsonc'' then scan_names read dir target candidate key rest
          else if lexically_normal path = lexically_normal target then scan_names read dir target candidate key rest
          else (case read path of
              None \<Rightarrow> Inl ReadError
            | Some other \<Rightarrow>
                (case conflict_with candidate key other of
                   Inl err \<Rightarrow> Inl err
                 | Inr (Some msg) \<Rightarrow> Inr msg
                 | Inr None \<Rightarrow> scan_names read dir target candidate key rest)))"

definition connection_name_conflict ::
    "(string \<Rightarrow> json option) \<Rightarrow> (string \<Rightarrow> directory) \<Rightarrow> json \<Rightarrow> string \<Rightarrow> string \<Rightarrow> file_error + string" where
  "connection_name_conflict read disk candidate base target =
     rbind (lift_json (connection_friendly_name candidate)) (\<lambda>name.
       let key = connection_name_key name; dir = path_join base ''connections'' in
       case disk dir of
         Missing \<Rightarrow> Inr []
       | Unreadable \<Rightarrow> Inl FilesystemError
       | Listing es \<Rightarrow> scan_names read dir (path_join base target) candidate key es)"

section \<open>remove\_connection\_tag\_files\<close>

text \<open>What \<open>readJson\<close> and \<open>value\<close> make of one file: the connection it claims, or an exception.\<close>

definition claimed_connection :: "json option \<Rightarrow> string option" where
  "claimed_connection r =
     (case r of None \<Rightarrow> None
      | Some tags \<Rightarrow> (case jvalue get_string tags ''connection_id'' [] of Inl e \<Rightarrow> None | Inr c \<Rightarrow> Some c))"

definition store_name :: "string \<Rightarrow> string" where
  "store_name n = (if extension n = ''.bak'' then stem n else n)"

definition owned_file :: "(string \<Rightarrow> json option) \<Rightarrow> string \<Rightarrow> string \<Rightarrow> string \<Rightarrow> bool" where
  "owned_file read dir cid n \<longleftrightarrow>
     (let name = store_name n in
      extension name \<in> {''.json'', ''.jsonc''} \<and>
      (case claimed_connection (read (path_join dir n)) of
         Some c \<Rightarrow> c = cid
       | None \<Rightarrow> name = cid @ ''.json'' \<or> name = cid @ ''.jsonc''))"

fun owned_files :: "(string \<Rightarrow> json option) \<Rightarrow> string \<Rightarrow> string \<Rightarrow> dir_entry list \<Rightarrow> file_error + string list" where
  "owned_files read dir cid [] = Inr []"
| "owned_files read dir cid (e # rest) =
     (case entry_kind e of
        StatFails \<Rightarrow> Inl FilesystemError
      | OtherKind \<Rightarrow> owned_files read dir cid rest
      | Regular \<Rightarrow>
          rbind (owned_files read dir cid rest) (\<lambda>others.
            Inr (if owned_file read dir cid (entry_name e) then entry_name e # others else others)))"

text \<open>
  The deletions: \<open>fails p\<close> is the message of \<open>fs::remove\<close>'s error for \<open>p\<close>, if it has one. The
  result pairs the outcome with the names actually removed.
\<close>

fun remove_files :: "(string \<Rightarrow> string option) \<Rightarrow> string \<Rightarrow> string list \<Rightarrow> (file_error + unit) \<times> string list" where
  "remove_files fails dir [] = (Inr (), [])"
| "remove_files fails dir (n # rest) =
     (case fails (path_join dir n) of
        Some msg \<Rightarrow> (Inl (DeleteError (''Failed to delete tag file '' @ n @ '': '' @ msg)), [])
      | None \<Rightarrow> (case remove_files fails dir rest of (r, gone) \<Rightarrow> (r, n # gone)))"

definition remove_connection_tag_files ::
    "(string \<Rightarrow> json option) \<Rightarrow> (string \<Rightarrow> directory) \<Rightarrow> (string \<Rightarrow> string option) \<Rightarrow> string \<Rightarrow> string \<Rightarrow>
     (file_error + unit) \<times> string list" where
  "remove_connection_tag_files read disk fails dir cid =
     (case disk dir of
        Missing \<Rightarrow> (Inr (), [])
      | Unreadable \<Rightarrow> (Inl FilesystemError, [])
      | Listing es \<Rightarrow>
          (case owned_files read dir cid es of
             Inl err \<Rightarrow> (Inl err, [])
           | Inr names \<Rightarrow> remove_files fails dir names))"

section \<open>Names stay unique\<close>

definition connection_store :: "dir_entry list \<Rightarrow> string \<Rightarrow> bool" where
  "connection_store es n \<longleftrightarrow> \<lparr>entry_name = n, entry_kind = Regular\<rparr> \<in> set es \<and> extension n \<in> {''.json'', ''.jsonc''}"

definition same_name :: "json \<Rightarrow> json \<Rightarrow> bool" where
  "same_name j k \<longleftrightarrow> (\<exists>a b. connection_friendly_name j = Inr a \<and> connection_friendly_name k = Inr b \<and>
     connection_name_key a = connection_name_key b \<and> connection_name_key a \<noteq> [])"

definition same_id :: "json \<Rightarrow> json \<Rightarrow> bool" where
  "same_id j k \<longleftrightarrow> jvalue get_string j ''id'' [] = jvalue get_string k ''id'' []"

text \<open>No two stores of different connections have the same name.\<close>

definition names_unique :: "(string \<Rightarrow> json option) \<Rightarrow> string \<Rightarrow> dir_entry list \<Rightarrow> bool" where
  "names_unique read dir es \<longleftrightarrow> (\<forall>m n j k. connection_store es m \<longrightarrow> connection_store es n \<longrightarrow>
     read (path_join dir m) = Some j \<longrightarrow> read (path_join dir n) = Some k \<longrightarrow> same_name j k \<longrightarrow> same_id j k)"

lemma rbind_Inl_iff: "rbind r f = Inl e \<longleftrightarrow> r = Inl e \<or> (\<exists>a. r = Inr a \<and> f a = Inl e)"
  by (auto simp: rbind_def split: sum.splits)

lemma lift_json_Inr [simp]: "lift_json r = Inr a \<longleftrightarrow> r = Inr a"
  by (auto simp: lift_json_def split: sum.splits)

lemma conflict_with_None:
  assumes "conflict_with candidate key other = Inr None"
    and "connection_friendly_name candidate = Inr name" "key = connection_name_key name"
  shows "\<not> same_name candidate other \<or> same_id candidate other"
  using assms by (auto simp: conflict_with_def same_name_def same_id_def rbind_Inr split: if_splits)

lemma conflict_with_Some:
  assumes "conflict_with candidate key other = Inr (Some msg)"
    and "connection_friendly_name candidate = Inr name" "key = connection_name_key name"
  shows "same_name candidate other \<and> \<not> same_id candidate other \<and> msg = conflict_message name"
  using assms by (auto simp: conflict_with_def same_name_def same_id_def rbind_Inr split: if_splits)

lemma scan_names_none:
  assumes "connection_friendly_name candidate = Inr name" "key = connection_name_key name"
    and "connection_store es n" "lexically_normal (path_join dir n) \<noteq> lexically_normal target"
    and "scan_names read dir target candidate key es = Inr []"
  shows "\<exists>other. read (path_join dir n) = Some other \<and> conflict_with candidate key other = Inr None"
  using assms(3-)
proof (induction es)
  case (Cons e rest)
  have msg: "conflict_with candidate key other \<noteq> Inr (Some [])" for other
    using conflict_with_Some [OF _ assms(1,2), of other "[]"] by (auto simp: conflict_message_def)
  show ?case
  proof (cases "e = \<lparr>entry_name = n, entry_kind = Regular\<rparr>")
    case True
    with Cons.prems msg show ?thesis
      by (auto simp: Let_def connection_store_def split: option.splits sum.splits if_splits)
  next
    case False
    then have "connection_store rest n" using Cons.prems(1) by (simp add: connection_store_def)
    with Cons.IH Cons.prems(2,3) msg show ?thesis
      by (auto simp: Let_def split: file_kind.splits option.splits sum.splits if_splits)
  qed
qed (simp add: connection_store_def)

lemma connection_store_Cons:
  "connection_store (e # es) n \<longleftrightarrow>
     entry_name e = n \<and> entry_kind e = Regular \<and> extension n \<in> {''.json'', ''.jsonc''} \<or> connection_store es n"
  by (cases e) (auto simp: connection_store_def)

lemma scan_names_found:
  assumes "scan_names read dir target candidate key es = Inr msg" "msg \<noteq> []"
  shows "\<exists>n other. connection_store es n \<and> lexically_normal (path_join dir n) \<noteq> lexically_normal target \<and>
    read (path_join dir n) = Some other \<and> conflict_with candidate key other = Inr (Some msg)"
  using assms
proof (induction es)
  case (Cons e rest)
  then show ?case
    by (auto simp: Let_def connection_store_Cons split: file_kind.splits option.splits sum.splits if_splits)
qed simp

lemma connection_path:
  assumes "file_name n"
  shows "path_join (path_join base ''connections'') n = path_join base ''connections'' @ CHR ''/'' # n"
    and "path_join base (''connections/'' @ n) = path_join base ''connections'' @ CHR ''/'' # n"
proof -
  have n: "n \<noteq> []" "hd n \<noteq> CHR ''/''" using assms by (cases n; simp add: file_name_def; blast)+
  have "path_join base ''connections'' = base @ ''connections'' \<or>
      path_join base ''connections'' = (base @ ''/'') @ ''connections''" by (simp add: path_join_def)
  then obtain q where q: "path_join base ''connections'' = q @ ''connections''" by blast
  show "path_join (path_join base ''connections'') n = path_join base ''connections'' @ CHR ''/'' # n"
    unfolding q using n by (simp add: path_join_def)
  show "path_join base (''connections/'' @ n) = path_join base ''connections'' @ CHR ''/'' # n"
    by (simp add: path_join_def)
qed

text \<open>The directory after the candidate was written to file \<open>n\<close>.\<close>

definition after_save :: "string \<Rightarrow> dir_entry list \<Rightarrow> dir_entry list" where
  "after_save n es = \<lparr>entry_name = n, entry_kind = Regular\<rparr> # filter (\<lambda>e. entry_name e \<noteq> n) es"

lemma connection_store_after_save:
  "connection_store (after_save n es) m \<Longrightarrow> m = n \<or> connection_store es m"
  by (auto simp: connection_store_def after_save_def)

lemma same_name_sym: "same_name j k \<longleftrightarrow> same_name k j"
  unfolding same_name_def by metis

lemma same_id_sym: "same_id j k \<longleftrightarrow> same_id k j"
  by (auto simp: same_id_def)

text \<open>
  C36. A save that passes the name check keeps names unique: if no two connections with different
  ids share a name (compared trimmed and in lower case, the id standing in for a blank
  description), the same holds after the candidate is written. The check refuses only a name that
  another connection's file really has.
\<close>

theorem saved_names_stay_unique:
  fixes base :: string
  defines "dir \<equiv> path_join base ''connections''"
  assumes "disk dir = Listing es" "\<forall>e \<in> set es. file_name (entry_name e)" "file_name n"
    and "names_unique read dir es"
    and "connection_name_conflict read disk candidate base (''connections/'' @ n) = Inr msg"
  shows "(msg = [] \<longrightarrow> names_unique (read(path_join dir n := Some candidate)) dir (after_save n es)) \<and>
    (msg \<noteq> [] \<longrightarrow> (\<exists>m other. m \<noteq> n \<and> connection_store es m \<and> read (path_join dir m) = Some other \<and>
       same_name candidate other \<and> \<not> same_id candidate other))"
proof -
  obtain name where name: "connection_friendly_name candidate = Inr name"
    using assms(6) by (auto simp: connection_name_conflict_def rbind_Inr)
  let ?key = "connection_name_key name" and ?target = "path_join base (''connections/'' @ n)"
  have scan: "scan_names read dir ?target candidate ?key es = Inr msg"
    using assms(2,6) name by (simp add: connection_name_conflict_def Let_def dir_def lift_json_def)
  have stored: "file_name m" if "connection_store es m" for m
    using that assms(3) by (auto simp: connection_store_def)
  have path: "path_join dir m = path_join dir m' \<longleftrightarrow> m = m'"
    "lexically_normal (path_join dir m) = lexically_normal ?target \<longleftrightarrow> m = n"
    if "file_name m" "file_name m'" for m m'
    unfolding dir_def connection_path(1) [OF that(1)] connection_path(1) [OF that(2)] connection_path(2) [OF assms(4)]
    using same_directory_normal [OF that(1) assms(4)] by simp_all
  have free: "\<not> same_name candidate other \<or> same_id candidate other"
    if "msg = []" "connection_store es m" "m \<noteq> n" "read (path_join dir m) = Some other" for m other
    using scan_names_none [OF name refl that(2) _ scan [unfolded that(1)]] that path(2) [OF stored stored]
      conflict_with_None [OF _ name refl] by force
  have "names_unique (read(path_join dir n := Some candidate)) dir (after_save n es)" if msg: "msg = []"
    unfolding names_unique_def
  proof (intro allI impI)
    fix m m' j k
    let ?read = "read(path_join dir n := Some candidate)"
    assume "connection_store (after_save n es) m" "connection_store (after_save n es) m'"
    then have st: "m = n \<or> connection_store es m" "m' = n \<or> connection_store es m'"
      by (auto dest: connection_store_after_save)
    assume r: "?read (path_join dir m) = Some j" "?read (path_join dir m') = Some k" and same: "same_name j k"
    have j: "if m = n then j = candidate else read (path_join dir m) = Some j"
      using r(1) st(1) path(1) [OF stored assms(4), of m] by (auto split: if_splits)
    have k: "if m' = n then k = candidate else read (path_join dir m') = Some k"
      using r(2) st(2) path(1) [OF stored assms(4), of m'] by (auto split: if_splits)
    show "same_id j k"
    proof (cases "m = n \<or> m' = n")
      case True
      then consider "m = n" "m' = n" | "m = n" "m' \<noteq> n" | "m \<noteq> n" "m' = n" by blast
      then show ?thesis
      proof cases
        case 1
        then show ?thesis using j k by (simp add: same_id_def)
      next
        case 2
        then show ?thesis using free [OF msg, of m' k] j k st(2) same by simp
      next
        case 3
        then show ?thesis
          using free [OF msg, of m j] j k st(1) same same_name_sym [of j k] same_id_sym [of j k] by simp
      qed
    next
      case False
      then show ?thesis using j k st same assms(5) unfolding names_unique_def by auto
    qed
  qed
  moreover have "\<exists>m other. m \<noteq> n \<and> connection_store es m \<and> read (path_join dir m) = Some other \<and>
      same_name candidate other \<and> \<not> same_id candidate other" if ne: "msg \<noteq> []"
  proof -
    obtain m other where m: "connection_store es m" "lexically_normal (path_join dir m) \<noteq> lexically_normal ?target"
      "read (path_join dir m) = Some other" "conflict_with candidate ?key other = Inr (Some msg)"
      using scan_names_found [OF scan ne] by blast
    with path(2) [OF stored stored, OF m(1) m(1)] conflict_with_Some [OF m(4) name refl] show ?thesis by blast
  qed
  ultimately show ?thesis by blast
qed

definition demo_plc :: "string \<Rightarrow> string \<Rightarrow> json" where
  "demo_plc i name = JObj [(''id'', JStr i), (''description'', JStr name)]"

definition demo_dir :: "string \<Rightarrow> directory" where
  "demo_dir p = Listing [\<lparr>entry_name = ''a.json'', entry_kind = Regular\<rparr>]"

lemma demo_friendly: "connection_friendly_name (demo_plc i ''Pump'') = Inr ''Pump''"
  "connection_friendly_name (demo_plc i '' pump'') = Inr '' pump''"
  "connection_name_key ''Pump'' = ''pump''" "connection_name_key '' pump'' = ''pump''"
  by code_simp+

theorem saved_names_stay_unique_witness:
  "\<exists>m other. m \<noteq> ''b.json'' \<and>
     connection_store [\<lparr>entry_name = ''a.json'', entry_kind = Regular\<rparr>] m \<and> same_name (demo_plc ''2'' '' pump'') other"
proof -
  let ?read = "\<lambda>p :: string. Some (demo_plc ''1'' ''Pump'')"
  let ?es = "[\<lparr>entry_name = ''a.json'', entry_kind = Regular\<rparr>]"
  have files: "\<forall>e \<in> set ?es. file_name (entry_name e)" "file_name ''b.json''" by (simp_all add: file_name_def)
  have ext: "extension ''a.json'' = ''.json''"
    by (simp add: extension_def has_extension_def last_part_def)
  have ne: "lexically_normal (path_join (path_join ''cfg'' ''connections'') ''a.json'') \<noteq>
      lexically_normal (path_join ''cfg'' (''connections/'' @ ''b.json''))"
    using connection_path(1) [of "''a.json''" "''cfg''"] connection_path(2) [of "''b.json''" "''cfg''"]
      same_directory_normal [of "''a.json''" "''b.json''" "path_join ''cfg'' ''connections''"]
    by (simp add: file_name_def)
  have u: "names_unique ?read (path_join ''cfg'' ''connections'') ?es"
    by (simp add: names_unique_def same_id_def)
  have with1: "conflict_with (demo_plc ''2'' '' pump'') ''pump'' (demo_plc ''1'' ''Pump'') =
      Inr (Some (conflict_message '' pump''))"
    unfolding conflict_with_def demo_friendly lift_json_def by (simp add: demo_plc_def jvalue_def demo_friendly)
  have c: "connection_name_conflict ?read demo_dir (demo_plc ''2'' '' pump'') ''cfg'' (''connections/'' @ ''b.json'') =
      Inr (conflict_message '' pump'')"
    using ne with1 by (simp add: connection_name_conflict_def demo_friendly lift_json_def demo_dir_def Let_def ext)
  have "conflict_message '' pump'' \<noteq> []" by (simp add: conflict_message_def)
  then show ?thesis
    using saved_names_stay_unique [OF _ files u c] by (simp add: demo_dir_def del: path_join_def) blast
qed

section \<open>Deleting a connection's tag files\<close>

lemma owned_files_set:
  assumes "owned_files read dir cid es = Inr names"
  shows "set names = {n. \<lparr>entry_name = n, entry_kind = Regular\<rparr> \<in> set es \<and> owned_file read dir cid n}"
  using assms
proof (induction es arbitrary: names)
  case (Cons e rest)
  obtain n kind where e: "e = \<lparr>entry_name = n, entry_kind = kind\<rparr>" by (cases e)
  from Cons show ?case by (cases kind) (auto simp: e rbind_Inr split: if_splits)
qed simp

lemma remove_files_gone:
  "set (snd (remove_files fails dir names)) \<subseteq> set names \<and>
   (fst (remove_files fails dir names) = Inr () \<longrightarrow> snd (remove_files fails dir names) = names) \<and>
   (fst (remove_files fails dir names) \<noteq> Inr () \<longrightarrow>
      (\<exists>n rest msg. names = snd (remove_files fails dir names) @ n # rest \<and> fails (path_join dir n) = Some msg))"
proof (induction names)
  case (Cons n names)
  show ?case
  proof (cases "fails (path_join dir n)")
    case None
    obtain r gone where r: "remove_files fails dir names = (r, gone)" by (cases "remove_files fails dir names")
    from Cons None r show ?thesis by (cases r) auto
  next
    case (Some msg)
    then show ?thesis by auto
  qed
qed simp

text \<open>
  Deleting a connection removes exactly its own tag files: on success, every regular
  .json or .jsonc file (or .bak of one) whose content names the connection and every malformed one
  whose name is the connection's canonical name; never a readable file that names another
  connection. If a deletion fails, the files before it are gone and the error is returned; if the
  directory cannot be scanned, nothing is removed.
\<close>

theorem cleanup_removes_exactly_owned:
  fixes dir :: string
  assumes "disk dir = Listing es"
  shows "let (r, gone) = remove_connection_tag_files read disk fails dir cid in
    (r = Inr () \<longrightarrow> set gone = {n. \<lparr>entry_name = n, entry_kind = Regular\<rparr> \<in> set es \<and> owned_file read dir cid n}) \<and>
    (\<forall>n c. claimed_connection (read (path_join dir n)) = Some c \<and> c \<noteq> cid \<longrightarrow> n \<notin> set gone) \<and>
    (\<forall>m. r = Inl (DeleteError m) \<longrightarrow> (\<exists>n msg. owned_file read dir cid n \<and> fails (path_join dir n) = Some msg)) \<and>
    ((\<exists>e \<in> set es. entry_kind e = StatFails) \<longrightarrow> r = Inl FilesystemError \<and> gone = [])"
proof -
  have stat: "owned_files read dir cid es = Inl FilesystemError" if "\<exists>e \<in> set es. entry_kind e = StatFails"
    using that by (induction es) (auto simp: rbind_Inl_iff split: file_kind.splits)
  show ?thesis
  proof (cases "owned_files read dir cid es")
    case (Inl err)
    have "err = FilesystemError" using Inl by (induction es) (auto simp: rbind_Inl_iff split: file_kind.splits)
    with Inl show ?thesis using assms by (simp add: remove_connection_tag_files_def)
  next
    case (Inr names)
    note own = owned_files_set [OF Inr]
    have other: "n \<notin> set names" if "claimed_connection (read (path_join dir n)) = Some c" "c \<noteq> cid" for n c
      using that own by (auto simp: owned_file_def Let_def)
    have failing: "\<exists>n msg. owned_file read dir cid n \<and> fails (path_join dir n) = Some msg"
      if bad: "fst (remove_files fails dir names) \<noteq> Inr ()"
    proof -
      obtain n rest msg where "names = snd (remove_files fails dir names) @ n # rest"
        "fails (path_join dir n) = Some msg"
        using remove_files_gone [of fails dir names] bad by blast
      then have "n \<in> set names" by (metis in_set_conv_decomp)
      with own \<open>fails (path_join dir n) = Some msg\<close> show ?thesis by blast
    qed
    show ?thesis
      using remove_files_gone [of fails dir names] own other failing stat Inr assms
      by (cases "remove_files fails dir names") (auto simp: remove_connection_tag_files_def)
  qed
qed

theorem cleanup_removes_exactly_owned_witness:
  "''a.json'' \<notin> set (snd (remove_connection_tag_files (\<lambda>p. Some (JObj [(''connection_id'', JStr ''plc2'')]))
      demo_dir (\<lambda>p. None) ''tags'' ''plc1''))"
proof -
  let ?read = "\<lambda>p :: string. Some (JObj [(''connection_id'', JStr ''plc2'')])"
  have d: "demo_dir ''tags'' = Listing [\<lparr>entry_name = ''a.json'', entry_kind = Regular\<rparr>]" by (simp add: demo_dir_def)
  have "claimed_connection (?read p) = Some ''plc2''" for p by (simp add: claimed_connection_def jvalue_def)
  then show ?thesis
    using cleanup_removes_exactly_owned [where disk = demo_dir, OF d, of ?read "\<lambda>p. None" "''plc1''"]
    by (auto simp: Let_def split: prod.splits)
qed

end
