(* ===== verification/AutomationDeps.thy ===== *)
theory AutomationDeps
  imports OrderedMap
begin

text \<open>
  automation\_dependencies.h: the lexical proof of which tags an automation script reads. The
  tokenizer, the delimiter stack and the scan over the tokens; an index into the source is the rest
  of the source from there.
\<close>

section \<open>AutomationDependencies\<close>

record deps =
  is_complete :: bool
  reason :: string
  reads :: "(string \<times> string) set"

definition new_deps :: deps where
  "new_deps = \<lparr>is_complete = True, reason = ''literal_dependencies'', reads = {}\<rparr>"

definition uncertain :: "string \<Rightarrow> deps \<Rightarrow> deps" where
  "uncertain why d = (if is_complete d then d\<lparr>reason := why, is_complete := False\<rparr> else d)"

record token =
  tok_text :: string
  tok_literal :: bool
  tok_escaped :: bool

section \<open>Tokens\<close>

definition backslash :: char where
  "backslash = CHR 0x5C"

definition quote_chars :: "char set" where
  "quote_chars = {CHR 0x27, CHR 0x22}"

definition ident_start :: "char \<Rightarrow> bool" where
  "ident_start c \<longleftrightarrow> is_alpha c \<or> c = CHR ''_'' \<or> c = CHR ''$''"

definition ident_char :: "char \<Rightarrow> bool" where
  "ident_char c \<longleftrightarrow> is_alnum c \<or> c = CHR ''_'' \<or> c = CHR ''$''"

definition number_char :: "char \<Rightarrow> bool" where
  "number_char c \<longleftrightarrow> is_digit c \<or> c = CHR ''.''"

text \<open>\<open>source.find("*/")\<close>: the rest after the comment's end, if there is one.\<close>

fun after_comment :: "string \<Rightarrow> string option" where
  "after_comment (a # b # s) = (if a = CHR ''*'' \<and> b = CHR ''/'' then Some s else after_comment (b # s))"
| "after_comment _ = None"

text \<open>
  A string literal after its opening quote: its text, whether it holds an escape, whether it holds
  a line break, and the rest of the source; the rest is \<open>None\<close> if it is not closed.
\<close>

fun scan_string :: "char \<Rightarrow> string \<Rightarrow> string \<times> bool \<times> bool \<times> string option" where
  "scan_string q [] = ([], False, False, None)"
| "scan_string q (c # s) =
     (if c = q then ([], False, False, Some s)
      else if c = backslash then
        (case s of
           [] \<Rightarrow> ([], True, False, None)
         | d # s' \<Rightarrow> (case scan_string q s' of (body, esc, ml, rest) \<Rightarrow> (c # d # body, True, ml, rest)))
      else (case scan_string q s of
          (body, esc, ml, rest) \<Rightarrow> (c # body, esc, ml \<or> c = CHR 0x0A \<or> c = CHR 0x0D, rest)))"

definition unsupported_char :: "char \<Rightarrow> bool" where
  "unsupported_char c \<longleftrightarrow> c \<in> {CHR ''`'', CHR ''['', CHR '']'', CHR ''.'', backslash, CHR ''/''} \<or> code c \<ge> 128"

text \<open>One delimiter on the stack of open ones; a mismatch leaves the stack alone.\<close>

definition push_delimiter :: "char \<Rightarrow> char list \<Rightarrow> deps \<Rightarrow> char list \<times> deps" where
  "push_delimiter c stack d =
     (let stack1 = (if c = CHR ''('' \<or> c = CHR ''{'' then c # stack else stack) in
      if c = CHR '')'' \<or> c = CHR ''}'' then
        let expected = (if c = CHR '')'' then CHR ''('' else CHR ''{'') in
        (case stack1 of
           [] \<Rightarrow> (stack1, uncertain ''unbalanced_delimiters'' d)
         | t # ts \<Rightarrow> if t \<noteq> expected then (stack1, uncertain ''unbalanced_delimiters'' d) else (ts, d))
      else (stack1, d))"

lemma after_comment_length: "after_comment s = Some r \<Longrightarrow> length r < length s"
  by (induction s rule: after_comment.induct) (auto split: if_splits)

lemma scan_string_length: "scan_string q s = (body, esc, ml, Some r) \<Longrightarrow> length r < length s"
  by (induction q s arbitrary: body esc ml rule: scan_string.induct)
     (fastforce split: if_splits list.splits prod.splits)+

text \<open>The tokenizer; \<open>None\<close> in place of the tokens is one of its early returns.\<close>

function tokenize :: "string \<Rightarrow> char list \<Rightarrow> token list \<Rightarrow> deps \<Rightarrow> token list option \<times> deps" where
  "tokenize [] stack acc d =
     (Some (rev acc), if stack \<noteq> [] then uncertain ''unbalanced_delimiters'' d else d)"
| "tokenize (ch # s) stack acc d =
     (if is_space ch then tokenize s stack acc d
      else if ch = CHR ''/'' \<and> s \<noteq> [] \<and> hd s = CHR ''/''
      then tokenize (dropWhile (\<lambda>c. c \<noteq> CHR 0x0A) s) stack acc d
      else if ch = CHR ''/'' \<and> s \<noteq> [] \<and> hd s = CHR ''*'' then
        (case after_comment (tl s) of
           None \<Rightarrow> (None, uncertain ''unterminated_comment'' d)
         | Some rest \<Rightarrow> tokenize rest stack acc d)
      else if ch \<in> quote_chars then
        (case scan_string ch s of
           (body, esc, ml, rest) \<Rightarrow>
             let d1 = (if ml then uncertain ''multiline_string'' d else d) in
             (case rest of
                None \<Rightarrow> (None, uncertain ''unterminated_string'' d1)
              | Some r \<Rightarrow> tokenize r stack (\<lparr>tok_text = body, tok_literal = True, tok_escaped = esc\<rparr> # acc) d1))
      else if ident_start ch then
        tokenize (dropWhile ident_char s) stack
          (\<lparr>tok_text = ch # takeWhile ident_char s, tok_literal = False, tok_escaped = False\<rparr> # acc) d
      else if is_digit ch then
        tokenize (dropWhile number_char s) stack
          (\<lparr>tok_text = ch # takeWhile number_char s, tok_literal = False, tok_escaped = False\<rparr> # acc) d
      else
        let d1 = (if unsupported_char ch then uncertain ''unsupported_syntax'' d else d) in
        (case push_delimiter ch stack d1 of
           (stack2, d2) \<Rightarrow> tokenize s stack2 (\<lparr>tok_text = [ch], tok_literal = False, tok_escaped = False\<rparr> # acc) d2))"
  by pat_completeness auto
termination
  by (relation "measure (\<lambda>(s, stack, acc, d). length s)")
     (auto simp: le_imp_less_Suc length_dropWhile_le dest!: after_comment_length scan_string_length [OF sym] split: if_splits)

declare tokenize.simps [simp del]

section \<open>The scan over the tokens\<close>

definition pure_functions :: "string set" where
  "pure_functions = {''json'', ''hasjson'', ''jsonobj'', ''jsonset'', ''jsonarray'',
     ''str'', ''num'', ''number'', ''bool'', ''concat'', ''lower'', ''upper'', ''trim'', ''contains'',
     ''startswith'', ''endswith'', ''bit'', ''bits'', ''map'', ''clamp'', ''round'', ''min'', ''max''}"

definition unsupported_words :: "string set" where
  "unsupported_words = {''function'', ''class'', ''new'', ''eval'', ''while'', ''for'', ''import'', ''yield'', ''await''}"

definition helpers :: "string set" where
  "helpers = {''tag'', ''quality'', ''hastag'', ''settag''}"

definition is_punct :: "string \<Rightarrow> token \<Rightarrow> bool" where
  "is_punct s t \<longleftrightarrow> \<not> tok_literal t \<and> tok_text t = s"

definition plain_literal :: "token \<Rightarrow> bool" where
  "plain_literal t \<longleftrightarrow> tok_literal t \<and> \<not> tok_escaped t"

text \<open>The five tokens after a helper's name: \<open>( "connection" , "tag" )\<close>, or a comma after setTag's.\<close>

definition literal_call :: "string \<Rightarrow> token list \<Rightarrow> bool" where
  "literal_call name rest \<longleftrightarrow> 5 \<le> length rest \<and> plain_literal (rest ! 1) \<and> is_punct '','' (rest ! 2) \<and>
     plain_literal (rest ! 3) \<and> is_punct (if name = ''settag'' then '','' else '')'') (rest ! 4)"

definition scan_token :: "token \<Rightarrow> token list \<Rightarrow> deps \<Rightarrow> deps" where
  "scan_token t rest d =
     (if tok_literal t then d
      else
        let name = map to_lower (tok_text t);
            d1 = (if name \<in> unsupported_words then uncertain ''unsupported_construct'' d else d);
            call = (rest \<noteq> [] \<and> is_punct ''('' (hd rest));
            helper = (name \<in> helpers)
        in if helper \<and> \<not> call then uncertain ''indirect_tag_helper'' d1
           else if \<not> call \<or> name = [] \<or> \<not> ident_start (hd name) then d1
           else if name = ''if'' \<or> name \<in> pure_functions then d1
           else if \<not> helper then uncertain ''unknown_function'' d1
           else if \<not> literal_call name rest then uncertain ''dynamic_or_escaped_tag_reference'' d1
           else
             let cid = tok_text (rest ! 1); tag = tok_text (rest ! 3) in
             if cid = [] \<or> tag = [] then uncertain ''empty_tag_reference'' d1
             else if (name = ''tag'' \<or> name = ''quality'') \<and> cid \<noteq> ''_system''
             then d1\<lparr>reads := insert (cid, tag) (reads d1)\<rparr>
             else d1)"

fun scan_tokens :: "token list \<Rightarrow> deps \<Rightarrow> deps" where
  "scan_tokens [] d = d"
| "scan_tokens (t # rest) d = scan_tokens rest (scan_token t rest d)"

definition automation_read_dependencies :: "string \<Rightarrow> deps" where
  "automation_read_dependencies source =
     (case tokenize source [] [] new_deps of
        (None, d) \<Rightarrow> d
      | (Some tokens, d) \<Rightarrow> scan_tokens tokens d)"

section \<open>What the scan decides\<close>

definition token_name :: "token \<Rightarrow> string" where
  "token_name t = map to_lower (tok_text t)"

text \<open>The tokens of a call \<open>tag("c", "n")\<close> or \<open>quality("c", "n")\<close>.\<close>

definition read_call :: "token list \<Rightarrow> string \<Rightarrow> string \<Rightarrow> bool" where
  "read_call ts c n \<longleftrightarrow> (\<exists>pre t p1 a p2 b p3 post. ts = pre @ [t, p1, a, p2, b, p3] @ post \<and>
     \<not> tok_literal t \<and> token_name t \<in> {''tag'', ''quality''} \<and>
     is_punct ''('' p1 \<and> plain_literal a \<and> tok_text a = c \<and> is_punct '','' p2 \<and>
     plain_literal b \<and> tok_text b = n \<and> is_punct '')'' p3)"

definition known_reads :: "token list \<Rightarrow> (string \<times> string) set" where
  "known_reads ts = {(c, n). read_call ts c n \<and> c \<noteq> [] \<and> n \<noteq> [] \<and> c \<noteq> ''_system''}"

lemma uncertain_simps [simp]: "\<not> is_complete (uncertain why d)" "reads (uncertain why d) = reads d"
  by (simp_all add: uncertain_def)

lemma five: "5 \<le> length xs \<Longrightarrow> \<exists>a b c d e ys. xs = a # b # c # d # e # ys"
  by (auto simp: numeral_eq_Suc Suc_le_length_iff)

definition read_head :: "token \<Rightarrow> token list \<Rightarrow> string \<Rightarrow> string \<Rightarrow> bool" where
  "read_head t rest c n \<longleftrightarrow> (\<exists>p1 a p2 b p3 post. rest = [p1, a, p2, b, p3] @ post \<and>
     \<not> tok_literal t \<and> token_name t \<in> {''tag'', ''quality''} \<and>
     is_punct ''('' p1 \<and> plain_literal a \<and> tok_text a = c \<and> is_punct '','' p2 \<and>
     plain_literal b \<and> tok_text b = n \<and> is_punct '')'' p3)"

lemma read_call_Cons: "read_call (t # rest) c n \<longleftrightarrow> read_head t rest c n \<or> read_call rest c n"
proof
  assume "read_call (t # rest) c n"
  then obtain pre t' p1 a p2 b p3 post where ts: "t # rest = pre @ [t', p1, a, p2, b, p3] @ post"
    and facts: "\<not> tok_literal t'" "token_name t' \<in> {''tag'', ''quality''}" "is_punct ''('' p1" "plain_literal a"
      "tok_text a = c" "is_punct '','' p2" "plain_literal b" "tok_text b = n" "is_punct '')'' p3"
    unfolding read_call_def by blast
  show "read_head t rest c n \<or> read_call rest c n"
  proof (cases pre)
    case Nil
    with ts facts show ?thesis unfolding read_head_def by auto
  next
    case (Cons x pre')
    with ts have "rest = pre' @ [t', p1, a, p2, b, p3] @ post" by simp
    with facts show ?thesis unfolding read_call_def by blast
  qed
next
  assume "read_head t rest c n \<or> read_call rest c n"
  then show "read_call (t # rest) c n"
  proof
    assume "read_head t rest c n"
    then obtain p1 a p2 b p3 post where "t # rest = [] @ [t, p1, a, p2, b, p3] @ post"
      "\<not> tok_literal t" "token_name t \<in> {''tag'', ''quality''}" "is_punct ''('' p1" "plain_literal a"
      "tok_text a = c" "is_punct '','' p2" "plain_literal b" "tok_text b = n" "is_punct '')'' p3"
      unfolding read_head_def by auto
    then show ?thesis unfolding read_call_def by blast
  next
    assume "read_call rest c n"
    then show ?thesis unfolding read_call_def by (metis append_Cons)
  qed
qed

lemma helper_start: "name \<in> helpers \<Longrightarrow> name \<noteq> [] \<and> ident_start (hd name)"
  by (auto simp: helpers_def ident_start_def is_alpha_def is_lower_def is_upper_def code_def)

lemma helper_not_pure: "name \<in> helpers \<Longrightarrow> name \<noteq> ''if'' \<and> name \<notin> pure_functions"
  by (auto simp: helpers_def pure_functions_def)

lemma literal_call_iff:
  "rest \<noteq> [] \<and> is_punct ''('' (hd rest) \<and> literal_call name rest \<longleftrightarrow>
     (\<exists>p1 a p2 b p3 post. rest = [p1, a, p2, b, p3] @ post \<and> is_punct ''('' p1 \<and> plain_literal a \<and>
        is_punct '','' p2 \<and> plain_literal b \<and> is_punct (if name = ''settag'' then '','' else '')'') p3)"
  (is "?l \<longleftrightarrow> ?r")
proof
  assume l: ?l
  then obtain p1 a p2 b p3 post where "rest = p1 # a # p2 # b # p3 # post"
    using five [of rest] by (auto simp: literal_call_def)
  with l show ?r by (simp add: literal_call_def numeral_eq_Suc)
next
  assume ?r
  then show ?l by (auto simp: literal_call_def numeral_eq_Suc)
qed

lemma read_head_iff:
  "read_head t rest c n \<longleftrightarrow> \<not> tok_literal t \<and> token_name t \<in> {''tag'', ''quality''} \<and> rest \<noteq> [] \<and>
     is_punct ''('' (hd rest) \<and> literal_call (token_name t) rest \<and> tok_text (rest ! 1) = c \<and> tok_text (rest ! 3) = n"
  (is "?l \<longleftrightarrow> ?r")
proof
  assume ?l
  then show ?r by (auto simp: read_head_def literal_call_def numeral_eq_Suc)
next
  assume r: ?r
  then have "rest \<noteq> [] \<and> is_punct ''('' (hd rest) \<and> literal_call (token_name t) rest" by blast
  then obtain p1 a p2 b p3 post where rest: "rest = [p1, a, p2, b, p3] @ post" "is_punct ''('' p1" "plain_literal a"
    "is_punct '','' p2" "plain_literal b" "is_punct (if token_name t = ''settag'' then '','' else '')'') p3"
    unfolding literal_call_iff by blast
  moreover have "token_name t \<noteq> ''settag''" using r by auto
  ultimately show ?l using r unfolding read_head_def by (auto simp: numeral_eq_Suc)
qed

lemma scan_token_reads:
  "reads (scan_token t rest d) =
     reads d \<union> {(c, n). read_head t rest c n \<and> c \<noteq> [] \<and> n \<noteq> [] \<and> c \<noteq> ''_system''}"
proof -
  have "token_name t \<in> {''tag'', ''quality''} \<Longrightarrow> token_name t \<in> helpers" by (auto simp: helpers_def)
  then show ?thesis
    using helper_start [of "token_name t"] helper_not_pure [of "token_name t"]
    by (auto simp: scan_token_def token_name_def [symmetric] Let_def read_head_iff)
qed

lemma scan_tokens_reads: "reads (scan_tokens ts d) = reads d \<union> known_reads ts"
proof (induction ts d rule: scan_tokens.induct)
  case (1 d)
  then show ?case by (auto simp: known_reads_def read_call_def)
next
  case (2 t rest d)
  then show ?case by (auto simp: scan_token_reads known_reads_def read_call_Cons)
qed

definition supported :: "token \<Rightarrow> token list \<Rightarrow> bool" where
  "supported t rest \<longleftrightarrow> tok_literal t \<or>
     (let name = token_name t; call = (rest \<noteq> [] \<and> is_punct ''('' (hd rest)) in
      name \<notin> unsupported_words \<and> (name \<in> helpers \<longrightarrow> call) \<and>
      (call \<and> name \<noteq> [] \<and> ident_start (hd name) \<longrightarrow> name = ''if'' \<or> name \<in> pure_functions \<or>
         name \<in> helpers \<and> literal_call name rest \<and> tok_text (rest ! 1) \<noteq> [] \<and> tok_text (rest ! 3) \<noteq> []))"

lemma scan_token_complete: "is_complete (scan_token t rest d) \<longleftrightarrow> is_complete d \<and> supported t rest"
  using helper_start [of "token_name t"] helper_not_pure [of "token_name t"]
  by (auto simp: scan_token_def supported_def token_name_def [symmetric] Let_def)

lemma scan_tokens_complete:
  "is_complete (scan_tokens ts d) \<Longrightarrow> is_complete d \<and> (\<forall>pre t rest. ts = pre @ t # rest \<longrightarrow> supported t rest)"
proof (induction ts d rule: scan_tokens.induct)
  case (2 t rest d)
  then have "is_complete d" "supported t rest" and IH: "\<forall>pre t' rest'. rest = pre @ t' # rest' \<longrightarrow> supported t' rest'"
    by (simp_all add: scan_token_complete)
  then show ?case by (auto simp: Cons_eq_append_conv)
qed simp

lemma push_delimiter_reads [simp]: "push_delimiter c st d = (st', d') \<Longrightarrow> reads d' = reads d"
  by (auto simp: push_delimiter_def Let_def split: if_splits list.splits)

definition line_comment :: "char \<Rightarrow> string \<Rightarrow> bool" where
  "line_comment ch s \<longleftrightarrow> ch = CHR ''/'' \<and> s \<noteq> [] \<and> hd s = CHR ''/''"

definition block_comment :: "char \<Rightarrow> string \<Rightarrow> bool" where
  "block_comment ch s \<longleftrightarrow> ch = CHR ''/'' \<and> s \<noteq> [] \<and> hd s = CHR ''*''"

lemma tok_space: "is_space ch \<Longrightarrow> tokenize (ch # s) stack acc d = tokenize s stack acc d"
  by (subst tokenize.simps) (simp only: if_True)

lemma tok_line: "\<not> is_space ch \<Longrightarrow> line_comment ch s \<Longrightarrow>
    tokenize (ch # s) stack acc d = tokenize (dropWhile (\<lambda>c. c \<noteq> CHR 0x0A) s) stack acc d"
  by (subst tokenize.simps) (simp only: line_comment_def if_True if_False simp_thms)

lemma tok_block: "\<not> is_space ch \<Longrightarrow> \<not> line_comment ch s \<Longrightarrow> block_comment ch s \<Longrightarrow>
    tokenize (ch # s) stack acc d = (case after_comment (tl s) of
        None \<Rightarrow> (None, uncertain ''unterminated_comment'' d) | Some rest \<Rightarrow> tokenize rest stack acc d)"
  by (subst tokenize.simps) (simp only: line_comment_def [symmetric] block_comment_def [symmetric] if_True if_False)

lemma tok_quote: "\<not> is_space ch \<Longrightarrow> \<not> line_comment ch s \<Longrightarrow> \<not> block_comment ch s \<Longrightarrow> ch \<in> quote_chars \<Longrightarrow>
    scan_string ch s = (body, esc, ml, rest) \<Longrightarrow>
    tokenize (ch # s) stack acc d =
      (let d1 = (if ml then uncertain ''multiline_string'' d else d) in
       case rest of None \<Rightarrow> (None, uncertain ''unterminated_string'' d1)
       | Some r \<Rightarrow> tokenize r stack (\<lparr>tok_text = body, tok_literal = True, tok_escaped = esc\<rparr> # acc) d1)"
  by (subst tokenize.simps)
     (simp only: line_comment_def [symmetric] block_comment_def [symmetric] if_True if_False prod.case)

lemma tok_ident: "\<not> is_space ch \<Longrightarrow> \<not> line_comment ch s \<Longrightarrow> \<not> block_comment ch s \<Longrightarrow> ch \<notin> quote_chars \<Longrightarrow>
    ident_start ch \<Longrightarrow>
    tokenize (ch # s) stack acc d = tokenize (dropWhile ident_char s) stack
      (\<lparr>tok_text = ch # takeWhile ident_char s, tok_literal = False, tok_escaped = False\<rparr> # acc) d"
  by (subst tokenize.simps) (simp only: line_comment_def [symmetric] block_comment_def [symmetric] if_True if_False)

lemma tok_number: "\<not> is_space ch \<Longrightarrow> \<not> line_comment ch s \<Longrightarrow> \<not> block_comment ch s \<Longrightarrow> ch \<notin> quote_chars \<Longrightarrow>
    \<not> ident_start ch \<Longrightarrow> is_digit ch \<Longrightarrow>
    tokenize (ch # s) stack acc d = tokenize (dropWhile number_char s) stack
      (\<lparr>tok_text = ch # takeWhile number_char s, tok_literal = False, tok_escaped = False\<rparr> # acc) d"
  by (subst tokenize.simps) (simp only: line_comment_def [symmetric] block_comment_def [symmetric] if_True if_False)

lemma tok_other: "\<not> is_space ch \<Longrightarrow> \<not> line_comment ch s \<Longrightarrow> \<not> block_comment ch s \<Longrightarrow> ch \<notin> quote_chars \<Longrightarrow>
    \<not> ident_start ch \<Longrightarrow> \<not> is_digit ch \<Longrightarrow>
    push_delimiter ch stack (if unsupported_char ch then uncertain ''unsupported_syntax'' d else d) = (st2, d2) \<Longrightarrow>
    tokenize (ch # s) stack acc d =
      tokenize s st2 (\<lparr>tok_text = [ch], tok_literal = False, tok_escaped = False\<rparr> # acc) d2"
  by (subst tokenize.simps)
     (simp only: line_comment_def [symmetric] block_comment_def [symmetric] if_True if_False Let_def prod.case)

lemmas tok_branches = tok_space tok_line tok_block tok_quote tok_ident tok_number tok_other

lemma tokenize_result:
  "reads (snd (tokenize s stack acc d)) = reads d \<and>
   (fst (tokenize s stack acc d) = None \<longrightarrow> \<not> is_complete (snd (tokenize s stack acc d)))"
proof (induction "length s" arbitrary: s stack acc d rule: less_induct)
  case less
  note ih = less.hyps
  show ?case
  proof (cases s)
    case Nil
    then show ?thesis by (simp add: tokenize.simps)
  next
    case (Cons ch s')
    have drop: "length (dropWhile P s') < length s" for P by (simp add: Cons le_imp_less_Suc length_dropWhile_le)
    have tail: "length s' < length s" by (simp add: Cons)
    consider "is_space ch" | "\<not> is_space ch" "line_comment ch s'"
      | "\<not> is_space ch" "\<not> line_comment ch s'" "block_comment ch s'"
      | "\<not> is_space ch" "\<not> line_comment ch s'" "\<not> block_comment ch s'" "ch \<in> quote_chars"
      | "\<not> is_space ch" "\<not> line_comment ch s'" "\<not> block_comment ch s'" "ch \<notin> quote_chars" "ident_start ch"
      | "\<not> is_space ch" "\<not> line_comment ch s'" "\<not> block_comment ch s'" "ch \<notin> quote_chars" "\<not> ident_start ch" "is_digit ch"
      | "\<not> is_space ch" "\<not> line_comment ch s'" "\<not> block_comment ch s'" "ch \<notin> quote_chars" "\<not> ident_start ch" "\<not> is_digit ch"
      by argo
    then show ?thesis
    proof cases
      case 1
      show ?thesis unfolding Cons tok_space [OF 1] by (rule ih [OF tail])
    next
      case 2
      show ?thesis unfolding Cons tok_line [OF 2] by (rule ih [OF drop])
    next
      case 3
      have r: "length r < length s" if "after_comment (tl s') = Some r" for r
        using after_comment_length [OF that] by (simp add: Cons)
      show ?thesis unfolding Cons tok_block [OF 3] using ih [OF r] by (cases "after_comment (tl s')") simp_all
    next
      case 4
      obtain body esc ml rest where sc: "scan_string ch s' = (body, esc, ml, rest)" by (cases "scan_string ch s'")
      have r: "length r < length s" if "rest = Some r" for r
        using scan_string_length [OF sc [unfolded that]] by (simp add: Cons)
      show ?thesis unfolding Cons tok_quote [OF 4 sc] using ih [OF r] by (cases rest) (simp_all add: Let_def)
    next
      case 5
      show ?thesis unfolding Cons tok_ident [OF 5] by (rule ih [OF drop])
    next
      case 6
      show ?thesis unfolding Cons tok_number [OF 6] by (rule ih [OF drop])
    next
      case 7
      let ?d = "if unsupported_char ch then uncertain ''unsupported_syntax'' d else d"
      obtain st2 d2 where pd: "push_delimiter ch stack ?d = (st2, d2)" by (cases "push_delimiter ch stack ?d")
      show ?thesis unfolding Cons tok_other [OF 7 pd] using ih [OF tail] push_delimiter_reads [OF pd] by auto
    qed
  qed
qed

lemmas tokenize_reads = tokenize_result [THEN conjunct1]
lemmas tokenize_incomplete = tokenize_result [THEN conjunct2, rule_format]

text \<open>
  C19. A complete verdict accounts for every read: the script was tokenized to its end, its
  recorded reads are exactly the literal tag() and quality() calls in it (the \<open>_system\<close> connection
  apart), every occurrence of those two names is such a call, no unsupported construct occurs, and
  every function called is a control keyword, a known pure function or a tag helper.
\<close>

theorem complete_means_every_read_known:
  assumes "is_complete (automation_read_dependencies source)"
  shows "\<exists>tokens d. tokenize source [] [] new_deps = (Some tokens, d) \<and>
    reads (automation_read_dependencies source) = known_reads tokens \<and>
    (\<forall>pre t rest. tokens = pre @ t # rest \<and> \<not> tok_literal t \<longrightarrow>
       token_name t \<notin> unsupported_words \<and>
       (token_name t \<in> {''tag'', ''quality''} \<longrightarrow> (\<exists>c n. read_head t rest c n \<and>
          (c = ''_system'' \<or> (c, n) \<in> reads (automation_read_dependencies source)))) \<and>
       (token_name t \<noteq> [] \<and> ident_start (hd (token_name t)) \<and> rest \<noteq> [] \<and> is_punct ''('' (hd rest) \<longrightarrow>
          token_name t = ''if'' \<or> token_name t \<in> pure_functions \<or> token_name t \<in> helpers))"
proof -
  obtain r d where l: "tokenize source [] [] new_deps = (r, d)" by (cases "tokenize source [] [] new_deps")
  then obtain tokens where r: "r = Some tokens"
    using assms tokenize_incomplete [of source "[]" "[]" new_deps] by (auto simp: automation_read_dependencies_def split: option.splits)
  have final: "automation_read_dependencies source = scan_tokens tokens d"
    using l r by (simp add: automation_read_dependencies_def)
  have "reads d = {}" using tokenize_reads [of source "[]" "[]" new_deps] l by (simp add: new_deps_def)
  then have reads: "reads (automation_read_dependencies source) = known_reads tokens"
    by (simp add: final scan_tokens_reads)
  have "supported t rest" if "tokens = pre @ t # rest" for pre t rest
    using scan_tokens_complete assms that unfolding final by blast
  then have each: "token_name t \<notin> unsupported_words \<and>
       (token_name t \<in> {''tag'', ''quality''} \<longrightarrow> (\<exists>c n. read_head t rest c n \<and>
          (c = ''_system'' \<or> (c, n) \<in> reads (automation_read_dependencies source)))) \<and>
       (token_name t \<noteq> [] \<and> ident_start (hd (token_name t)) \<and> rest \<noteq> [] \<and> is_punct ''('' (hd rest) \<longrightarrow>
          token_name t = ''if'' \<or> token_name t \<in> pure_functions \<or> token_name t \<in> helpers)"
    if ts: "tokens = pre @ t # rest" and lit: "\<not> tok_literal t" for pre t rest
  proof -
    have sup: "supported t rest" using ts \<open>\<And>rest pre t. tokens = pre @ t # rest \<Longrightarrow> supported t rest\<close> by blast
    have "\<exists>c n. read_head t rest c n \<and> c \<noteq> [] \<and> n \<noteq> []" if name: "token_name t \<in> {''tag'', ''quality''}"
    proof -
      have h: "token_name t \<in> helpers" using name by (auto simp: helpers_def)
      show ?thesis using sup lit h name helper_start [OF h] helper_not_pure [OF h]
        by (auto simp: supported_def Let_def read_head_iff)
    qed
    moreover have "read_call tokens c n" if "read_head t rest c n" for c n
    proof -
      have "read_call (t # rest) c n" using that by (simp add: read_call_Cons)
      then have "read_call (ps @ t # rest) c n" for ps by (induction ps) (simp_all add: read_call_Cons)
      then show ?thesis by (simp add: ts)
    qed
    ultimately have "token_name t \<in> {''tag'', ''quality''} \<longrightarrow> (\<exists>c n. read_head t rest c n \<and>
          (c = ''_system'' \<or> (c, n) \<in> reads (automation_read_dependencies source)))"
      unfolding reads known_reads_def by blast
    with sup lit show ?thesis by (auto simp: supported_def Let_def)
  qed
  show ?thesis using l reads each unfolding r by blast
qed

definition demo_script :: string where
  "demo_script = ''if (tag('' @ [CHR 0x27] @ ''plc'' @ [CHR 0x27, CHR '',''] @ [CHR 0x27] @ ''T'' @ [CHR 0x27] @ '')) x''"

theorem complete_means_every_read_known_witness:
  "reads (automation_read_dependencies demo_script) = known_reads (the (fst (tokenize demo_script [] [] new_deps)))"
proof -
  have "is_complete (automation_read_dependencies demo_script)" by code_simp
  from complete_means_every_read_known [OF this] show ?thesis by auto
qed

section \<open>Strings and comments are tokens\<close>

text \<open>The supported pieces of a script, and the text a writer gives them.\<close>

datatype piece =
    Word string
  | Num string
  | Quoted char string
  | Punct char
  | Blank char
  | LineComment string
  | BlockComment string

fun render :: "piece \<Rightarrow> string" where
  "render (Word w) = w"
| "render (Num n) = n"
| "render (Quoted q s) = q # s @ [q]"
| "render (Punct c) = [c]"
| "render (Blank c) = [c]"
| "render (LineComment s) = ''//'' @ s @ [CHR 0x0A]"
| "render (BlockComment s) = ''/*'' @ s @ ''*/''"

fun piece_ok :: "piece \<Rightarrow> bool" where
  "piece_ok (Word w) = (case w of [] \<Rightarrow> False | c # cs \<Rightarrow> ident_start c \<and> list_all ident_char cs)"
| "piece_ok (Num n) = (case n of [] \<Rightarrow> False | c # cs \<Rightarrow> is_digit c \<and> list_all number_char cs)"
| "piece_ok (Quoted q s) = (q \<in> quote_chars \<and> q \<notin> set s \<and> backslash \<notin> set s \<and> CHR 0x0A \<notin> set s \<and> CHR 0x0D \<notin> set s)"
| "piece_ok (Punct c) = (\<not> is_space c \<and> c \<notin> quote_chars \<and> \<not> ident_start c \<and> \<not> is_digit c \<and> \<not> unsupported_char c)"
| "piece_ok (Blank c) = is_space c"
| "piece_ok (LineComment s) = (CHR 0x0A \<notin> set s)"
| "piece_ok (BlockComment s) = (\<forall>a b. s \<noteq> a @ ''*/'' @ b)"

text \<open>Two words, a word and a number, or two numbers need something between them.\<close>

fun touching :: "piece \<Rightarrow> piece \<Rightarrow> bool" where
  "touching (Word _) (Word _) = True"
| "touching (Word _) (Num _) = True"
| "touching (Num _) (Num _) = True"
| "touching _ _ = False"

fun script_ok :: "piece list \<Rightarrow> bool" where
  "script_ok [] = True"
| "script_ok [p] = piece_ok p"
| "script_ok (p # q # ps) = (piece_ok p \<and> \<not> touching p q \<and> script_ok (q # ps))"

fun piece_tokens :: "piece \<Rightarrow> token list" where
  "piece_tokens (Word w) = [\<lparr>tok_text = w, tok_literal = False, tok_escaped = False\<rparr>]"
| "piece_tokens (Num n) = [\<lparr>tok_text = n, tok_literal = False, tok_escaped = False\<rparr>]"
| "piece_tokens (Quoted q s) = [\<lparr>tok_text = s, tok_literal = True, tok_escaped = False\<rparr>]"
| "piece_tokens (Punct c) = [\<lparr>tok_text = [c], tok_literal = False, tok_escaped = False\<rparr>]"
| "piece_tokens _ = []"

fun piece_delims :: "piece \<Rightarrow> char list" where
  "piece_delims (Punct c) = [c]"
| "piece_delims _ = []"

text \<open>Every closing delimiter closes the last open one, and none stays open.\<close>

fun nested :: "char list \<Rightarrow> char list \<Rightarrow> bool" where
  "nested st [] = (st = [])"
| "nested st (c # cs) =
     (if c = CHR ''('' \<or> c = CHR ''{'' then nested (c # st) cs
      else if c = CHR '')'' then st \<noteq> [] \<and> hd st = CHR ''('' \<and> nested (tl st) cs
      else if c = CHR ''}'' then st \<noteq> [] \<and> hd st = CHR ''{'' \<and> nested (tl st) cs
      else nested st cs)"

lemma uncertain_twice [simp]: "uncertain w (uncertain v d) = uncertain v d"
  by (simp add: uncertain_def)

lemma render_nonempty: "piece_ok p \<Longrightarrow> render p \<noteq> []"
  by (cases p) (auto split: list.splits)

lemma script_okD: "script_ok (p # ps) \<Longrightarrow> piece_ok p \<and> script_ok ps"
  by (cases ps) auto

lemma char_kinds:
  "is_digit c \<Longrightarrow> \<not> is_space c" "ident_start c \<Longrightarrow> \<not> is_space c" "c \<in> quote_chars \<Longrightarrow> \<not> is_space c"
  "c \<in> quote_chars \<Longrightarrow> \<not> ident_char c \<and> \<not> number_char c" "is_space c \<Longrightarrow> \<not> ident_char c \<and> \<not> number_char c"
  "is_digit c \<Longrightarrow> c \<notin> quote_chars \<and> \<not> ident_start c \<and> c \<noteq> CHR ''/''"
  "ident_start c \<Longrightarrow> c \<notin> quote_chars \<and> c \<noteq> CHR ''/'' \<and> \<not> number_char c"
  "ident_char c \<longleftrightarrow> ident_start c \<or> is_digit c" "c \<in> quote_chars \<Longrightarrow> c \<noteq> CHR ''/''"
  by (auto simp: quote_chars_def char_simps ident_char_def ident_start_def number_char_def)

lemma span_append:
  "list_all P xs \<Longrightarrow> ys = [] \<or> \<not> P (hd ys) \<Longrightarrow> takeWhile P (xs @ ys) = xs \<and> dropWhile P (xs @ ys) = ys"
  by (induction xs) (auto, (cases ys; simp)+)

lemma word_ends:
  assumes "script_ok (Word w # ps)"
  shows "takeWhile ident_char (tl w @ concat (map render ps)) = tl w \<and>
    dropWhile ident_char (tl w @ concat (map render ps)) = concat (map render ps)"
proof -
  have w: "list_all ident_char (tl w)" using script_okD [OF assms] by (auto split: list.splits)
  have "concat (map render ps) = [] \<or> \<not> ident_char (hd (concat (map render ps)))"
  proof (cases ps)
    case (Cons q qs)
    with assms have "piece_ok q" "\<not> touching (Word w) q" by (auto dest: script_okD)
    then show ?thesis using Cons render_nonempty [of q]
      by (cases q) (auto simp: char_kinds split: list.splits, auto simp: ident_char_def ident_start_def char_simps)
  qed simp
  with w show ?thesis by (rule span_append)
qed

lemma number_ends:
  assumes "script_ok (Num n # ps)"
  shows "takeWhile number_char (tl n @ concat (map render ps)) = tl n \<and>
    dropWhile number_char (tl n @ concat (map render ps)) = concat (map render ps)"
proof -
  have n: "list_all number_char (tl n)" using script_okD [OF assms] by (auto split: list.splits)
  have "concat (map render ps) = [] \<or> \<not> number_char (hd (concat (map render ps)))"
  proof (cases ps)
    case (Cons q qs)
    with assms have "piece_ok q" "\<not> touching (Num n) q" by (auto dest: script_okD)
    then show ?thesis using Cons render_nonempty [of q]
      by (cases q) (auto simp: char_kinds split: list.splits,
        auto simp: number_char_def ident_start_def unsupported_char_def char_simps)
  qed simp
  with n show ?thesis by (rule span_append)
qed

lemma scan_quoted:
  "q \<notin> set s \<Longrightarrow> backslash \<notin> set s \<Longrightarrow> CHR 0x0A \<notin> set s \<Longrightarrow> CHR 0x0D \<notin> set s \<Longrightarrow>
     scan_string q (s @ q # r) = (s, False, False, Some r)"
  by (induction s) auto

lemma after_comment_closed:
  "\<forall>a b. s \<noteq> a @ ''*/'' @ b \<Longrightarrow> after_comment (s @ ''*/'' @ r) = Some r"
proof (induction s)
  case (Cons c s)
  have "\<forall>a b. s \<noteq> a @ ''*/'' @ b"
  proof (intro allI notI)
    fix a b assume "s = a @ ''*/'' @ b"
    then have "c # s = (c # a) @ ''*/'' @ b" by simp
    with Cons.prems show False by blast
  qed
  note IH = Cons.IH [OF this]
  show ?case
  proof (cases s)
    case Nil
    then show ?thesis by simp
  next
    case (Cons e s')
    have "\<not> (c = CHR ''*'' \<and> e = CHR ''/'')" using Cons.prems Cons by (metis append_Cons append_Nil)
    then show ?thesis using IH Cons by auto
  qed
qed simp

lemma tokenize_rendered:
  "script_ok ps \<Longrightarrow> tokenize (concat (map render ps)) st acc d =
     (Some (rev acc @ concat (map piece_tokens ps)),
      if nested st (concat (map piece_delims ps)) then d else uncertain ''unbalanced_delimiters'' d)"
proof (induction ps arbitrary: st acc d)
  case Nil
  then show ?case by (simp add: tokenize.simps)
next
  case (Cons p ps)
  let ?rest = "concat (map render ps)"
  have ok: "piece_ok p" "script_ok ps" using script_okD [OF Cons.prems] by blast+
  note IH = Cons.IH [OF ok(2)]
  show ?case
  proof (cases p)
    case (Word w)
    with ok obtain c cs where w: "w = c # cs" "ident_start c" by (auto split: list.splits)
    have "\<not> is_space c" "\<not> line_comment c s" "\<not> block_comment c s" "c \<notin> quote_chars" for s
      using char_kinds(2,7) [OF w(2)] by (auto simp: line_comment_def block_comment_def)
    note step = tok_ident [OF this w(2)]
    show ?thesis using word_ends [OF Cons.prems [unfolded Word]] IH by (simp add: Word w step)
  next
    case (Num n)
    with ok obtain c cs where n: "n = c # cs" "is_digit c" by (auto split: list.splits)
    have "\<not> is_space c" "\<not> line_comment c s" "\<not> block_comment c s" "c \<notin> quote_chars" "\<not> ident_start c" for s
      using char_kinds(1,6) [OF n(2)] by (auto simp: line_comment_def block_comment_def)
    note step = tok_number [OF this n(2)]
    show ?thesis using number_ends [OF Cons.prems [unfolded Num]] IH by (simp add: Num n step)
  next
    case (Quoted q s)
    with ok have q: "q \<in> quote_chars" by simp
    have "\<not> is_space q" "\<not> line_comment q r" "\<not> block_comment q r" for r
      using char_kinds(3,9) [OF q] by (auto simp: line_comment_def block_comment_def)
    note step = tok_quote [OF this q]
    have "scan_string q (s @ q # ?rest) = (s, False, False, Some ?rest)" using ok Quoted by (intro scan_quoted) auto
    from step [OF this] show ?thesis using IH by (simp add: Quoted Let_def)
  next
    case (Punct c)
    with ok have c: "\<not> is_space c" "c \<notin> quote_chars" "\<not> ident_start c" "\<not> is_digit c" "\<not> unsupported_char c" by auto
    then have "c \<noteq> CHR ''/''" by (auto simp: unsupported_char_def)
    then have nc: "\<not> line_comment c s" "\<not> block_comment c s" for s
      by (auto simp: line_comment_def block_comment_def)
    note step = tok_other [OF c(1) nc c(2-4)]
    obtain st2 d2 where pd: "push_delimiter c st d = (st2, d2)" by (cases "push_delimiter c st d")
    then have "push_delimiter c st (if unsupported_char c then uncertain ''unsupported_syntax'' d else d) = (st2, d2)"
      using c(5) by simp
    from step [OF this] show ?thesis using pd
      by (cases st) (auto simp: Punct IH push_delimiter_def Let_def split: if_splits)
  next
    case (Blank c)
    with ok have "is_space c" by simp
    then show ?thesis using IH by (simp add: Blank tok_space)
  next
    case (LineComment s)
    with ok have "CHR 0x0A \<notin> set s" by simp
    then have "dropWhile (\<lambda>c. c \<noteq> CHR 0x0A) (CHR ''/'' # s @ CHR 0x0A # ?rest) = CHR 0x0A # ?rest"
      by (simp, subst dropWhile_append2) auto
    moreover have "tokenize (CHR ''/'' # CHR ''/'' # s @ CHR 0x0A # ?rest) st acc d =
        tokenize (dropWhile (\<lambda>c. c \<noteq> CHR 0x0A) (CHR ''/'' # s @ CHR 0x0A # ?rest)) st acc d"
      by (rule tok_line) (simp_all add: line_comment_def char_simps)
    moreover have "is_space (CHR 0x0A)" by (simp add: char_simps)
    ultimately show ?thesis using IH by (simp add: LineComment tok_space)
  next
    case (BlockComment s)
    with ok have "after_comment (s @ ''*/'' @ ?rest) = Some ?rest" by (intro after_comment_closed) simp
    moreover have "tokenize (CHR ''/'' # CHR ''*'' # s @ ''*/'' @ ?rest) st acc d =
        (case after_comment (s @ ''*/'' @ ?rest) of None \<Rightarrow> (None, uncertain ''unterminated_comment'' d)
         | Some r \<Rightarrow> tokenize r st acc d)"
      by (subst tok_block) (simp_all add: line_comment_def block_comment_def char_simps)
    ultimately show ?thesis using IH by (simp add: BlockComment)
  qed
qed

text \<open>
  C37. Strings and comments are tokens and are never searched: for every script written from
  words, numbers, unescaped one-line strings, comments, blanks and supported punctuation, the
  tokens found are exactly those written, and the only doubt the tokenizer has is about delimiters
  that do not nest; so the recorded reads are the literal read calls among the written tokens.
\<close>

theorem tokenizer_reads_back_script:
  assumes "script_ok ps"
  shows "tokenize (concat (map render ps)) [] [] new_deps =
      (Some (concat (map piece_tokens ps)),
       if nested [] (concat (map piece_delims ps)) then new_deps else uncertain ''unbalanced_delimiters'' new_deps) \<and>
    reads (automation_read_dependencies (concat (map render ps))) = known_reads (concat (map piece_tokens ps))"
  using tokenize_rendered [OF assms, of "[]" "[]" new_deps]
  by (simp add: automation_read_dependencies_def scan_tokens_reads) (simp add: new_deps_def)

theorem tokenizer_reads_back_script_witness:
  "reads (automation_read_dependencies (concat (map render
     [Word ''x'', Punct CHR ''='', Quoted (CHR 0x22) ''tag(1)'', BlockComment '' tag '']))) =
   known_reads (concat (map piece_tokens
     [Word ''x'', Punct CHR ''='', Quoted (CHR 0x22) ''tag(1)'', BlockComment '' tag '']))"
proof -
  have b: "\<forall>a b. '' tag '' \<noteq> a @ ''*/'' @ b"
  proof (intro allI notI)
    fix a b :: string
    assume "'' tag '' = a @ ''*/'' @ b"
    then have "CHR ''*'' \<in> set '' tag ''" by simp
    then show False by simp
  qed
  have "script_ok [Word ''x'', Punct CHR ''='', Quoted (CHR 0x22) ''tag(1)'', BlockComment '' tag '']"
    using b by (simp add: ident_start_def quote_chars_def backslash_def unsupported_char_def char_simps)
  from tokenizer_reads_back_script [OF this] show ?thesis by blast
qed

end
