(* ===== verification/AutomationDemand.thy ===== *)
theory AutomationDemand
  imports AutomationDeps Json
begin

text \<open>
  automation\_demand.h: the demand of all enabled automations, and its union with the demand of the
  ones still running; and the historian's registration message (opcbridge-historian/src/demand.h).
\<close>

section \<open>automation\_demand\_snapshot\<close>

record script =
  script_id :: string
  script_name :: string
  script_kind :: string
  engine :: string
  script_enabled :: bool
  source :: string
  setup_source :: string
  loop_source :: string

record automation_row =
  auto_id :: string
  auto_name :: string
  auto_kind :: string
  auto_engine :: string
  auto_scope :: string
  auto_reason :: string
  auto_reads :: "(string \<times> string) list"

record automation_demand =
  coverage_complete :: bool
  all_tags_required :: bool
  demand_tags :: "string set"
  enabled_automations :: "automation_row list"

definition no_automation_demand :: automation_demand where
  "no_automation_demand = \<lparr>coverage_complete = True, all_tags_required = False, demand_tags = {},
     enabled_automations = []\<rparr>"

definition script_dependencies :: "script \<Rightarrow> deps" where
  "script_dependencies s =
     (let d0 = automation_read_dependencies (if script_kind s = ''block'' then setup_source s else source s);
          d1 = (if script_kind s = ''block'' then
                  let loop = automation_read_dependencies (loop_source s);
                      d = d0\<lparr>reads := reads d0 \<union> reads loop\<rparr>
                  in if is_complete loop then d else uncertain (reason loop) d
                else d0)
      in if engine s \<noteq> ''javascript'' \<or> (script_kind s \<noteq> ''block'' \<and> script_kind s \<noteq> ''script'')
         then uncertain ''unsupported_engine_or_kind'' d1 else d1)"

definition read_key :: "string \<times> string \<Rightarrow> string" where
  "read_key r = fst r @ '':'' @ snd r"

definition add_script :: "automation_demand \<Rightarrow> script \<Rightarrow> automation_demand" where
  "add_script a s =
     (if \<not> script_enabled s then a
      else
        let d = script_dependencies s;
            row = \<lparr>auto_id = script_id s, auto_name = script_name s, auto_kind = script_kind s,
              auto_engine = engine s, auto_scope = (if is_complete d then ''read_tags'' else ''all_tags''),
              auto_reason = reason d, auto_reads = sorted_list_of_set (reads d)\<rparr>
        in \<lparr>coverage_complete = coverage_complete a \<and> is_complete d,
            all_tags_required = all_tags_required a \<or> \<not> is_complete d,
            demand_tags = demand_tags a \<union> read_key ` reads d,
            enabled_automations = enabled_automations a @ [row]\<rparr>)"

definition automation_demand_snapshot :: "script list \<Rightarrow> automation_demand" where
  "automation_demand_snapshot scripts = foldl add_script no_automation_demand scripts"

text \<open>The overload that adds the running executions; their rows are reported beside the others.\<close>

definition automation_demand_union :: "script list \<Rightarrow> script list \<Rightarrow> automation_demand \<times> automation_row list" where
  "automation_demand_union scripts executions =
     (let result = automation_demand_snapshot scripts; running = automation_demand_snapshot executions in
      (\<lparr>coverage_complete = coverage_complete result \<and> coverage_complete running,
        all_tags_required = all_tags_required result \<or> all_tags_required running,
        demand_tags = demand_tags result \<union> demand_tags running,
        enabled_automations = enabled_automations result\<rparr>, enabled_automations running))"

lemma add_scripts:
  "coverage_complete (foldl add_script a ss) \<longleftrightarrow>
     coverage_complete a \<and> (\<forall>s \<in> set ss. script_enabled s \<longrightarrow> is_complete (script_dependencies s))"
  "all_tags_required (foldl add_script a ss) \<longleftrightarrow>
     all_tags_required a \<or> (\<exists>s \<in> set ss. script_enabled s \<and> \<not> is_complete (script_dependencies s))"
  "demand_tags (foldl add_script a ss) =
     demand_tags a \<union> (\<Union>s \<in> {s \<in> set ss. script_enabled s}. read_key ` reads (script_dependencies s))"
  "map auto_id (enabled_automations (foldl add_script a ss)) =
     map auto_id (enabled_automations a) @ map script_id (filter script_enabled ss)"
  by (induction ss arbitrary: a) (auto simp: add_script_def Let_def)

lemma block_covers:
  "script_kind s = ''block'' \<longrightarrow>
     reads (automation_read_dependencies (setup_source s)) \<union> reads (automation_read_dependencies (loop_source s))
       \<subseteq> reads (script_dependencies s) \<and>
     (is_complete (script_dependencies s) \<longrightarrow> is_complete (automation_read_dependencies (setup_source s)) \<and>
        is_complete (automation_read_dependencies (loop_source s)))"
  by (simp add: script_dependencies_def Let_def)

text \<open>
  C20. Automation demand never understates: the union of the configured and the running automations
  asks for all tags exactly if some enabled or running one has a dependency that is not fully known,
  and otherwise lists the reads of every one of them; a block's setup and loop code both count, and
  full coverage is reported exactly when nothing is uncertain.
\<close>

theorem automation_demand_never_understates:
  "let (a, running) = automation_demand_union scripts executions;
       active = {s \<in> set scripts \<union> set executions. script_enabled s}
   in (all_tags_required a \<longleftrightarrow> (\<exists>s \<in> active. \<not> is_complete (script_dependencies s))) \<and>
      (coverage_complete a \<longleftrightarrow> \<not> all_tags_required a) \<and>
      demand_tags a = (\<Union>s \<in> active. read_key ` reads (script_dependencies s)) \<and>
      (\<forall>s. script_kind s = ''block'' \<longrightarrow>
         reads (automation_read_dependencies (setup_source s)) \<union> reads (automation_read_dependencies (loop_source s))
           \<subseteq> reads (script_dependencies s) \<and>
         (is_complete (script_dependencies s) \<longrightarrow> is_complete (automation_read_dependencies (setup_source s)) \<and>
            is_complete (automation_read_dependencies (loop_source s))))"
proof -
  have all: "all_tags_required (fst (automation_demand_union scripts executions)) \<longleftrightarrow>
      (\<exists>s \<in> {s \<in> set scripts \<union> set executions. script_enabled s}. \<not> is_complete (script_dependencies s))"
    by (auto simp: automation_demand_union_def automation_demand_snapshot_def Let_def add_scripts no_automation_demand_def)
  have cover: "coverage_complete (fst (automation_demand_union scripts executions)) \<longleftrightarrow>
      (\<forall>s \<in> {s \<in> set scripts \<union> set executions. script_enabled s}. is_complete (script_dependencies s))"
    by (auto simp: automation_demand_union_def automation_demand_snapshot_def Let_def add_scripts no_automation_demand_def)
  have tags: "demand_tags (fst (automation_demand_union scripts executions)) =
      (\<Union>s \<in> {s \<in> set scripts \<union> set executions. script_enabled s}. read_key ` reads (script_dependencies s))"
    by (auto simp: automation_demand_union_def automation_demand_snapshot_def Let_def add_scripts no_automation_demand_def)
  show ?thesis
    unfolding Let_def using all cover tags block_covers
    by (cases "automation_demand_union scripts executions") (simp, blast)
qed

theorem automation_demand_never_understates_witness:
  "all_tags_required (fst (automation_demand_union []
     [\<lparr>script_id = ''1'', script_name = ''a'', script_kind = ''script'', engine = ''lua'', script_enabled = True,
       source = [], setup_source = [], loop_source = []\<rparr>]))"
proof -
  let ?s = "\<lparr>script_id = ''1'', script_name = ''a'', script_kind = ''script'', engine = ''lua'', script_enabled = True,
       source = [], setup_source = [], loop_source = []\<rparr>"
  have "\<not> is_complete (script_dependencies ?s)" by (simp add: script_dependencies_def Let_def)
  then show ?thesis
    using automation_demand_never_understates [of "[]" "[?s]"] by (auto simp: Let_def split: prod.splits)
qed

section \<open>historian\_demand\_registration\<close>

record historian_rule =
  rule_enabled :: bool
  rule_connection :: string
  rule_tag :: string

record historian_config =
  hist_enabled :: bool
  historian_tags :: "historian_rule list"
  snapshot_enabled :: bool
  subscribe_mode :: string
  hist_tags :: "string list"

definition registration :: "bool \<Rightarrow> string list \<Rightarrow> json" where
  "registration all keys = JObj [(''type'', JStr ''register_demand''), (''owner'', JStr ''opcbridge-historian''),
     (''demand_mode'', JStr ''explicit''), (''all_tags'', JBool all), (''tags'', JArr (map JStr keys))]"

definition recorded_key :: "historian_rule \<Rightarrow> bool" where
  "recorded_key r \<longleftrightarrow> rule_enabled r \<and> rule_connection r \<noteq> [] \<and> rule_tag r \<noteq> []"

definition historian_demand_registration :: "historian_config \<Rightarrow> string list \<Rightarrow> json" where
  "historian_demand_registration cfg resolvedKeys =
     (if \<not> hist_enabled cfg then registration False []
      else if historian_tags cfg \<noteq> [] then
        registration False (map (\<lambda>r. rule_connection r @ '':'' @ rule_tag r) (filter recorded_key (historian_tags cfg)))
      else if snapshot_enabled cfg then
        (if subscribe_mode cfg = ''all'' then registration True []
         else if subscribe_mode cfg = ''list'' then registration False (hist_tags cfg)
         else if subscribe_mode cfg = ''patterns'' then registration False resolvedKeys
         else registration False [])
      else registration False [])"

end
