(* ===== verification/AsyncBatch.thy ===== *)
theory AsyncBatch
  imports Prelude "HOL-Library.Multiset"
begin

text \<open>
  async\_poll\_batch.h: queue every read, then wait for all of them. The callbacks, the clock and
  the sleep act on an environment and are a record of functions; the calls that matter are logged
  as events. The wait loop may run forever in a bad environment, so it is a partial function.
\<close>

record 'e batch_ops =
  op_start :: "nat \<Rightarrow> 'e \<Rightarrow> int \<times> 'e"
  op_status :: "nat \<Rightarrow> 'e \<Rightarrow> int \<times> 'e"
  op_abort :: "nat \<Rightarrow> 'e \<Rightarrow> 'e"
  op_capture :: "nat \<Rightarrow> int \<Rightarrow> time \<Rightarrow> 'e \<Rightarrow> 'e"
  op_cancelled :: "'e \<Rightarrow> bool \<times> 'e"
  op_now :: "'e \<Rightarrow> time \<times> 'e"
  op_sleep :: "'e \<Rightarrow> 'e"

datatype batch_event = Started nat | Aborted nat | Captured nat int time

record request =
  req_index :: nat
  req_deadline :: time
  req_active :: bool

section \<open>Queueing\<close>

fun start_all ::
    "'e batch_ops \<Rightarrow> int \<Rightarrow> int \<Rightarrow> nat list \<Rightarrow> 'e \<Rightarrow> request list \<times> batch_event list \<times> 'e" where
  "start_all ops timeoutMs pending [] e = ([], [], e)"
| "start_all ops timeoutMs pending (index # rest) e =
     (case op_cancelled ops e of (stop, e1) \<Rightarrow>
        if stop then ([], [], e1)
        else
          (case op_now ops e1 of (began, e2) \<Rightarrow>
           case op_start ops index e2 of (rc, e3) \<Rightarrow>
             let r = \<lparr>req_index = index, req_deadline = began + millis timeoutMs, req_active = (rc = pending)\<rparr>;
                 ev = (if rc \<noteq> pending then [Captured index rc began] else []);
                 e4 = (if rc \<noteq> pending then op_capture ops index rc began e3 else e3)
             in case start_all ops timeoutMs pending rest e4 of
                  (rs, evs, e5) \<Rightarrow> (r # rs, Started index # ev @ evs, e5)))"

section \<open>Waiting\<close>

definition poll_request ::
    "'e batch_ops \<Rightarrow> int \<Rightarrow> int \<Rightarrow> int \<Rightarrow> bool \<Rightarrow> request \<Rightarrow> 'e \<Rightarrow> request \<times> batch_event list \<times> 'e" where
  "poll_request ops timeoutMs pending timeout cancel r e =
     (if \<not> req_active r then (r, [], e)
      else
        (case op_status ops (req_index r) e of (rc, e1) \<Rightarrow>
           let (expired, e2) =
                 (if rc = pending then
                    if cancel then (True, e1)
                    else (case op_now ops e1 of (now, e2) \<Rightarrow> (req_deadline r \<le> now, e2))
                  else (False, e1));
               e3 = (if expired then op_abort ops (req_index r) e2 else e2);
               rc1 = (if expired then timeout else rc);
               ev = (if expired then [Aborted (req_index r)] else [])
           in if rc1 = pending then (r, ev, e3)
              else
                let began = req_deadline r - millis timeoutMs in
                (r\<lparr>req_active := False\<rparr>, ev @ [Captured (req_index r) rc1 began],
                 op_capture ops (req_index r) rc1 began e3)))"

fun poll_round ::
    "'e batch_ops \<Rightarrow> int \<Rightarrow> int \<Rightarrow> int \<Rightarrow> bool \<Rightarrow> request list \<Rightarrow> 'e \<Rightarrow> request list \<times> batch_event list \<times> 'e" where
  "poll_round ops timeoutMs pending timeout cancel [] e = ([], [], e)"
| "poll_round ops timeoutMs pending timeout cancel (r # rs) e =
     (case poll_request ops timeoutMs pending timeout cancel r e of (r', ev, e1) \<Rightarrow>
      case poll_round ops timeoutMs pending timeout cancel rs e1 of (rs', evs, e2) \<Rightarrow>
        (r' # rs', ev @ evs, e2))"

partial_function (option) wait_loop ::
    "'e batch_ops \<Rightarrow> int \<Rightarrow> int \<Rightarrow> int \<Rightarrow> request list \<Rightarrow> batch_event list \<Rightarrow> 'e \<Rightarrow> (batch_event list \<times> 'e) option" where
  "wait_loop ops timeoutMs pending timeout rs evs e =
     (case op_cancelled ops e of (cancel, e1) \<Rightarrow>
      case poll_round ops timeoutMs pending timeout cancel rs e1 of (rs', ev, e2) \<Rightarrow>
        if \<exists>r \<in> set rs'. req_active r
        then wait_loop ops timeoutMs pending timeout rs' (evs @ ev) (op_sleep ops e2)
        else Some (evs @ ev, e2))"

definition async_poll_batch ::
    "'e batch_ops \<Rightarrow> nat list \<Rightarrow> int \<Rightarrow> int \<Rightarrow> int \<Rightarrow> 'e \<Rightarrow> (batch_event list \<times> 'e) option" where
  "async_poll_batch ops indices timeoutMs pending timeout e =
     (case start_all ops timeoutMs pending indices e of
        (rs, evs, e1) \<Rightarrow> wait_loop ops timeoutMs pending timeout rs evs e1)"

section \<open>The environment\<close>

text \<open>
  What the loop relies on: the clock is steady, no call turns it back, and a sleep of a millisecond
  lasts at least one.
\<close>

definition steady :: "'e batch_ops \<Rightarrow> ('e \<Rightarrow> time) \<Rightarrow> bool" where
  "steady ops clock \<longleftrightarrow>
     (\<forall>e. fst (op_now ops e) = clock (snd (op_now ops e)) \<and> clock e \<le> clock (snd (op_now ops e)) \<and>
          clock e \<le> clock (snd (op_cancelled ops e)) \<and> clock e + millis 1 \<le> clock (op_sleep ops e)) \<and>
     (\<forall>e i. clock e \<le> clock (snd (op_start ops i e)) \<and> clock e \<le> clock (snd (op_status ops i e)) \<and>
            clock e \<le> clock (op_abort ops i e)) \<and>
     (\<forall>e i rc b. clock e \<le> clock (op_capture ops i rc b e))"

fun started :: "batch_event list \<Rightarrow> nat list" where
  "started [] = []"
| "started (Started i # evs) = i # started evs"
| "started (_ # evs) = started evs"

fun captured :: "batch_event list \<Rightarrow> (nat \<times> int) list" where
  "captured [] = []"
| "captured (Captured i rc b # evs) = (i, rc) # captured evs"
| "captured (_ # evs) = captured evs"

fun aborted :: "batch_event list \<Rightarrow> nat list" where
  "aborted [] = []"
| "aborted (Aborted i # evs) = i # aborted evs"
| "aborted (_ # evs) = aborted evs"

definition waiting :: "request list \<Rightarrow> nat list" where
  "waiting rs = map req_index (filter req_active rs)"

lemma event_append [simp]:
  "started (xs @ ys) = started xs @ started ys"
  "captured (xs @ ys) = captured xs @ captured ys"
  "aborted (xs @ ys) = aborted xs @ aborted ys"
proof -
  show "started (xs @ ys) = started xs @ started ys" by (induction xs rule: started.induct) auto
  show "captured (xs @ ys) = captured xs @ captured ys" by (induction xs rule: captured.induct) auto
  show "aborted (xs @ ys) = aborted xs @ aborted ys" by (induction xs rule: aborted.induct) auto
qed

definition batch_ok :: "int \<Rightarrow> int \<Rightarrow> batch_event list \<Rightarrow> request list \<Rightarrow> bool" where
  "batch_ok pending timeout evs rs \<longleftrightarrow>
     mset (map fst (captured evs)) + mset (waiting rs) = mset (started evs) \<and>
     (\<forall>c \<in> set (captured evs). snd c \<noteq> pending) \<and>
     (\<forall>i \<in> set (aborted evs). (i, timeout) \<in> set (captured evs))"

lemma waiting_Nil [simp]: "waiting [] = []"
  by (simp add: waiting_def)

lemma waiting_Cons: "waiting (r # rs) = (if req_active r then [req_index r] else []) @ waiting rs"
  by (simp add: waiting_def)

section \<open>What one step does\<close>

lemma start_all_ok:
  assumes "steady ops clock" "start_all ops timeoutMs pending indices e = (rs, evs, e')"
  shows "batch_ok pending timeout evs rs \<and> clock e \<le> clock e' \<and> (\<exists>k. started evs = take k indices)"
  using assms(2)
proof (induction indices arbitrary: e rs evs e')
  case Nil
  then show ?case by (simp add: batch_ok_def waiting_def)
next
  case (Cons i rest)
  obtain stop e1 where c: "op_cancelled ops e = (stop, e1)" by (cases "op_cancelled ops e")
  have m1: "clock e \<le> clock e1" using assms(1) c unfolding steady_def by (metis snd_conv)
  show ?case
  proof (cases stop)
    case True
    with Cons.prems c m1 show ?thesis
      by (auto simp: batch_ok_def waiting_def intro: exI [of _ 0])
  next
    case False
    obtain began e2 where n: "op_now ops e1 = (began, e2)" by (cases "op_now ops e1")
    obtain rc e3 where s: "op_start ops i e2 = (rc, e3)" by (cases "op_start ops i e2")
    let ?e4 = "if rc \<noteq> pending then op_capture ops i rc began e3 else e3"
    obtain rs' evs' e5 where r: "start_all ops timeoutMs pending rest ?e4 = (rs', evs', e5)"
      by (cases "start_all ops timeoutMs pending rest ?e4")
    have m2: "clock e1 \<le> clock e2" using assms(1) n unfolding steady_def by (metis snd_conv)
    have m3: "clock e2 \<le> clock e3" using assms(1) s unfolding steady_def by (metis snd_conv)
    have m4: "clock e3 \<le> clock ?e4" using assms(1) by (simp add: steady_def)
    have out: "rs = \<lparr>req_index = i, req_deadline = began + millis timeoutMs, req_active = (rc = pending)\<rparr> # rs'"
      "evs = Started i # (if rc \<noteq> pending then [Captured i rc began] else []) @ evs'" "e' = e5"
      using Cons.prems c False n s r by (auto simp: Let_def)
    from Cons.IH [OF r] obtain k where IH: "batch_ok pending timeout evs' rs'" "clock ?e4 \<le> clock e5"
      "started evs' = take k rest" by blast
    have "clock e \<le> clock e'" 
      using order_trans [OF m1 order_trans [OF m2 order_trans [OF m3 order_trans [OF m4 IH(2)]]]] out(3) by simp
    moreover have "started evs = take (Suc k) (i # rest)" using IH(3) by (simp add: out)
    moreover have "batch_ok pending timeout evs rs" using IH(1)
      by (auto simp: out batch_ok_def waiting_Cons)
    ultimately show ?thesis by blast
  qed
qed

lemma poll_request_ok:
  assumes "steady ops clock" "pending \<noteq> timeout" "poll_request ops timeoutMs pending timeout cancel r e = (r', ev, e')"
  shows "started ev = [] \<and> mset (map fst (captured ev)) + mset (waiting [r']) = mset (waiting [r]) \<and>
    (\<forall>c \<in> set (captured ev). snd c \<noteq> pending) \<and> (\<forall>i \<in> set (aborted ev). (i, timeout) \<in> set (captured ev)) \<and>
    clock e \<le> clock e' \<and> req_deadline r' = req_deadline r \<and> (req_active r' \<longrightarrow> clock e < req_deadline r)"
proof (cases "req_active r")
  case False
  with assms(3) show ?thesis by (auto simp: poll_request_def waiting_def)
next
  case True
  obtain rc e1 where s: "op_status ops (req_index r) e = (rc, e1)" by (cases "op_status ops (req_index r) e")
  obtain now en where n: "op_now ops e1 = (now, en)" by (cases "op_now ops e1")
  have m1: "clock e \<le> clock e1" using assms(1) s unfolding steady_def by (metis snd_conv)
  have m2: "clock e1 \<le> clock en" "now = clock en" using assms(1) n unfolding steady_def by (metis fst_conv snd_conv)+
  have m3: "clock x \<le> clock (op_abort ops (req_index r) x)" for x using assms(1) by (simp add: steady_def)
  have m4: "clock x \<le> clock (op_capture ops i c b x)" for x i c b using assms(1) by (simp add: steady_def)
  consider "rc \<noteq> pending" | "rc = pending" cancel | "rc = pending" "\<not> cancel" "req_deadline r \<le> now"
    | "rc = pending" "\<not> cancel" "now < req_deadline r" by linarith
  then show ?thesis
  proof cases
    case 1
    with assms(3) True s m1 m4 [of e1 "req_index r" rc] show ?thesis
      by (auto simp: poll_request_def waiting_def Let_def intro: order_trans)
  next
    case 2
    with assms(2,3) True s m1 m3 [of e1] m4 show ?thesis
      by (auto simp: poll_request_def waiting_def Let_def intro: order_trans)
  next
    case 3
    have "clock e \<le> clock (op_capture ops (req_index r) timeout b (op_abort ops (req_index r) en))" for b
      using m1 m2(1) m3 [of en] m4 [of "op_abort ops (req_index r) en" "req_index r" timeout b] by linarith
    with 3 assms(2,3) True s n show ?thesis
      by (auto simp: poll_request_def waiting_def Let_def)
  next
    case 4
    with assms(3) True s n m1 m2 show ?thesis
      by (auto simp: poll_request_def waiting_def Let_def)
  qed
qed

lemma poll_round_ok:
  assumes "steady ops clock" "pending \<noteq> timeout" "poll_round ops timeoutMs pending timeout cancel rs e = (rs', ev, e')"
  shows "started ev = [] \<and> mset (map fst (captured ev)) + mset (waiting rs') = mset (waiting rs) \<and>
    (\<forall>c \<in> set (captured ev). snd c \<noteq> pending) \<and> (\<forall>i \<in> set (aborted ev). (i, timeout) \<in> set (captured ev)) \<and>
    clock e \<le> clock e' \<and> map req_deadline rs' = map req_deadline rs \<and>
    (\<forall>r \<in> set rs'. req_active r \<longrightarrow> clock e < req_deadline r)"
  using assms(3)
proof (induction rs arbitrary: e rs' ev e')
  case (Cons r rs)
  obtain r1 ev1 e1 where p: "poll_request ops timeoutMs pending timeout cancel r e = (r1, ev1, e1)"
    by (cases "poll_request ops timeoutMs pending timeout cancel r e")
  obtain rs2 ev2 e2 where q: "poll_round ops timeoutMs pending timeout cancel rs e1 = (rs2, ev2, e2)"
    by (cases "poll_round ops timeoutMs pending timeout cancel rs e1")
  have out: "rs' = r1 # rs2" "ev = ev1 @ ev2" "e' = e2" using Cons.prems p q by auto
  note one = poll_request_ok [OF assms(1,2) p] and more = Cons.IH [OF q]
  have "mset (map fst (captured ev)) + mset (waiting rs') = mset (waiting (r # rs))"
  proof -
    have w: "mset (waiting (x # xs)) = mset (waiting [x]) + mset (waiting xs)" for x xs by (simp add: waiting_Cons)
    have "mset (map fst (captured ev)) + mset (waiting rs') =
        (mset (map fst (captured ev1)) + mset (waiting [r1])) + (mset (map fst (captured ev2)) + mset (waiting rs2))"
      unfolding out w [of r1 rs2] by (simp add: ac_simps)
    also have "\<dots> = mset (waiting (r # rs))" using one more unfolding w [of r rs] by argo
    finally show ?thesis .
  qed
  moreover have "clock e \<le> clock e'" using one more unfolding out(3) by (blast intro: order_trans)
  moreover have "\<forall>x \<in> set rs'. req_active x \<longrightarrow> clock e < req_deadline x"
  proof
    fix x assume "x \<in> set rs'"
    then have "x = r1 \<or> x \<in> set rs2" by (simp add: out)
    then show "req_active x \<longrightarrow> clock e < req_deadline x" using one more by force
  qed
  moreover have "started ev = []" "map req_deadline rs' = map req_deadline (r # rs)" using one more by (simp_all add: out)
  moreover have "\<forall>c \<in> set (captured ev). snd c \<noteq> pending" using one more by (simp add: out ball_Un)
  moreover have "\<forall>i \<in> set (aborted ev). (i, timeout) \<in> set (captured ev)" using one more by (simp add: out ball_Un)
  ultimately show ?case by blast
qed (simp add: waiting_def)

section \<open>The whole batch\<close>

lemma batch_ok_step:
  assumes "batch_ok pending timeout evs rs" "started ev = []"
    "mset (map fst (captured ev)) + mset (waiting rs') = mset (waiting rs)"
    "\<forall>c \<in> set (captured ev). snd c \<noteq> pending" "\<forall>i \<in> set (aborted ev). (i, timeout) \<in> set (captured ev)"
  shows "batch_ok pending timeout (evs @ ev) rs'"
proof -
  have "mset (map fst (captured (evs @ ev))) + mset (waiting rs') =
      mset (map fst (captured evs)) + (mset (map fst (captured ev)) + mset (waiting rs'))" by simp
  also have "\<dots> = mset (started (evs @ ev))" using assms(1,2,3) by (simp add: batch_ok_def)
  finally show ?thesis using assms by (auto simp: batch_ok_def)
qed

lemma wait_loop_returns:
  assumes "steady ops clock" "pending \<noteq> timeout" "batch_ok pending timeout evs rs"
    and "\<forall>r \<in> set rs. req_deadline r \<le> limit"
  shows "\<exists>out e'. wait_loop ops timeoutMs pending timeout rs evs e = Some (out, e') \<and>
    batch_ok pending timeout out [] \<and> started out = started evs"
  using assms(3,4)
proof (induction "nat (limit - clock e)" arbitrary: rs evs e rule: less_induct)
  case less
  obtain cancel e1 where c: "op_cancelled ops e = (cancel, e1)" by (cases "op_cancelled ops e")
  obtain rs' ev e2 where p: "poll_round ops timeoutMs pending timeout cancel rs e1 = (rs', ev, e2)"
    by (cases "poll_round ops timeoutMs pending timeout cancel rs e1")
  have m1: "clock e \<le> clock e1" using assms(1) c unfolding steady_def by (metis snd_conv)
  note step = poll_round_ok [OF assms(1,2) p]
  have ok: "batch_ok pending timeout (evs @ ev) rs'" using batch_ok_step [OF less.prems(1)] step by blast
  have deadlines: "\<forall>r \<in> set rs'. req_deadline r \<le> limit"
  proof -
    have "set (map req_deadline rs') = set (map req_deadline rs)" using step by simp
    moreover have "\<forall>d \<in> set (map req_deadline rs). d \<le> limit" using less.prems(2) by simp
    ultimately show ?thesis by (metis (no_types) image_eqI image_set)
  qed
  show ?case
  proof (cases "\<exists>r \<in> set rs'. req_active r")
    case True
    then obtain r where "r \<in> set rs'" "req_active r" by blast
    then have before: "clock e1 < limit" using step deadlines by force
    have slept: "clock e2 + millis 1 \<le> clock (op_sleep ops e2)" using assms(1) by (simp add: steady_def)
    then have "clock e < clock (op_sleep ops e2)" using m1 step by (simp add: clock_simps)
    then have "nat (limit - clock (op_sleep ops e2)) < nat (limit - clock e)" using before m1 by simp
    from less.hyps [OF this ok deadlines] True step show ?thesis
      by (subst wait_loop.simps) (simp add: c p)
  next
    case False
    then have "waiting rs' = []" by (simp add: waiting_def)
    then have "batch_ok pending timeout (evs @ ev) []" using ok by (simp add: batch_ok_def)
    with False step show ?thesis by (subst wait_loop.simps) (simp add: c p)
  qed
qed

text \<open>
  C21. A batch always returns, and captures each read it started exactly once: with a steady clock
  the wait loop ends once every deadline has passed, whatever the driver reports; the reads started
  are a prefix of those asked for, the captured ones are the same up to order, no capture has the
  pending status, and an aborted read is captured with the timeout status.
\<close>

theorem batch_captures_each_once:
  assumes "steady ops clock" "pending \<noteq> timeout"
  shows "\<exists>evs e'. async_poll_batch ops indices timeoutMs pending timeout e = Some (evs, e') \<and>
    mset (map fst (captured evs)) = mset (started evs) \<and> (\<exists>k. started evs = take k indices) \<and>
    (\<forall>c \<in> set (captured evs). snd c \<noteq> pending) \<and>
    (\<forall>i \<in> set (aborted evs). (i, timeout) \<in> set (captured evs))"
proof -
  obtain rs evs e1 where s: "start_all ops timeoutMs pending indices e = (rs, evs, e1)"
    by (cases "start_all ops timeoutMs pending indices e")
  note ok = start_all_ok [OF assms(1) s, of timeout]
  have "\<forall>r \<in> set rs. req_deadline r \<le> Max (insert 0 (req_deadline ` set rs))" by simp
  from wait_loop_returns [OF assms conjunct1 [OF ok] this, of timeoutMs e1] ok
  obtain out e' where "async_poll_batch ops indices timeoutMs pending timeout e = Some (out, e')"
    "batch_ok pending timeout out []" "started out = started evs"
    by (auto simp: async_poll_batch_def s)
  with ok show ?thesis by (auto simp: batch_ok_def)
qed

text \<open>A driver that never answers, with a clock of one millisecond per sleep.\<close>

definition silent_driver :: "time batch_ops" where
  "silent_driver = \<lparr>op_start = (\<lambda>i t. (1, t)), op_status = (\<lambda>i t. (1, t)), op_abort = (\<lambda>i t. t),
     op_capture = (\<lambda>i rc b t. t), op_cancelled = (\<lambda>t. (False, t)), op_now = (\<lambda>t. (t, t)),
     op_sleep = (\<lambda>t. t + millis 1)\<rparr>"

theorem batch_captures_each_once_witness:
  "\<exists>evs e'. async_poll_batch silent_driver [4, 2] 3 1 (-32) 0 = Some (evs, e') \<and>
     mset (map fst (captured evs)) = mset (started evs)"
proof -
  have "steady silent_driver (\<lambda>t. t)" by (simp add: steady_def silent_driver_def)
  from batch_captures_each_once [OF this, of 1 "-32" "[4, 2]" 3 0] show ?thesis by auto
qed

end
