(* ===== verification/Numbers.thy ===== *)
theory Numbers
  imports Prelude Doubles "HOL-Library.Char_ord"
begin

text \<open>
  Text and numbers as the C++ library converts them: \<open>trim_copy\<close> and \<open>to_lower_copy\<close> of main.cpp,
  \<open>std::to_string\<close>, the \<open>std::stoi\<close> family and \<open>std::stod\<close> / \<open>std::stof\<close>, \<open>llround\<close> and the
  casts to narrower integers. Conversions return the value and the unread rest, or the exception:
  \<open>NoConversion\<close> is \<open>invalid\_argument\<close>, \<open>RangeError\<close> is \<open>out\_of\_range\<close>. \<open>long\<close> has 64 bits.
\<close>

section \<open>Text\<close>

definition trim_copy :: "string \<Rightarrow> string" where
  "trim_copy s = rev (dropWhile is_space (rev (dropWhile is_space s)))"

definition to_lower_copy :: "string \<Rightarrow> string" where
  "to_lower_copy s = map to_lower s"

lemma trim_copy_idem: "trim_copy (trim_copy s) = trim_copy s"
proof -
  define t where "t = dropWhile is_space s"
  have head: "t = [] \<or> \<not> is_space (hd t)" unfolding t_def using hd_dropWhile by blast
  have "dropWhile is_space (rev (dropWhile is_space (rev t))) = rev (dropWhile is_space (rev t))"
  proof (cases "rev (dropWhile is_space (rev t))")
    case Nil
    show ?thesis unfolding Nil by (rule dropWhile.simps)
  next
    case (Cons c cs)
    have "t = rev (dropWhile is_space (rev t)) @ rev (takeWhile is_space (rev t))"
      by (metis rev_append rev_rev_ident takeWhile_dropWhile_id)
    then have "hd t = c" "t \<noteq> []" using Cons by (metis append_Cons list.sel(1), auto)
    then show ?thesis using head Cons by simp
  qed
  then show ?thesis by (simp add: trim_copy_def t_def [symmetric])
qed

section \<open>Decimal digits\<close>

definition digit_char :: "nat \<Rightarrow> char" where
  "digit_char d = char_of (48 + d)"

definition digit_value :: "char \<Rightarrow> int" where
  "digit_value c = int (code c) - 48"

definition digits_value :: "string \<Rightarrow> int" where
  "digits_value ds = foldl (\<lambda>n c. 10 * n + digit_value c) 0 ds"

fun show_nat :: "nat \<Rightarrow> string" where
  "show_nat n = (if n < 10 then [digit_char n] else show_nat (n div 10) @ [digit_char (n mod 10)])"

declare show_nat.simps [simp del]

definition show_int :: "int \<Rightarrow> string" where
  "show_int n = (if n < 0 then CHR ''-'' # show_nat (nat (- n)) else show_nat (nat n))"

lemma code_digit_char: "d < 10 \<Longrightarrow> code (digit_char d) = 48 + d"
  by (simp add: digit_char_def code_def)

lemma digit_char_props: "d < 10 \<Longrightarrow> is_digit (digit_char d) \<and> digit_value (digit_char d) = int d"
  by (simp add: is_digit_def digit_value_def code_digit_char)

lemma digits_value_snoc: "digits_value (ds @ [c]) = 10 * digits_value ds + digit_value c"
  by (simp add: digits_value_def)

lemma show_nat_digits: "list_all is_digit (show_nat n) \<and> show_nat n \<noteq> [] \<and> digits_value (show_nat n) = int n"
proof (induction n rule: show_nat.induct)
  case (1 n)
  show ?case
  proof (cases "n < 10")
    case True
    then show ?thesis using digit_char_props [OF True]
      by (simp add: show_nat.simps [of n] digits_value_def)
  next
    case False
    have m: "n mod 10 < 10" by simp
    have "10 * int (n div 10) + int (n mod 10) = int n"
      by (metis mult_div_mod_eq of_nat_add of_nat_mult of_nat_numeral)
    then show ?thesis using 1 False digit_char_props [OF m]
      by (simp add: show_nat.simps [of n] digits_value_snoc)
  qed
qed

section \<open>Integers from text\<close>

datatype num_error = NoConversion | RangeError

fun split_sign :: "string \<Rightarrow> bool \<times> string" where
  "split_sign [] = (False, [])"
| "split_sign (c # s) = (if c = CHR ''-'' then (True, s) else if c = CHR ''+'' then (False, s) else (False, c # s))"

definition strto_int :: "string \<Rightarrow> (bool \<times> int \<times> string) option" where
  "strto_int s =
     (case split_sign (dropWhile is_space s) of (neg, s1) \<Rightarrow>
        if takeWhile is_digit s1 = [] then None
        else Some (neg, digits_value (takeWhile is_digit s1), dropWhile is_digit s1))"

definition signed :: "bool \<Rightarrow> int \<Rightarrow> int" where
  "signed neg n = (if neg then - n else n)"

definition sto_range :: "int \<Rightarrow> int \<Rightarrow> string \<Rightarrow> num_error + int \<times> string" where
  "sto_range lo hi s =
     (case strto_int s of None \<Rightarrow> Inl NoConversion
      | Some (neg, n, rest) \<Rightarrow>
          let v = signed neg n in if lo \<le> v \<and> v \<le> hi then Inr (v, rest) else Inl RangeError)"

definition stoi :: "string \<Rightarrow> num_error + int \<times> string" where
  "stoi = sto_range (- (2 ^ 31)) (2 ^ 31 - 1)"

definition stoll :: "string \<Rightarrow> num_error + int \<times> string" where
  "stoll = sto_range (- (2 ^ 63)) (2 ^ 63 - 1)"

text \<open>\<open>std::stol\<close> is \<open>stoll\<close>; \<open>std::stoul\<close> negates a magnitude that fits modulo $2^{64}$.\<close>

definition stoul :: "string \<Rightarrow> num_error + u64 \<times> string" where
  "stoul s =
     (case strto_int s of None \<Rightarrow> Inl NoConversion
      | Some (neg, n, rest) \<Rightarrow> if n < 2 ^ 64 then Inr (word_of_int (signed neg n), rest) else Inl RangeError)"

lemma digits_not_sign: "list_all is_digit ds \<Longrightarrow> ds \<noteq> [] \<Longrightarrow>
    split_sign (dropWhile is_space ds) = (False, ds) \<and> dropWhile is_space ds = ds"
  by (cases ds) (auto simp: char_simps)

lemma all_digits: "list_all is_digit ds \<Longrightarrow> takeWhile is_digit ds = ds \<and> dropWhile is_digit ds = []"
  by (induction ds) auto

lemma strto_digits:
  assumes "list_all is_digit ds" "ds \<noteq> []"
  shows "strto_int ds = Some (False, digits_value ds, [])" "strto_int (CHR ''-'' # ds) = Some (True, digits_value ds, [])"
proof -
  have t: "takeWhile is_digit ds = ds" "dropWhile is_digit ds = []" using all_digits [OF assms(1)] by blast+
  have s: "split_sign (dropWhile is_space ds) = (False, ds)" using digits_not_sign [OF assms] by blast
  have m: "split_sign (dropWhile is_space (CHR ''-'' # ds)) = (True, ds)" by (simp add: char_simps)
  show "strto_int ds = Some (False, digits_value ds, [])"
    unfolding strto_int_def s prod.case t using assms(2) by (simp only: if_False)
  show "strto_int (CHR ''-'' # ds) = Some (True, digits_value ds, [])"
    unfolding strto_int_def m prod.case t using assms(2) by (simp only: if_False)
qed

lemma strto_show_int: "strto_int (show_int n) = Some (n < 0, \<bar>n\<bar>, [])"
  using strto_digits [of "show_nat (nat (- n))"] strto_digits [of "show_nat (nat n)"]
    show_nat_digits [of "nat (- n)"] show_nat_digits [of "nat n"]
  by (auto simp: show_int_def)

lemma sto_range_show: "lo \<le> n \<Longrightarrow> n \<le> hi \<Longrightarrow> sto_range lo hi (show_int n) = Inr (n, [])"
  by (auto simp: sto_range_def strto_show_int signed_def)

end
