(* ===== verification/Floats.thy ===== *)
theory Floats
  imports Numbers
begin

text \<open>
  The float formats of tag values. A \<open>float\<close> or \<open>double\<close> that crosses a PLC register is its bit
  pattern; \<open>decode\<close> gives the number arithmetic uses and \<open>encode\<close> rounds one to the nearest
  pattern. Arithmetic does not tell the two zeros apart, and all NaNs become the quiet one.
  \<open>std::stod\<close> and \<open>std::stof\<close> round the exact decimal or hexadecimal value once and throw
  \<open>out\_of\_range\<close> on overflow and on a result lost to underflow.
\<close>

section \<open>Formats\<close>

text \<open>Fraction bits, the exponent of the least subnormal, and the exponent field's width.\<close>

record float_format =
  frac_bits :: nat
  least_exp :: int
  exp_bits :: nat

definition binary32 :: float_format where
  "binary32 = \<lparr>frac_bits = 23, least_exp = -149, exp_bits = 8\<rparr>"

definition binary64 :: float_format where
  "binary64 = \<lparr>frac_bits = 52, least_exp = -1074, exp_bits = 11\<rparr>"

definition exp_max :: "float_format \<Rightarrow> nat" where
  "exp_max f = 2 ^ exp_bits f - 1"

definition ulp_exp :: "float_format \<Rightarrow> rat \<Rightarrow> int" where
  "ulp_exp f x = max (ilog2 \<bar>x\<bar> - int (frac_bits f)) (least_exp f)"

definition round_to :: "float_format \<Rightarrow> rat \<Rightarrow> rat" where
  "round_to f x = (if x = 0 then 0 else of_int (rne (x / 2 powi ulp_exp f x)) * 2 powi ulp_exp f x)"

text \<open>The least power of two that is out of the format's range.\<close>

definition overflow_at :: "float_format \<Rightarrow> rat" where
  "overflow_at f = 2 powi (least_exp f + int (frac_bits f) + int (exp_max f) - 1)"

definition round_dbl :: "float_format \<Rightarrow> rat \<Rightarrow> dbl" where
  "round_dbl f x = (let r = round_to f x in if overflow_at f \<le> \<bar>r\<bar> then DInf (x < 0) else DFin r)"

definition decode :: "float_format \<Rightarrow> int \<Rightarrow> dbl" where
  "decode f w =
     (let m = w mod 2 ^ frac_bits f; e = (w div 2 ^ frac_bits f) mod 2 ^ exp_bits f;
          neg = (w div 2 ^ (frac_bits f + exp_bits f)) mod 2 = 1;
          sg = (if neg then -1 else 1)
      in if e = int (exp_max f) then if m = 0 then DInf neg else DNaN
         else if e = 0 then DFin (sg * of_int m * 2 powi least_exp f)
         else DFin (sg * of_int (2 ^ frac_bits f + m) * 2 powi (e - 1 + least_exp f)))"

definition encode :: "float_format \<Rightarrow> dbl \<Rightarrow> int" where
  "encode f d =
     (let bits = (\<lambda>neg e m. (if neg then 2 ^ (frac_bits f + exp_bits f) else 0) + e * 2 ^ frac_bits f + m) in
      case d of
        DNaN \<Rightarrow> bits False (int (exp_max f)) (2 ^ (frac_bits f - 1))
      | DInf n \<Rightarrow> bits n (int (exp_max f)) 0
      | DFin x \<Rightarrow>
          (case round_dbl f x of
             DInf n \<Rightarrow> bits n (int (exp_max f)) 0
           | DNaN \<Rightarrow> 0
           | DFin r \<Rightarrow>
               if r = 0 then 0
               else
                 let q = floor (\<bar>r\<bar> / 2 powi ulp_exp f r) in
                 if q < 2 ^ frac_bits f then bits (r < 0) 0 q
                 else bits (r < 0) (ulp_exp f r - least_exp f + 1) (q - 2 ^ frac_bits f)))"

definition f32_of :: "dbl \<Rightarrow> u32" where
  "f32_of d = word_of_int (encode binary32 d)"

definition f64_of :: "dbl \<Rightarrow> u64" where
  "f64_of d = word_of_int (encode binary64 d)"

definition dbl_of_f32 :: "u32 \<Rightarrow> dbl" where
  "dbl_of_f32 w = decode binary32 (uint w)"

definition dbl_of_f64 :: "u64 \<Rightarrow> dbl" where
  "dbl_of_f64 w = decode binary64 (uint w)"

section \<open>Rounding to integers and narrowing\<close>

text \<open>
  \<open>std::llround\<close> rounds halves away from zero; a value outside \<open>long long\<close>, an infinity or a NaN
  gives the indefinite integer of x86-64.
\<close>

definition round_away :: "rat \<Rightarrow> int" where
  "round_away x = (if 0 \<le> x then floor (x + 1/2) else ceiling (x - 1/2))"

definition llround :: "dbl \<Rightarrow> int" where
  "llround d =
     (case d of DFin x \<Rightarrow>
        let n = round_away x in if - (2 ^ 63) \<le> n \<and> n < 2 ^ 63 then n else - (2 ^ 63)
      | _ \<Rightarrow> - (2 ^ 63))"

text \<open>A cast to a 32-bit \<open>int\<close> of a wider integer keeps the low bits.\<close>

definition to_int32 :: "int \<Rightarrow> int" where
  "to_int32 n = sint (word_of_int n :: 32 word)"

text \<open>\<open>static\_cast<int>\<close> of a double truncates; out of range x86-64 gives \<open>INT\_MIN\<close>.\<close>

definition dbl_to_int32 :: "dbl \<Rightarrow> int" where
  "dbl_to_int32 d =
     (case d of DFin x \<Rightarrow>
        let n = (if 0 \<le> x then floor x else ceiling x) in
        if - (2 ^ 31) \<le> n \<and> n < 2 ^ 31 then n else - (2 ^ 31)
      | _ \<Rightarrow> - (2 ^ 31))"

section \<open>Decimal and hexadecimal text\<close>

definition hex_value :: "char \<Rightarrow> int option" where
  "hex_value c =
     (if is_digit c then Some (digit_value c)
      else let l = to_lower c in
        if 97 \<le> code l \<and> code l \<le> 102 then Some (int (code l) - 87) else None)"

definition is_hex :: "char \<Rightarrow> bool" where
  "is_hex c \<longleftrightarrow> hex_value c \<noteq> None"

definition hex_number :: "string \<Rightarrow> int" where
  "hex_number ds = foldl (\<lambda>n c. 16 * n + (case hex_value c of None \<Rightarrow> 0 | Some v \<Rightarrow> v)) 0 ds"

text \<open>An exponent counts only if a digit follows its letter and sign.\<close>

definition read_exponent :: "char \<Rightarrow> string \<Rightarrow> int \<times> string" where
  "read_exponent letter s =
     (case s of [] \<Rightarrow> (0, s)
      | c # s1 \<Rightarrow>
          if to_lower c \<noteq> letter then (0, s)
          else (case split_sign s1 of (neg, s2) \<Rightarrow>
            if takeWhile is_digit s2 = [] then (0, s)
            else (signed neg (digits_value (takeWhile is_digit s2)), dropWhile is_digit s2)))"

definition after_dot :: "(char \<Rightarrow> bool) \<Rightarrow> string \<Rightarrow> string \<times> string" where
  "after_dot P s =
     (case s of [] \<Rightarrow> ([], s)
      | c # s1 \<Rightarrow> if c = CHR ''.'' then (takeWhile P s1, dropWhile P s1) else ([], s))"

text \<open>The magnitude after the sign: an exact rational or a special value, and the rest.\<close>

definition read_decimal :: "string \<Rightarrow> (rat \<times> string) option" where
  "read_decimal s =
     (let whole = takeWhile is_digit s in
      case after_dot is_digit (dropWhile is_digit s) of (fracs, s1) \<Rightarrow>
        if whole = [] \<and> fracs = [] then None
        else (case read_exponent CHR ''e'' s1 of (e, rest) \<Rightarrow>
          Some (of_int (digits_value (whole @ fracs)) * 10 powi (e - int (length fracs)), rest)))"

definition read_hexadecimal :: "string \<Rightarrow> (rat \<times> string) option" where
  "read_hexadecimal s =
     (let whole = takeWhile is_hex s in
      case after_dot is_hex (dropWhile is_hex s) of (fracs, s1) \<Rightarrow>
        if whole = [] \<and> fracs = [] then None
        else (case read_exponent CHR ''p'' s1 of (e, rest) \<Rightarrow>
          Some (of_int (hex_number (whole @ fracs)) * 2 powi (e - 4 * int (length fracs)), rest)))"

definition nan_payload :: "string \<Rightarrow> string" where
  "nan_payload s =
     (case s of c # s1 \<Rightarrow>
        if c = CHR ''('' then
          (case dropWhile (\<lambda>c. is_alnum c \<or> c = CHR ''_'') s1 of
             d # s2 \<Rightarrow> if d = CHR '')'' then s2 else s | [] \<Rightarrow> s)
        else s
      | [] \<Rightarrow> s)"

text \<open>What \<open>strtod\<close> reads: an exact number, an infinity or a NaN.\<close>

datatype strtod_value = Exact rat | Infinite | NotANumber

definition read_magnitude :: "string \<Rightarrow> (strtod_value \<times> string) option" where
  "read_magnitude s =
     (let low = to_lower_copy s in
      if take 8 low = ''infinity'' then Some (Infinite, drop 8 s)
      else if take 3 low = ''inf'' then Some (Infinite, drop 3 s)
      else if take 3 low = ''nan'' then Some (NotANumber, nan_payload (drop 3 s))
      else
        (case (if take 2 low = ''0x'' then read_hexadecimal (drop 2 s) else None) of
           Some (x, rest) \<Rightarrow> Some (Exact x, rest)
         | None \<Rightarrow> (case read_decimal s of None \<Rightarrow> None | Some (x, rest) \<Rightarrow> Some (Exact x, rest))))"

definition strto_float :: "float_format \<Rightarrow> string \<Rightarrow> num_error + dbl \<times> string" where
  "strto_float f s =
     (case split_sign (dropWhile is_space s) of (neg, s1) \<Rightarrow>
      case read_magnitude s1 of
        None \<Rightarrow> Inl NoConversion
      | Some (Infinite, rest) \<Rightarrow> Inr (DInf neg, rest)
      | Some (NotANumber, rest) \<Rightarrow> Inr (DNaN, rest)
      | Some (Exact m, rest) \<Rightarrow>
          (let x = (if neg then - m else m); d = round_dbl f x in
           case d of
             DFin r \<Rightarrow>
               if r \<noteq> x \<and> \<bar>r\<bar> < 2 powi (least_exp f + int (frac_bits f)) then Inl RangeError
               else Inr (DFin r, rest)
           | _ \<Rightarrow> Inl RangeError))"

definition stod :: "string \<Rightarrow> num_error + dbl \<times> string" where
  "stod = strto_float binary64"

definition stof :: "string \<Rightarrow> num_error + dbl \<times> string" where
  "stof = strto_float binary32"

section \<open>std::to\_string of a double\<close>

text \<open>Six decimals, the exact value rounded half to even.\<close>

definition pad_left :: "nat \<Rightarrow> string \<Rightarrow> string" where
  "pad_left n s = replicate (n - length s) (CHR ''0'') @ s"

definition fixed6 :: "rat \<Rightarrow> string" where
  "fixed6 x =
     (let n = nat (rne (\<bar>x\<bar> * 1000000)) in
      (if x < 0 then ''-'' else []) @ show_nat (n div 1000000) @ ''.'' @ pad_left 6 (show_nat (n mod 1000000)))"

definition to_string_dbl :: "dbl \<Rightarrow> string" where
  "to_string_dbl d = (case d of DFin x \<Rightarrow> fixed6 x | DInf n \<Rightarrow> (if n then ''-inf'' else ''inf'') | DNaN \<Rightarrow> ''nan'')"

section \<open>Facts\<close>

lemma round_away_of_int [simp]: "round_away (of_int n) = n"
  by (simp add: round_away_def floor_eq_iff ceiling_eq_iff)

lemma round_away_le: "x \<le> of_int n \<Longrightarrow> round_away x \<le> n"
  by (auto simp: round_away_def floor_le_iff ceiling_le_iff)

lemma round_away_ge: "of_int n \<le> x \<Longrightarrow> n \<le> round_away x"
  by (auto simp: round_away_def le_floor_iff le_ceiling_iff)

lemma round_away_near: "\<bar>of_int (round_away x) - x\<bar> \<le> 1/2"
  unfolding round_away_def by (auto simp: abs_if) linarith+

section \<open>Floats to text as \<open>operator<<\<close> writes them\<close>

text \<open>The decimal exponent: the power of ten at or below the magnitude.\<close>

definition ilog10 :: "rat \<Rightarrow> int" where
  "ilog10 x = (let (n, d) = quotient_of x; e = int (length (show_nat (nat n))) - int (length (show_nat (nat d)))
              in if 10 powi e \<le> x then e else e - 1)"

definition strip_zeros :: "string \<Rightarrow> string" where
  "strip_zeros ds = rev (dropWhile (\<lambda>c. c = CHR ''0'') (rev ds))"

definition with_fraction :: "string \<Rightarrow> string \<Rightarrow> string" where
  "with_fraction whole frac_digits =
     (let f = strip_zeros frac_digits in if f = [] then whole else whole @ CHR ''.'' # f)"

text \<open>\<open>%.6g\<close>, the default of a stream: six significant digits, in scientific form outside
  $10^{-4} \ldots 10^6$, trailing zeros dropped.\<close>

definition show_g6 :: "dbl \<Rightarrow> string" where
  "show_g6 d =
     (case d of
        DNaN \<Rightarrow> ''nan''
      | DInf n \<Rightarrow> (if n then ''-inf'' else ''inf'')
      | DFin x \<Rightarrow>
          if x = 0 then ''0''
          else
            let e0 = ilog10 \<bar>x\<bar>; q0 = rne (\<bar>x\<bar> / 10 powi (e0 - 5));
                e = (if q0 = 1000000 then e0 + 1 else e0); q = (if q0 = 1000000 then 100000 else q0);
                ds = show_nat (nat q);
                body =
                  (if - 4 \<le> e \<and> e < 6 then
                     if 0 \<le> e then with_fraction (take (nat (e + 1)) ds) (drop (nat (e + 1)) ds)
                     else with_fraction ''0'' (replicate (nat (- e - 1)) (CHR ''0'') @ ds)
                   else with_fraction (take 1 ds) (drop 1 ds) @ ''e'' @ (if e < 0 then ''-'' else ''+'') @
                     pad_left 2 (show_nat (nat \<bar>e\<bar>)))
            in (if x < 0 then CHR ''-'' # body else body))"

end
