(* ===== verification/TagValues.thy ===== *)
theory TagValues
  imports Floats OrderedMap Freshness
begin

text \<open>
  Tag values, tag configurations and snapshots (opcbridge/main.cpp): the \<open>TagValue\<close> variant, its
  conversions from text and to double, the range-checked cast of a scaled value, linear scaling and
  bit extraction. A \<open>float\<close> or \<open>double\<close> alternative holds its bit pattern. Each
  record has a \<open>new\_\<close> constant: the struct as C++ default-initialises it.
\<close>

section \<open>Data\<close>

datatype tag_value =
    VBool bool
  | VI16 "16 word"
  | VI32 "32 word"
  | VU16 "16 word"
  | VU32 "32 word"
  | VF32 u32
  | VF64 u64
  | VStr string

datatype poll_cache_state = CacheActive | CacheWaiting | CacheInactive

record tag_snapshot =
  snap_connection :: string
  snap_name :: string
  snap_datatype :: string
  snap_value :: tag_value
  snap_time :: time
  snap_quality :: int
  snap_poll_read :: poll_read_stamp
  snap_polling :: poll_cache_state
  snap_array :: "tag_value list"

record connection_config =
  conn_id :: string
  conn_name :: string
  conn_driver :: string
  conn_gateway :: string
  conn_path :: string
  conn_plc_type :: string
  conn_enabled :: bool
  polling_mode :: string
  polling_pacing :: string
  poll_active_only :: bool
  poll_active_only_configured :: bool
  poll_batch_size :: int
  poll_time_budget_ms :: int
  poll_max_reads_per_sec :: int
  poll_lanes :: int
  conn_slot :: int
  default_timeout_ms :: int
  default_read_ms :: int
  default_write_ms :: int
  startup_handle_wait_ms :: int
  conn_debug :: int
  mqtt_subscription_topics :: "string list"
  mqtt_publication_topics :: "string list"
  opcua_endpoint :: string
  opcua_username :: string
  opcua_password :: string
  opcua_secure :: bool
  opcua_security_profile :: string
  opcua_client_certificate :: string
  opcua_client_private_key :: string
  opcua_trusted_server_certificate :: string
  opcua_application_uri :: string

definition new_connection_config :: connection_config where
  "new_connection_config = \<lparr>conn_id = [], conn_name = [], conn_driver = [], conn_gateway = [], conn_path = [],
     conn_plc_type = [], conn_enabled = True, polling_mode = ''standard'', polling_pacing = ''balanced'',
     poll_active_only = True, poll_active_only_configured = False, poll_batch_size = 0, poll_time_budget_ms = 0,
     poll_max_reads_per_sec = 0, poll_lanes = 1, conn_slot = 0, default_timeout_ms = 1000, default_read_ms = 1000,
     default_write_ms = 1000, startup_handle_wait_ms = 0, conn_debug = 0, mqtt_subscription_topics = [],
     mqtt_publication_topics = [], opcua_endpoint = [], opcua_username = [], opcua_password = [], opcua_secure = False,
     opcua_security_profile = [], opcua_client_certificate = [], opcua_client_private_key = [],
     opcua_trusted_server_certificate = [], opcua_application_uri = []\<rparr>"

record tag_config =
  logical_name :: string
  plc_tag_name :: string
  tag_path :: string
  source_type :: string
  initial_value :: string
  datatype_name :: string
  word_order :: string
  elem_count :: int
  scan_ms :: int
  tag_enabled :: bool
  tag_writable :: bool
  tag_invert :: bool
  source_tag :: string
  source_bit :: int
  scaling :: string
  raw_low :: dbl
  raw_high :: dbl
  scaled_low :: dbl
  scaled_high :: dbl
  clamp_low :: bool
  clamp_high :: bool
  scaled_datatype :: string
  log_event_on_change :: bool
  log_periodic :: bool
  log_periodic_mode :: string
  log_periodic_interval_sec :: int
  log_hourly_minute :: int
  log_daily_hour :: int
  log_daily_minute :: int

definition new_tag_config :: tag_config where
  "new_tag_config = \<lparr>logical_name = [], plc_tag_name = [], tag_path = [], source_type = ''plc'', initial_value = [],
     datatype_name = [], word_order = ''hi_lo'', elem_count = 1, scan_ms = 1000, tag_enabled = True,
     tag_writable = False, tag_invert = False, source_tag = [], source_bit = - 1, scaling = ''none'',
     raw_low = DFin 0, raw_high = DFin 1, scaled_low = DFin 0, scaled_high = DFin 1, clamp_low = False,
     clamp_high = False, scaled_datatype = [], log_event_on_change = False, log_periodic = False,
     log_periodic_mode = [], log_periodic_interval_sec = 0, log_hourly_minute = 0, log_daily_hour = 0,
     log_daily_minute = 0\<rparr>"

record tag_runtime =
  poll_source :: string
  cfg :: tag_config
  handle :: int
  handle_deferred :: bool
  next_poll :: time
  scaling_linear :: bool
  scaling_valid :: bool
  scale_slope :: dbl
  scale_offset :: dbl
  inv_slope :: dbl
  inv_offset :: dbl
  out_datatype :: string
  periodic_enabled :: bool
  next_periodic_log :: time

text \<open>\<open>not\_found\<close> is libplctag's \<open>PLCTAG\_ERR\_NOT\_FOUND\<close>.\<close>

definition new_tag_runtime :: "int \<Rightarrow> tag_runtime" where
  "new_tag_runtime not_found = \<lparr>poll_source = [], cfg = new_tag_config, handle = not_found, handle_deferred = False,
     next_poll = no_time, scaling_linear = False, scaling_valid = True, scale_slope = DFin 1, scale_offset = DFin 0,
     inv_slope = DFin 1, inv_offset = DFin 0, out_datatype = [], periodic_enabled = False, next_periodic_log = no_time\<rparr>"

definition new_snapshot :: tag_snapshot where
  "new_snapshot = \<lparr>snap_connection = [], snap_name = [], snap_datatype = [], snap_value = VBool False, snap_time = no_time,
     snap_quality = 0, snap_poll_read = no_stamp, snap_polling = CacheActive, snap_array = []\<rparr>"

section \<open>Data types by name\<close>

definition is_supported_datatype :: "string \<Rightarrow> bool" where
  "is_supported_datatype dt \<longleftrightarrow> dt \<in> {''bool'', ''int16'', ''uint16'', ''int32'', ''uint32'', ''float32'', ''float64'', ''string''}"

definition datatype_size :: "string \<Rightarrow> int option" where
  "datatype_size dt =
     (if dt = ''bool'' then Some 1
      else if dt = ''int16'' \<or> dt = ''uint16'' then Some 2
      else if dt = ''int32'' \<or> dt = ''uint32'' then Some 4
      else if dt = ''float32'' then Some 4
      else if dt = ''float64'' then Some 8
      else if dt = ''string'' then Some 88
      else None)"

definition is_numeric_datatype :: "string \<Rightarrow> bool" where
  "is_numeric_datatype dt \<longleftrightarrow> dt \<in> {''int16'', ''uint16'', ''int32'', ''uint32'', ''float32'', ''float64''}"

definition normalize_scaled_datatype :: "string \<Rightarrow> string" where
  "normalize_scaled_datatype dt =
     (if dt = [] then []
      else if dt \<in> {''int16'', ''uint16'', ''int32'', ''uint32'', ''float32'', ''float64''} then dt
      else [])"

definition is_memory_tag :: "tag_config \<Rightarrow> bool" where
  "is_memory_tag c \<longleftrightarrow> to_lower_copy (trim_copy (source_type c)) = ''memory''"

definition default_tag_value_for_datatype :: "string \<Rightarrow> tag_value" where
  "default_tag_value_for_datatype dt =
     (if dt = ''bool'' then VBool False
      else if dt = ''int16'' then VI16 0
      else if dt = ''uint16'' then VU16 0
      else if dt = ''int32'' then VI32 0
      else if dt = ''uint32'' then VU32 0
      else if dt = ''float32'' then VF32 0
      else if dt = ''float64'' then VF64 0
      else VStr [])"

section \<open>From text\<close>

definition parse_bool :: "string \<Rightarrow> bool option" where
  "parse_bool s =
     (let v = to_lower_copy s in
      if v \<in> {''1'', ''true'', ''on'', ''yes''} then Some True
      else if v \<in> {''0'', ''false'', ''off'', ''no''} then Some False
      else None)"

definition ok_value :: "('e + 'a \<times> string) \<Rightarrow> 'a option" where
  "ok_value r = (case r of Inl e \<Rightarrow> None | Inr (a, rest) \<Rightarrow> Some a)"

definition parse_string_to_tagvalue :: "string \<Rightarrow> string \<Rightarrow> tag_value option" where
  "parse_string_to_tagvalue s dt =
     (if dt = ''bool'' then map_option VBool (parse_bool s)
      else if dt = ''int16'' then map_option (\<lambda>n. VI16 (word_of_int n)) (ok_value (stoi s))
      else if dt = ''uint16'' then map_option (\<lambda>w. VU16 (ucast w)) (ok_value (stoul s))
      else if dt = ''int32'' then map_option (\<lambda>n. VI32 (word_of_int n)) (ok_value (stoll s))
      else if dt = ''uint32'' then map_option (\<lambda>w. VU32 (ucast w)) (ok_value (stoul s))
      else if dt = ''float32'' then map_option (\<lambda>d. VF32 (f32_of d)) (ok_value (stof s))
      else if dt = ''float64'' then map_option (\<lambda>d. VF64 (f64_of d)) (ok_value (stod s))
      else if dt = ''string'' then Some (VStr s)
      else None)"

section \<open>To and from double\<close>

fun tagvalue_to_double :: "tag_value \<Rightarrow> dbl option" where
  "tagvalue_to_double (VBool b) = None"
| "tagvalue_to_double (VStr s) = None"
| "tagvalue_to_double (VI16 w) = Some (dbl_of_int (sint w))"
| "tagvalue_to_double (VI32 w) = Some (dbl_of_int (sint w))"
| "tagvalue_to_double (VU16 w) = Some (dbl_of_int (uint w))"
| "tagvalue_to_double (VU32 w) = Some (dbl_of_int (uint w))"
| "tagvalue_to_double (VF32 w) = Some (dbl_of_f32 w)"
| "tagvalue_to_double (VF64 w) = Some (dbl_of_f64 w)"

definition out_of_range :: "dbl \<Rightarrow> int \<Rightarrow> int \<Rightarrow> bool" where
  "out_of_range v lo hi \<longleftrightarrow> dlt v (dbl_of_int lo) \<or> dlt (dbl_of_int hi) v"

definition cast_double_to_tagvalue :: "dbl \<Rightarrow> string \<Rightarrow> string + tag_value" where
  "cast_double_to_tagvalue v dt =
     (if dt = ''float64'' then Inr (VF64 (f64_of v))
      else if dt = ''float32'' then Inr (VF32 (f32_of v))
      else if dt = ''int32'' then
        if out_of_range v (- (2 ^ 31)) (2 ^ 31 - 1) then Inl ''Scaled value out of range for int32''
        else Inr (VI32 (word_of_int (llround v)))
      else if dt = ''uint32'' then
        if out_of_range v 0 (2 ^ 32 - 1) then Inl ''Scaled value out of range for uint32''
        else Inr (VU32 (word_of_int (llround v)))
      else if dt = ''int16'' then
        if out_of_range v (- (2 ^ 15)) (2 ^ 15 - 1) then Inl ''Scaled value out of range for int16''
        else Inr (VI16 (word_of_int (llround v)))
      else if dt = ''uint16'' then
        if out_of_range v 0 (2 ^ 16 - 1) then Inl ''Scaled value out of range for uint16''
        else Inr (VU16 (word_of_int (llround v)))
      else Inl (''Unsupported scaled datatype '' @ [CHR 0x27] @ dt @ [CHR 0x27]))"

section \<open>Scaling\<close>

definition init_tag_scaling :: "tag_runtime \<Rightarrow> tag_runtime" where
  "init_tag_scaling rt =
     (let c = cfg rt;
          plain = rt\<lparr>scaling_linear := False, scaling_valid := True, scale_slope := DFin 1, scale_offset := DFin 0,
            inv_slope := DFin 1, inv_offset := DFin 0, out_datatype := datatype_name c\<rparr>;
          mode = to_lower_copy (scaling c);
          rawSpan = dsub (raw_high c) (raw_low c);
          scaledSpan = dsub (scaled_high c) (scaled_low c)
      in if mode = [] \<or> mode = ''none'' then plain
         else if mode \<noteq> ''linear'' then plain\<lparr>cfg := c\<lparr>scaling := ''none''\<rparr>\<rparr>
         else if \<not> is_numeric_datatype (datatype_name c) then plain
         else if deq rawSpan (DFin 0) \<or> deq scaledSpan (DFin 0) then plain
         else
           let slope = ddiv scaledSpan rawSpan; inv = ddiv rawSpan scaledSpan;
               outDt = normalize_scaled_datatype (scaled_datatype c)
           in plain\<lparr>scaling_linear := True, scale_slope := slope,
                scale_offset := dsub (scaled_low c) (dmul (raw_low c) slope),
                inv_slope := inv, inv_offset := dsub (raw_low c) (dmul (scaled_low c) inv),
                out_datatype := (if outDt = [] then ''float64'' else outDt)\<rparr>)"

definition scale_value :: "tag_runtime \<Rightarrow> dbl \<Rightarrow> dbl" where
  "scale_value rt raw =
     (let s0 = dadd (dmul raw (scale_slope rt)) (scale_offset rt);
          s1 = (if clamp_low (cfg rt) then dmax s0 (scaled_low (cfg rt)) else s0)
      in if clamp_high (cfg rt) then dmin s1 (scaled_high (cfg rt)) else s1)"

text \<open>The published value and its data type: the raw value, the scaled one in the output type, or
  the scaled one as a double when it does not fit that type.\<close>

definition publish_scaled :: "tag_runtime \<Rightarrow> tag_value \<Rightarrow> tag_value \<times> string" where
  "publish_scaled rt raw =
     (let dt = datatype_name (cfg rt); outDt = (if out_datatype rt = [] then ''float64'' else out_datatype rt) in
      if \<not> scaling_linear rt then (raw, dt)
      else case tagvalue_to_double raw of
          None \<Rightarrow> (raw, dt)
        | Some rawNum \<Rightarrow>
            let scaled = scale_value rt rawNum in
            (case cast_double_to_tagvalue scaled outDt of
               Inl err \<Rightarrow> (VF64 (f64_of scaled), ''float64'')
             | Inr v \<Rightarrow> (v, outDt)))"

section \<open>Bits of a value\<close>

definition extract_bit_from_snapshot :: "tag_snapshot \<Rightarrow> int \<Rightarrow> bool option" where
  "extract_bit_from_snapshot s b =
     (if b < 0 \<or> snap_array s \<noteq> [] then None
      else
        (case (case snap_value s of
            VI16 w \<Rightarrow> Some (ucast w :: u64)
          | VU16 w \<Rightarrow> Some (ucast w)
          | VI32 w \<Rightarrow> Some (ucast w)
          | VU32 w \<Rightarrow> Some (ucast w)
          | VBool v \<Rightarrow> if b = 0 then Some (if v then 1 else 0) else None
          | _ \<Rightarrow> None) of
           None \<Rightarrow> None
         | Some word \<Rightarrow> if 64 \<le> b then None else Some (bit word (nat b))))"

section \<open>The cast is exact or refused\<close>

definition int_range :: "string \<Rightarrow> (int \<times> int) option" where
  "int_range dt =
     (if dt = ''int16'' then Some (- 32768, 32767)
      else if dt = ''uint16'' then Some (0, 65535)
      else if dt = ''int32'' then Some (- 2147483648, 2147483647)
      else if dt = ''uint32'' then Some (0, 4294967295)
      else None)"

fun int_value :: "tag_value \<Rightarrow> int option" where
  "int_value (VI16 w) = Some (sint w)"
| "int_value (VI32 w) = Some (sint w)"
| "int_value (VU16 w) = Some (uint w)"
| "int_value (VU32 w) = Some (uint w)"
| "int_value _ = None"

lemma dbl_of_int_exact: "\<bar>n\<bar> < 2 ^ 53 \<Longrightarrow> dbl_of_int n = DFin (of_int n)"
  by (simp add: dbl_of_int_def mk_dbl_of_int)

lemma out_of_range_Fin:
  "\<bar>lo\<bar> < 2 ^ 53 \<Longrightarrow> \<bar>hi\<bar> < 2 ^ 53 \<Longrightarrow> out_of_range (DFin x) lo hi \<longleftrightarrow> x < of_int lo \<or> of_int hi < x"
  by (simp add: out_of_range_def dbl_of_int_exact)

lemma cast_by_type:
  "cast_double_to_tagvalue v ''int16'' = (if out_of_range v (- 32768) 32767 then Inl ''Scaled value out of range for int16'' else Inr (VI16 (word_of_int (llround v))))"
  "cast_double_to_tagvalue v ''uint16'' = (if out_of_range v 0 65535 then Inl ''Scaled value out of range for uint16'' else Inr (VU16 (word_of_int (llround v))))"
  "cast_double_to_tagvalue v ''int32'' = (if out_of_range v (- 2147483648) 2147483647 then Inl ''Scaled value out of range for int32'' else Inr (VI32 (word_of_int (llround v))))"
  "cast_double_to_tagvalue v ''uint32'' = (if out_of_range v 0 4294967295 then Inl ''Scaled value out of range for uint32'' else Inr (VU32 (word_of_int (llround v))))"
  by (simp_all add: cast_double_to_tagvalue_def)

lemma signed_fits:
  "- (2 ^ (LENGTH('a) - Suc 0)) \<le> i \<Longrightarrow> i < 2 ^ (LENGTH('a) - Suc 0) \<Longrightarrow> sint (word_of_int i :: 'a::len word) = i"
  by (simp add: signed_take_bit_int_eq_self signed_of_int)

lemma unsigned_fits: "0 \<le> i \<Longrightarrow> i < 2 ^ LENGTH('a) \<Longrightarrow> uint (word_of_int i :: 'a::len word) = i"
  by (simp add: uint_word_of_int)

lemma llround_Fin:
  assumes "of_int lo \<le> x" "x \<le> of_int hi" "- (2 ^ 63) \<le> lo" "hi < 2 ^ 63"
  shows "llround (DFin x) = round_away x \<and> lo \<le> round_away x \<and> round_away x \<le> hi"
  using round_away_ge [OF assms(1)] round_away_le [OF assms(2)] assms(3,4)
  by (simp add: llround_def Let_def)

text \<open>
  C30. The cast to an integer type is exact or refused: a finite value is refused exactly when it
  lies outside the type's range, and otherwise the result is the nearest integer, halves away from
  zero, with no wrap-around; infinities are refused. A NaN is not refused: it fails no comparison
  and comes out as 0.
\<close>

theorem integer_cast_exact_or_refused:
  assumes "int_range dt = Some (lo, hi)"
  shows "((\<exists>err. cast_double_to_tagvalue (DFin x) dt = Inl err) \<longleftrightarrow> x < of_int lo \<or> of_int hi < x) \<and>
    (of_int lo \<le> x \<and> x \<le> of_int hi \<longrightarrow>
       (\<exists>v. cast_double_to_tagvalue (DFin x) dt = Inr v \<and> int_value v = Some (round_away x) \<and>
            \<bar>of_int (round_away x) - x\<bar> \<le> 1/2)) \<and>
    (\<exists>err. cast_double_to_tagvalue (DInf n) dt = Inl err) \<and>
    cast_double_to_tagvalue DNaN dt = Inr (default_tag_value_for_datatype dt)"
proof -
  consider "dt = ''int16''" "lo = - 32768" "hi = 32767" | "dt = ''uint16''" "lo = 0" "hi = 65535"
    | "dt = ''int32''" "lo = - 2147483648" "hi = 2147483647" | "dt = ''uint32''" "lo = 0" "hi = 4294967295"
    using assms by (auto simp: int_range_def split: if_splits)
  note types = this
  have small: "\<bar>lo\<bar> < 2 ^ 53" "\<bar>hi\<bar> < 2 ^ 53" "- (2 ^ 63) \<le> lo" "hi < 2 ^ 63" by (cases rule: types; simp)+
  note fin = out_of_range_Fin [OF small(1,2), of x]
  have inf: "out_of_range (DInf n) lo hi" "\<not> out_of_range DNaN lo hi"
    by (cases n; simp add: out_of_range_def dbl_of_int_exact [OF small(1)] dbl_of_int_exact [OF small(2)])+
  have err: "(\<exists>err. cast_double_to_tagvalue d dt = Inl err) \<longleftrightarrow> out_of_range d lo hi" for d
    by (cases rule: types) (simp_all add: cast_by_type)
  have good: "\<exists>v. cast_double_to_tagvalue (DFin x) dt = Inr v \<and> int_value v = Some (round_away x)"
    if x: "of_int lo \<le> x" "x \<le> of_int hi"
  proof -
    note r = llround_Fin [OF x small(3,4)]
    have no: "\<not> out_of_range (DFin x) lo hi" using fin x by auto
    show ?thesis
    proof (cases rule: types)
      case 1
      then show ?thesis using r no signed_fits [where 'a = 16, of "round_away x"] by (simp add: cast_by_type)
    next
      case 2
      then show ?thesis using r no unsigned_fits [where 'a = 16, of "round_away x"] by (simp add: cast_by_type)
    next
      case 3
      then show ?thesis using r no signed_fits [where 'a = 32, of "round_away x"] by (simp add: cast_by_type)
    next
      case 4
      then show ?thesis using r no unsigned_fits [where 'a = 32, of "round_away x"] by (simp add: cast_by_type)
    qed
  qed
  have "llround DNaN = - (2 ^ 63)" by (simp add: llround_def)
  then have "cast_double_to_tagvalue DNaN dt = Inr (default_tag_value_for_datatype dt)"
    using inf(2) by (cases rule: types) (simp_all add: cast_by_type default_tag_value_for_datatype_def)
  with err [of "DFin x"] err [of "DInf n"] fin inf good round_away_near show ?thesis by auto
qed

theorem integer_cast_exact_or_refused_witness:
  "\<exists>v. cast_double_to_tagvalue (DFin (- 5 / 2)) ''int16'' = Inr v \<and> int_value v = Some (- 3)"
proof -
  have "int_range ''int16'' = Some (- 32768, 32767)" by (simp add: int_range_def)
  from integer_cast_exact_or_refused [OF this, of "- 5 / 2"] show ?thesis by (auto simp: round_away_def ceiling_divide_eq_div)
qed

end
