(* ===== verification/PlcWords.thy ===== *)
theory PlcWords
  imports TagValues
begin

text \<open>
  Tag values in PLC buffers (opcbridge/main.cpp): reading a snapshot at an offset, writing a value or
  its text, and the word access used for single-bit writes. Modbus registers have 16 bits, so a
  wider value is split in the tag's word order. libplctag is a parameter: a record of its getters
  and setters over a buffer state, keyed by handle and byte offset; \<open>p\_ok\<close> is
  \<open>PLCTAG\_STATUS\_OK\<close>. A float crosses it as its bits.
\<close>

unbundle bit_operations_syntax

record 'b plc =
  p_ok :: int
  p_get_bit :: "int \<Rightarrow> int \<Rightarrow> 'b \<Rightarrow> int"
  p_get_i8 :: "int \<Rightarrow> int \<Rightarrow> 'b \<Rightarrow> 8 word"
  p_get_i16 :: "int \<Rightarrow> int \<Rightarrow> 'b \<Rightarrow> 16 word"
  p_get_u16 :: "int \<Rightarrow> int \<Rightarrow> 'b \<Rightarrow> 16 word"
  p_get_i32 :: "int \<Rightarrow> int \<Rightarrow> 'b \<Rightarrow> 32 word"
  p_get_u32 :: "int \<Rightarrow> int \<Rightarrow> 'b \<Rightarrow> 32 word"
  p_get_f32 :: "int \<Rightarrow> int \<Rightarrow> 'b \<Rightarrow> 32 word"
  p_get_f64 :: "int \<Rightarrow> int \<Rightarrow> 'b \<Rightarrow> 64 word"
  p_string_capacity :: "int \<Rightarrow> int \<Rightarrow> 'b \<Rightarrow> int"
  p_get_string :: "int \<Rightarrow> int \<Rightarrow> int \<Rightarrow> 'b \<Rightarrow> int \<times> string"
  p_set_bit :: "int \<Rightarrow> int \<Rightarrow> int \<Rightarrow> 'b \<Rightarrow> int \<times> 'b"
  p_set_i8 :: "int \<Rightarrow> int \<Rightarrow> 8 word \<Rightarrow> 'b \<Rightarrow> int \<times> 'b"
  p_set_i16 :: "int \<Rightarrow> int \<Rightarrow> 16 word \<Rightarrow> 'b \<Rightarrow> int \<times> 'b"
  p_set_u16 :: "int \<Rightarrow> int \<Rightarrow> 16 word \<Rightarrow> 'b \<Rightarrow> int \<times> 'b"
  p_set_i32 :: "int \<Rightarrow> int \<Rightarrow> 32 word \<Rightarrow> 'b \<Rightarrow> int \<times> 'b"
  p_set_u32 :: "int \<Rightarrow> int \<Rightarrow> 32 word \<Rightarrow> 'b \<Rightarrow> int \<times> 'b"
  p_set_f32 :: "int \<Rightarrow> int \<Rightarrow> 32 word \<Rightarrow> 'b \<Rightarrow> int \<times> 'b"
  p_set_f64 :: "int \<Rightarrow> int \<Rightarrow> 64 word \<Rightarrow> 'b \<Rightarrow> int \<times> 'b"
  p_set_string :: "int \<Rightarrow> int \<Rightarrow> string \<Rightarrow> 'b \<Rightarrow> int \<times> 'b"

text \<open>\<open>PlcError\<close> carries the status \<open>plc\_tag\_decode\_error\<close> turns into the message.\<close>

datatype write_error =
    PlcError int
  | TypeMismatch string
  | Unsupported string
  | NotABool
  | ParseError num_error

section \<open>Word order\<close>

definition swap_words :: "string \<Rightarrow> bool" where
  "swap_words order \<longleftrightarrow> order = ''lo_hi''"

definition join32 :: "string \<Rightarrow> 16 word \<Rightarrow> 16 word \<Rightarrow> 32 word" where
  "join32 order w0 w1 =
     (let hi = (if swap_words order then w1 else w0); lo = (if swap_words order then w0 else w1)
      in push_bit 16 (ucast hi) OR ucast lo)"

definition split32 :: "string \<Rightarrow> 32 word \<Rightarrow> 16 word \<times> 16 word" where
  "split32 order u =
     (let hi = ucast (drop_bit 16 u AND 0xFFFF) :: 16 word; lo = ucast (u AND 0xFFFF) :: 16 word
      in if swap_words order then (lo, hi) else (hi, lo))"

definition join64 :: "string \<Rightarrow> 16 word \<Rightarrow> 16 word \<Rightarrow> 16 word \<Rightarrow> 16 word \<Rightarrow> 64 word" where
  "join64 order w0 w1 w2 w3 =
     (let s = swap_words order;
          a = (if s then w3 else w0); b = (if s then w2 else w1);
          c = (if s then w1 else w2); d = (if s then w0 else w3)
      in push_bit 48 (ucast a) OR push_bit 32 (ucast b) OR push_bit 16 (ucast c) OR ucast d)"

definition read32 :: "'b plc \<Rightarrow> string \<Rightarrow> int \<Rightarrow> int \<Rightarrow> 'b \<Rightarrow> 32 word" where
  "read32 p order h off b = join32 order (p_get_u16 p h off b) (p_get_u16 p h (off + 2) b)"

definition write32 :: "'b plc \<Rightarrow> string \<Rightarrow> int \<Rightarrow> int \<Rightarrow> 32 word \<Rightarrow> 'b \<Rightarrow> int \<times> 'b" where
  "write32 p order h off u b =
     (case split32 order u of (w0, w1) \<Rightarrow>
      case p_set_u16 p h off w0 b of (st, b1) \<Rightarrow>
        if st = p_ok p then p_set_u16 p h (off + 2) w1 b1 else (st, b1))"

section \<open>update\_snapshot\_from\_plc\_at\_offset\<close>

text \<open>The raw value, or what failed: an unreadable string or a data type that is not supported.\<close>

datatype read_failure = BadString | BadType

definition c_string :: "string \<Rightarrow> string" where
  "c_string s = takeWhile (\<lambda>c. c \<noteq> CHR 0x00) s"

definition read_raw ::
    "'b plc \<Rightarrow> bool \<Rightarrow> tag_runtime \<Rightarrow> int \<Rightarrow> 'b \<Rightarrow> read_failure + tag_value" where
  "read_raw p modbus rt off b =
     (let dt = datatype_name (cfg rt); h = handle rt; order = word_order (cfg rt) in
      if dt = ''float32'' then
        Inr (VF32 (if modbus then read32 p order h off b else p_get_f32 p h off b))
      else if dt = ''float64'' then
        Inr (VF64 (if modbus
          then join64 order (p_get_u16 p h off b) (p_get_u16 p h (off + 2) b)
                 (p_get_u16 p h (off + 4) b) (p_get_u16 p h (off + 6) b)
          else p_get_f64 p h off b))
      else if dt = ''int32'' then
        Inr (VI32 (if modbus then read32 p order h off b else p_get_i32 p h off b))
      else if dt = ''uint32'' then
        Inr (VU32 (if modbus then read32 p order h off b else p_get_u32 p h off b))
      else if dt = ''int16'' then Inr (VI16 (p_get_i16 p h off b))
      else if dt = ''uint16'' then Inr (VU16 (p_get_u16 p h off b))
      else if dt = ''bool'' then
        (let v = (if modbus then word_of_int (p_get_bit p h off b) else p_get_i8 p h off b) :: 8 word;
             x = (v \<noteq> 0)
         in Inr (VBool (if tag_invert (cfg rt) then \<not> x else x)))
      else if dt = ''string'' then
        (let cap0 = p_string_capacity p h off b; cap = (if cap0 \<le> 0 then 82 else cap0) in
         case p_get_string p h off (cap + 1) b of (st, contents) \<Rightarrow>
           if st \<noteq> p_ok p then Inl BadString else Inr (VStr (c_string contents)))
      else Inl BadType)"

definition is_modbus_driver_name :: "string \<Rightarrow> bool" where
  "is_modbus_driver_name driver \<longleftrightarrow> to_lower_copy (trim_copy driver) \<in> {''modbus_tcp'', ''modbus-tcp''}"

definition is_modbus_connection :: "connection_config \<Rightarrow> bool" where
  "is_modbus_connection conn = is_modbus_driver_name (conn_driver conn)"

definition update_snapshot_from_plc_at_offset ::
    "'b plc \<Rightarrow> time \<Rightarrow> connection_config \<Rightarrow> tag_runtime \<Rightarrow> int \<Rightarrow> 'b \<Rightarrow> tag_snapshot \<Rightarrow> bool \<times> tag_snapshot" where
  "update_snapshot_from_plc_at_offset p now conn rt off b snap =
     (let s = snap\<lparr>snap_connection := conn_id conn, snap_name := logical_name (cfg rt),
            snap_datatype := datatype_name (cfg rt), snap_time := now, snap_quality := 1\<rparr> in
      case read_raw p (is_modbus_connection conn) rt off b of
        Inl BadString \<Rightarrow> (False, s\<lparr>snap_quality := 0, snap_value := VStr []\<rparr>)
      | Inl BadType \<Rightarrow> (False, s\<lparr>snap_quality := 0\<rparr>)
      | Inr raw \<Rightarrow>
          (case publish_scaled rt raw of
             (v, dt) \<Rightarrow> (True, s\<lparr>snap_value := v, snap_datatype := dt\<rparr>)))"

section \<open>Writing\<close>

definition finish_write :: "'b plc \<Rightarrow> tag_value \<Rightarrow> int \<times> 'b \<Rightarrow> (write_error + tag_value) \<times> 'b" where
  "finish_write p v r = (case r of (st, b) \<Rightarrow> (if st = p_ok p then Inr v else Inl (PlcError st), b))"

definition plc_tag_set_from_tagvalue ::
    "'b plc \<Rightarrow> string \<Rightarrow> int \<Rightarrow> tag_value \<Rightarrow> bool \<Rightarrow> string \<Rightarrow> int \<Rightarrow> 'b \<Rightarrow> (write_error + tag_value) \<times> 'b" where
  "plc_tag_set_from_tagvalue p dt h v bitAccess order off b =
     (if dt = ''float32'' then
        (case v of VF32 w \<Rightarrow> finish_write p v (if bitAccess then write32 p order h off w b else p_set_f32 p h off w b)
         | _ \<Rightarrow> (Inl (TypeMismatch dt), b))
      else if dt = ''float64'' then
        (case v of VF64 w \<Rightarrow> finish_write p v (p_set_f64 p h off w b) | _ \<Rightarrow> (Inl (TypeMismatch dt), b))
      else if dt = ''int32'' then
        (case v of VI32 w \<Rightarrow> finish_write p v (if bitAccess then write32 p order h off w b else p_set_i32 p h off w b)
         | _ \<Rightarrow> (Inl (TypeMismatch dt), b))
      else if dt = ''uint32'' then
        (case v of VU32 w \<Rightarrow> finish_write p v (if bitAccess then write32 p order h off w b else p_set_u32 p h off w b)
         | _ \<Rightarrow> (Inl (TypeMismatch dt), b))
      else if dt = ''int16'' then
        (case v of VI16 w \<Rightarrow> finish_write p v (p_set_i16 p h off w b) | _ \<Rightarrow> (Inl (TypeMismatch dt), b))
      else if dt = ''uint16'' then
        (case v of VU16 w \<Rightarrow> finish_write p v (p_set_u16 p h off w b) | _ \<Rightarrow> (Inl (TypeMismatch dt), b))
      else if dt = ''bool'' then
        (case v of VBool x \<Rightarrow>
           finish_write p v (if bitAccess then p_set_bit p h off (if x then 1 else 0) b
                             else p_set_i8 p h off (if x then 1 else 0) b)
         | _ \<Rightarrow> (Inl (TypeMismatch dt), b))
      else if dt = ''string'' then
        (case v of VStr s \<Rightarrow> finish_write p v (p_set_string p h off (c_string s) b) | _ \<Rightarrow> (Inl (TypeMismatch dt), b))
      else (Inl (Unsupported dt), b))"

text \<open>Parsing throws before the buffer is touched.\<close>

definition parse_for_write :: "string \<Rightarrow> string \<Rightarrow> write_error + tag_value" where
  "parse_for_write dt s =
     (let num = (\<lambda>r f. case r of Inl e \<Rightarrow> Inl (ParseError e) | Inr (x, rest) \<Rightarrow> Inr (f x)) in
      if dt = ''float32'' then (case stof s of Inl e \<Rightarrow> Inl (ParseError e) | Inr (d, rest) \<Rightarrow> Inr (VF32 (f32_of d)))
      else if dt = ''float64'' then (case stod s of Inl e \<Rightarrow> Inl (ParseError e) | Inr (d, rest) \<Rightarrow> Inr (VF64 (f64_of d)))
      else if dt = ''int32'' then num (stoll s) (\<lambda>n. VI32 (word_of_int n))
      else if dt = ''uint32'' then (case stoul s of Inl e \<Rightarrow> Inl (ParseError e) | Inr (w, rest) \<Rightarrow> Inr (VU32 (ucast w)))
      else if dt = ''int16'' then num (stoi s) (\<lambda>n. VI16 (word_of_int n))
      else if dt = ''uint16'' then (case stoul s of Inl e \<Rightarrow> Inl (ParseError e) | Inr (w, rest) \<Rightarrow> Inr (VU16 (ucast w)))
      else if dt = ''bool'' then (case parse_bool s of None \<Rightarrow> Inl NotABool | Some x \<Rightarrow> Inr (VBool x))
      else if dt = ''string'' then Inr (VStr s)
      else Inl (Unsupported dt))"

definition plc_set_value_from_string ::
    "'b plc \<Rightarrow> string \<Rightarrow> int \<Rightarrow> string \<Rightarrow> bool \<Rightarrow> string \<Rightarrow> int \<Rightarrow> 'b \<Rightarrow> (write_error + tag_value) \<times> 'b" where
  "plc_set_value_from_string p dt h s bitAccess order off b =
     (case parse_for_write dt s of
        Inl e \<Rightarrow> (Inl e, b)
      | Inr v \<Rightarrow>
          (case v of
             VF32 w \<Rightarrow> finish_write p v (if bitAccess then write32 p order h off w b else p_set_f32 p h off w b)
           | VF64 w \<Rightarrow> finish_write p v (p_set_f64 p h off w b)
           | VI32 w \<Rightarrow> finish_write p v (if bitAccess then write32 p order h off w b else p_set_i32 p h off w b)
           | VU32 w \<Rightarrow> finish_write p v (if bitAccess then write32 p order h off w b else p_set_u32 p h off w b)
           | VI16 w \<Rightarrow> finish_write p v (p_set_i16 p h off w b)
           | VU16 w \<Rightarrow> finish_write p v (p_set_u16 p h off w b)
           | VBool x \<Rightarrow> finish_write p v (if bitAccess then p_set_bit p h off (if x then 1 else 0) b
                                          else p_set_i8 p h off (if x then 1 else 0) b)
           | VStr t \<Rightarrow> finish_write p v (p_set_string p h off (c_string t) b)))"

section \<open>Whole words, for single-bit writes\<close>

definition plc_tag_get_word_u64 ::
    "'b plc \<Rightarrow> string \<Rightarrow> int \<Rightarrow> bool \<Rightarrow> string \<Rightarrow> int \<Rightarrow> 'b \<Rightarrow> write_error + u64 \<times> int" where
  "plc_tag_get_word_u64 p dt h modbus order off b =
     (if dt = ''int16'' then Inr (ucast (p_get_i16 p h off b), 16)
      else if dt = ''uint16'' then Inr (ucast (p_get_u16 p h off b), 16)
      else if dt = ''int32'' then
        Inr (ucast (if modbus then read32 p order h off b else p_get_i32 p h off b), 32)
      else if dt = ''uint32'' then
        Inr (ucast (if modbus then read32 p order h off b else p_get_u32 p h off b), 32)
      else Inl (Unsupported dt))"

definition plc_tag_set_word_u64 ::
    "'b plc \<Rightarrow> string \<Rightarrow> int \<Rightarrow> u64 \<Rightarrow> bool \<Rightarrow> string \<Rightarrow> int \<Rightarrow> 'b \<Rightarrow> write_error option \<times> 'b" where
  "plc_tag_set_word_u64 p dt h word modbus order off b =
     (let status = (\<lambda>r. case r of (st, b') \<Rightarrow> (if st = p_ok p then None else Some (PlcError st), b')) in
      if dt = ''int16'' then status (p_set_i16 p h off (ucast word) b)
      else if dt = ''uint16'' then status (p_set_u16 p h off (ucast word) b)
      else if dt = ''int32'' then
        status (if modbus then write32 p order h off (ucast word) b else p_set_i32 p h off (ucast word) b)
      else if dt = ''uint32'' then
        status (if modbus then write32 p order h off (ucast word) b else p_set_u32 p h off (ucast word) b)
      else (Some (Unsupported dt), b))"

section \<open>Laws of a tag buffer\<close>

text \<open>What the code relies on: a getter returns what the setter of the same kind stored, and storing
  a 16-bit register leaves the next one as it was.\<close>

definition reads_back :: "'b plc \<Rightarrow> (int \<Rightarrow> int \<Rightarrow> 'b \<Rightarrow> 'v) \<Rightarrow> (int \<Rightarrow> int \<Rightarrow> 'v \<Rightarrow> 'b \<Rightarrow> int \<times> 'b) \<Rightarrow> bool" where
  "reads_back p get put \<longleftrightarrow> (\<forall>h off v b b'. put h off v b = (p_ok p, b') \<longrightarrow> get h off b' = v)"

definition tag_buffer_ok :: "'b plc \<Rightarrow> bool" where
  "tag_buffer_ok p \<longleftrightarrow>
     reads_back p (p_get_i8 p) (p_set_i8 p) \<and> reads_back p (p_get_i16 p) (p_set_i16 p) \<and>
     reads_back p (p_get_u16 p) (p_set_u16 p) \<and> reads_back p (p_get_i32 p) (p_set_i32 p) \<and>
     reads_back p (p_get_u32 p) (p_set_u32 p) \<and> reads_back p (p_get_f32 p) (p_set_f32 p) \<and>
     reads_back p (p_get_f64 p) (p_set_f64 p) \<and> reads_back p (p_get_bit p) (p_set_bit p) \<and>
     (\<forall>h off v b b'. p_set_u16 p h (off + 2) v b = (p_ok p, b') \<longrightarrow> p_get_u16 p h off b' = p_get_u16 p h off b)"

lemma reads_backD: "reads_back p get put \<Longrightarrow> put h off v b = (p_ok p, b') \<Longrightarrow> get h off b' = v"
  by (simp add: reads_back_def)

lemma low_mask: "(0xFFFF :: 32 word) = mask 16"
  by (simp add: mask_eq_exp_minus_1)

lemma join_split32: "split32 order u = (w0, w1) \<Longrightarrow> join32 order w0 w1 = u"
proof -
  assume "split32 order u = (w0, w1)"
  moreover have "push_bit 16 (ucast (ucast (drop_bit 16 u AND 0xFFFF) :: 16 word)) OR ucast (ucast (u AND 0xFFFF) :: 16 word) = u"
    unfolding low_mask by (rule bit_word_eqI) (auto simp: bit_simps)
  ultimately show ?thesis by (auto simp: split32_def join32_def Let_def split: if_splits)
qed

lemma split_join32: "split32 order (join32 order w0 w1) = (w0, w1)"
proof -
  have "ucast (drop_bit 16 (push_bit 16 (ucast a :: 32 word) OR ucast b) AND 0xFFFF) = a" for a b :: "16 word"
    unfolding low_mask by (rule bit_word_eqI) (auto simp: bit_simps dest: bit_imp_le_length)
  moreover have "ucast ((push_bit 16 (ucast a :: 32 word) OR ucast b) AND 0xFFFF) = b" for a b :: "16 word"
    unfolding low_mask by (rule bit_word_eqI) (auto simp: bit_simps dest: bit_imp_le_length)
  ultimately show ?thesis by (auto simp: split32_def join32_def Let_def)
qed

lemma read_write32:
  assumes "tag_buffer_ok p" "write32 p order h off u b = (p_ok p, b')"
  shows "read32 p order h off b' = u"
proof -
  obtain w0 w1 where s: "split32 order u = (w0, w1)" by (cases "split32 order u")
  obtain st b1 where f: "p_set_u16 p h off w0 b = (st, b1)" by (cases "p_set_u16 p h off w0 b")
  from assms(2) s f have st: "st = p_ok p" and g: "p_set_u16 p h (off + 2) w1 b1 = (p_ok p, b')"
    by (auto simp: write32_def split: if_splits)
  have "p_get_u16 p h off b' = w0" "p_get_u16 p h (off + 2) b' = w1"
    using assms(1) f g st unfolding tag_buffer_ok_def reads_back_def by metis+
  then show ?thesis using join_split32 [OF s] by (simp add: read32_def)
qed

section \<open>Reading back what was written\<close>

lemma finish_write_ok: "finish_write p v r = (Inr w, b') \<Longrightarrow> w = v \<and> r = (p_ok p, b')"
  by (cases r) (auto simp: finish_write_def split: if_splits)

definition seen_value :: "tag_runtime \<Rightarrow> tag_value \<Rightarrow> tag_value" where
  "seen_value rt v = (case v of VBool x \<Rightarrow> VBool (if tag_invert (cfg rt) then \<not> x else x) | _ \<Rightarrow> v)"

lemma read_raw_after_set:
  assumes p: "tag_buffer_ok p"
    and w: "plc_tag_set_from_tagvalue p (datatype_name (cfg rt)) (handle rt) v modbus (word_order (cfg rt)) off b = (Inr u, b')"
    and s: "datatype_name (cfg rt) \<noteq> ''string''" and f: "datatype_name (cfg rt) = ''float64'' \<longrightarrow> \<not> modbus"
  shows "read_raw p modbus rt off b' = Inr (seen_value rt v)"
proof -
  define dt where "dt = datatype_name (cfg rt)"
  note laws = p [unfolded tag_buffer_ok_def]
  have rb: "reads_back p (p_get_i8 p) (p_set_i8 p)" "reads_back p (p_get_i16 p) (p_set_i16 p)"
    "reads_back p (p_get_u16 p) (p_set_u16 p)" "reads_back p (p_get_i32 p) (p_set_i32 p)"
    "reads_back p (p_get_u32 p) (p_set_u32 p)" "reads_back p (p_get_f32 p) (p_set_f32 p)"
    "reads_back p (p_get_f64 p) (p_set_f64 p)" "reads_back p (p_get_bit p) (p_set_bit p)"
    using laws by blast+
  consider "dt = ''float32''" | "dt = ''float64''" | "dt = ''int32''" | "dt = ''uint32''" | "dt = ''int16''"
    | "dt = ''uint16''" | "dt = ''bool''"
    using w s unfolding dt_def [symmetric] plc_tag_set_from_tagvalue_def by (auto split: if_splits)
  note types = this
  note [simp] = read_write32 [OF p] reads_backD [OF rb(1)] reads_backD [OF rb(2)] reads_backD [OF rb(3)] reads_backD [OF rb(4)]
    reads_backD [OF rb(5)] reads_backD [OF rb(6)] reads_backD [OF rb(7)] reads_backD [OF rb(8)]
  from w f show ?thesis unfolding dt_def [symmetric]
    by (cases rule: types)
      (auto simp: dt_def [symmetric] plc_tag_set_from_tagvalue_def read_raw_def seen_value_def Let_def
        dest!: finish_write_ok split: tag_value.splits if_splits)
qed


text \<open>A register file: the concrete buffer on which the hypotheses hold.\<close>

definition register_file :: "(int \<Rightarrow> 64 word) plc" where
  "register_file = \<lparr>p_ok = 0, p_get_bit = (\<lambda>h off b. sint (b off)), p_get_i8 = (\<lambda>h off b. ucast (b off)),
     p_get_i16 = (\<lambda>h off b. ucast (b off)), p_get_u16 = (\<lambda>h off b. ucast (b off)),
     p_get_i32 = (\<lambda>h off b. ucast (b off)), p_get_u32 = (\<lambda>h off b. ucast (b off)),
     p_get_f32 = (\<lambda>h off b. ucast (b off)), p_get_f64 = (\<lambda>h off b. b off),
     p_string_capacity = (\<lambda>h off b. 0), p_get_string = (\<lambda>h off n b. (0, [])),
     p_set_bit = (\<lambda>h off v b. if v \<in> {0, 1} then (0, b(off := word_of_int v)) else (1, b)),
     p_set_i8 = (\<lambda>h off v b. (0, b(off := ucast v))), p_set_i16 = (\<lambda>h off v b. (0, b(off := ucast v))),
     p_set_u16 = (\<lambda>h off v b. (0, b(off := ucast v))), p_set_i32 = (\<lambda>h off v b. (0, b(off := ucast v))),
     p_set_u32 = (\<lambda>h off v b. (0, b(off := ucast v))), p_set_f32 = (\<lambda>h off v b. (0, b(off := ucast v))),
     p_set_f64 = (\<lambda>h off v b. (0, b(off := v))), p_set_string = (\<lambda>h off s b. (1, b))\<rparr>"

lemma word_cell:
  "ucast (ucast (v :: 8 word) :: 64 word) = v" "ucast (ucast (w :: 16 word) :: 64 word) = w"
  "ucast (ucast (x :: 32 word) :: 64 word) = x"
  by (rule bit_word_eqI; auto simp: bit_simps dest: bit_imp_le_length)+

lemma register_file_ok: "tag_buffer_ok register_file"
  by (auto simp: tag_buffer_ok_def reads_back_def register_file_def word_cell split: if_splits)

definition sample_runtime :: tag_runtime where
  "sample_runtime = (new_tag_runtime (- 1))\<lparr>handle := 7,
     cfg := new_tag_config\<lparr>logical_name := ''level'', datatype_name := ''uint32'', word_order := ''lo_hi''\<rparr>\<rparr>"

definition sample_connection :: connection_config where
  "sample_connection = new_connection_config\<lparr>conn_id := ''plc1'', conn_driver := ''modbus_tcp''\<rparr>"


section \<open>Writes that do not read back\<close>

text \<open>A 64-bit float is stored without the tag's word order and read with it.\<close>

lemma join64_words:
  "ucast (join64 ''hi_lo'' w0 w1 w2 w3) = w3" "ucast (drop_bit 16 (join64 ''hi_lo'' w0 w1 w2 w3)) = w2"
  "ucast (drop_bit 32 (join64 ''hi_lo'' w0 w1 w2 w3)) = w1" "ucast (drop_bit 48 (join64 ''hi_lo'' w0 w1 w2 w3)) = w0"
  by (rule bit_word_eqI; auto simp: join64_def swap_words_def bit_simps dest: bit_imp_le_length)+

lemma join64_inj: "join64 ''hi_lo'' w0 w1 w2 w3 = join64 ''hi_lo'' x0 x1 x2 x3 \<Longrightarrow> w0 = x0 \<and> w1 = x1 \<and> w2 = x2 \<and> w3 = x3"
  by (metis join64_words)

theorem float64_write_ignores_word_order:
  fixes c :: tag_config and rt :: tag_runtime and p :: "'b plc" and off :: int and s :: 'b
  defines "t order \<equiv> rt\<lparr>cfg := c\<lparr>datatype_name := ''float64'', word_order := order\<rparr>\<rparr>"
  defines "written order v \<equiv> snd (plc_tag_set_from_tagvalue p ''float64'' (handle rt) (VF64 v) True order off s)"
  assumes "read_raw p True (t ''hi_lo'') off (written ''hi_lo'' (join64 ''hi_lo'' w0 w1 w2 w3)) = Inr (VF64 (join64 ''hi_lo'' w0 w1 w2 w3))"
  shows "read_raw p True (t ''lo_hi'') off (written ''lo_hi'' (join64 ''hi_lo'' w0 w1 w2 w3)) = Inr (VF64 (join64 ''hi_lo'' w3 w2 w1 w0))"
proof -
  have [simp]: "join64 ''lo_hi'' a b c' d = join64 ''hi_lo'' d c' b a" for a b c' d
    by (simp add: join64_def swap_words_def)
  show ?thesis using assms(3) unfolding t_def written_def
    by (auto simp: read_raw_def plc_tag_set_from_tagvalue_def Let_def dest!: join64_inj)
qed

text \<open>
  An unscaled write takes the low bits of the number: whatever fits in the C++ parse is stored, with
  no range check, where the scaled path refuses it.
\<close>

theorem unscaled_write_wraps:
  "- (2 ^ 31) \<le> n \<Longrightarrow> n < 2 ^ 31 \<Longrightarrow> parse_for_write ''int16'' (show_int n) = Inr (VI16 (word_of_int n))"
  "- (2 ^ 63) \<le> n \<Longrightarrow> n < 2 ^ 63 \<Longrightarrow> parse_for_write ''int32'' (show_int n) = Inr (VI32 (word_of_int n))"
  "\<bar>n\<bar> < 2 ^ 64 \<Longrightarrow> parse_for_write ''uint16'' (show_int n) = Inr (VU16 (word_of_int n))"
  "\<bar>n\<bar> < 2 ^ 64 \<Longrightarrow> parse_for_write ''uint32'' (show_int n) = Inr (VU32 (word_of_int n))"
proof -
  have low: "(ucast (word_of_int n :: u64) :: 16 word) = word_of_int n" "(ucast (word_of_int n :: u64) :: u32) = word_of_int n"
    by (rule bit_word_eqI; simp add: bit_simps)+
  have sgn_abs: "signed (n < 0) \<bar>n\<bar> = n" by (simp add: signed_def)
  show "- (2 ^ 31) \<le> n \<Longrightarrow> n < 2 ^ 31 \<Longrightarrow> parse_for_write ''int16'' (show_int n) = Inr (VI16 (word_of_int n))"
    "- (2 ^ 63) \<le> n \<Longrightarrow> n < 2 ^ 63 \<Longrightarrow> parse_for_write ''int32'' (show_int n) = Inr (VI32 (word_of_int n))"
    by (simp_all add: parse_for_write_def stoi_def stoll_def sto_range_show)
  show "\<bar>n\<bar> < 2 ^ 64 \<Longrightarrow> parse_for_write ''uint16'' (show_int n) = Inr (VU16 (word_of_int n))"
    "\<bar>n\<bar> < 2 ^ 64 \<Longrightarrow> parse_for_write ''uint32'' (show_int n) = Inr (VU32 (word_of_int n))"
    by (simp_all add: parse_for_write_def stoul_def strto_show_int sgn_abs low)
qed

end
