(* ===== verification/ConfigText.thy ===== *)
theory ConfigText
  imports Floats Json OrderedMap
begin

text \<open>
  Text the configuration arrives in (opcbridge/main.cpp): \<open>strip\_json\_comments\<close>, the \<open>json\_\<close> accessors
  that take any scalar for any type, and the CSV tables of the tag import with their lenient cell
  readers. An \<open>int\<close> of the code is the value of its 32-bit pattern.
\<close>

section \<open>Comments in JSON text\<close>

datatype strip_state = StripNormal | InString | InStringEscape | LineComment | BlockComment

abbreviation (input) quote_char :: char where
  "quote_char \<equiv> CHR 0x22"

abbreviation (input) newline_char :: char where
  "newline_char \<equiv> CHR 0x0A"

text \<open>The loop consumes one character, or two at a comment's ends.\<close>

fun strip_from :: "strip_state \<Rightarrow> string \<Rightarrow> string" where
  "strip_from st [] = []"
| "strip_from StripNormal (c # cs) =
     (if c = quote_char then c # strip_from InString cs
      else if c = CHR ''/'' \<and> cs \<noteq> [] then
        (if hd cs = CHR ''/'' then strip_from LineComment (tl cs)
         else if hd cs = CHR ''*'' then strip_from BlockComment (tl cs)
         else c # strip_from StripNormal cs)
      else c # strip_from StripNormal cs)"
| "strip_from InString (c # cs) =
     c # strip_from (if c = CHR 0x5C then InStringEscape else if c = quote_char then StripNormal else InString) cs"
| "strip_from InStringEscape (c # cs) = c # strip_from InString cs"
| "strip_from LineComment (c # cs) =
     (if c = newline_char then c # strip_from StripNormal cs else strip_from LineComment cs)"
| "strip_from BlockComment (c # cs) =
     (if c = CHR ''*'' \<and> cs \<noteq> [] \<and> hd cs = CHR ''/'' then strip_from StripNormal (tl cs)
      else if c = newline_char then c # strip_from BlockComment cs
      else strip_from BlockComment cs)"

definition strip_json_comments :: "string \<Rightarrow> string" where
  "strip_json_comments s = strip_from StripNormal s"

section \<open>Loose JSON accessors\<close>

definition wrap64 :: "int \<Rightarrow> int" where
  "wrap64 n = sint (word_of_int n :: u64)"

definition loose_true :: "string set" where
  "loose_true = {''1'', ''true'', ''yes'', ''y'', ''on''}"

definition loose_false :: "string set" where
  "loose_false = {''0'', ''false'', ''no'', ''n'', ''off''}"

fun json_bool_loose :: "json \<Rightarrow> bool \<Rightarrow> bool" where
  "json_bool_loose (JBool b) d = b"
| "json_bool_loose (JInt n) d = (wrap64 n \<noteq> 0)"
| "json_bool_loose (JFloat x) d = (\<not> deq x (DFin 0))"
| "json_bool_loose (JStr s) d =
     (let v = to_lower_copy (trim_copy s) in if v \<in> loose_true then True else if v \<in> loose_false then False else d)"
| "json_bool_loose _ d = d"

fun json_int_loose :: "json \<Rightarrow> int \<Rightarrow> int" where
  "json_int_loose (JInt n) d = to_int32 n"
| "json_int_loose (JFloat x) d = to_int32 (llround x)"
| "json_int_loose (JBool b) d = (if b then 1 else 0)"
| "json_int_loose (JStr s) d =
     (if trim_copy s = [] then d
      else case stoll (trim_copy s) of Inl e \<Rightarrow> d | Inr (n, rest) \<Rightarrow> to_int32 n)"
| "json_int_loose _ d = d"

fun json_double_loose :: "json \<Rightarrow> dbl \<Rightarrow> dbl" where
  "json_double_loose (JFloat x) d = x"
| "json_double_loose (JInt n) d = dbl_of_int (wrap64 n)"
| "json_double_loose (JBool b) d = DFin (if b then 1 else 0)"
| "json_double_loose (JStr s) d =
     (if trim_copy s = [] then d
      else case stod (trim_copy s) of Inl e \<Rightarrow> d | Inr (x, rest) \<Rightarrow> x)"
| "json_double_loose _ d = d"

fun json_string_loose :: "json \<Rightarrow> string \<Rightarrow> string" where
  "json_string_loose (JStr s) d = s"
| "json_string_loose (JInt n) d = show_int (wrap64 n)"
| "json_string_loose (JFloat x) d = to_string_dbl x"
| "json_string_loose (JBool b) d = (if b then ''true'' else ''false'')"
| "json_string_loose _ d = d"

definition json_get_loose :: "(json \<Rightarrow> 'a \<Rightarrow> 'a) \<Rightarrow> json \<Rightarrow> string \<Rightarrow> 'a \<Rightarrow> 'a" where
  "json_get_loose conv obj key d =
     (case jfind obj key of None \<Rightarrow> d | Some v \<Rightarrow> if v = JNull then d else conv v d)"

definition json_get_bool_loose :: "json \<Rightarrow> string \<Rightarrow> bool \<Rightarrow> bool" where
  "json_get_bool_loose = json_get_loose json_bool_loose"

definition json_get_int_loose :: "json \<Rightarrow> string \<Rightarrow> int \<Rightarrow> int" where
  "json_get_int_loose = json_get_loose json_int_loose"

definition json_get_double_loose :: "json \<Rightarrow> string \<Rightarrow> dbl \<Rightarrow> dbl" where
  "json_get_double_loose = json_get_loose json_double_loose"

definition json_get_string_loose :: "json \<Rightarrow> string \<Rightarrow> string \<Rightarrow> string" where
  "json_get_string_loose = json_get_loose json_string_loose"

definition json_has_nonempty_value :: "json \<Rightarrow> string \<Rightarrow> bool" where
  "json_has_nonempty_value obj key =
     (case jfind obj key of None \<Rightarrow> False | Some JNull \<Rightarrow> False | Some (JStr s) \<Rightarrow> trim_copy s \<noteq> [] | Some v \<Rightarrow> True)"

section \<open>CSV cells\<close>

definition parse_bool_loose :: "string \<Rightarrow> bool \<Rightarrow> bool" where
  "parse_bool_loose s d =
     (let v = to_lower_copy (trim_copy s) in
      if v = [] then d else if v \<in> loose_true then True else if v \<in> loose_false then False else d)"

definition parse_int_loose :: "string \<Rightarrow> int \<Rightarrow> int" where
  "parse_int_loose s d =
     (let v = trim_copy s in
      if v = [] then d
      else case stod v of Inl e \<Rightarrow> d | Inr (x, rest) \<Rightarrow> if is_finite x then dbl_to_int32 x else d)"

definition parse_double_loose :: "string \<Rightarrow> dbl \<Rightarrow> dbl \<times> bool" where
  "parse_double_loose s d =
     (let v = trim_copy s in
      if v = [] then (d, False)
      else case stod v of Inl e \<Rightarrow> (d, False) | Inr (x, rest) \<Rightarrow> if is_finite x then (x, True) else (d, False))"

definition csv_is_delete_action :: "string \<Rightarrow> bool" where
  "csv_is_delete_action s \<longleftrightarrow> to_lower_copy (trim_copy s) \<in> {''delete'', ''deleted'', ''remove'', ''removed'', ''del''}"

definition is_safe_connection_id_filename :: "string \<Rightarrow> bool" where
  "is_safe_connection_id_filename cid \<longleftrightarrow>
     cid \<noteq> [] \<and> cid \<noteq> ''.'' \<and> cid \<noteq> ''..'' \<and>
     list_all (\<lambda>c. is_alnum c \<or> c = CHR ''_'' \<or> c = CHR ''-'' \<or> c = CHR ''.'') cid"

section \<open>CSV tables\<close>

text \<open>The header key: runs of spaces become one underscore, everything but letters, digits and
  underscores goes. The flag says whether the last character written was an underscore.\<close>

fun header_key_from :: "bool \<Rightarrow> string \<Rightarrow> string" where
  "header_key_from lastUnderscore [] = []"
| "header_key_from lastUnderscore (c # cs) =
     (if is_space c then (if lastUnderscore then [] else [CHR ''_'']) @ header_key_from True cs
      else
        let l = to_lower c in
        if is_lower l \<or> is_digit l \<or> l = CHR ''_'' then l # header_key_from (l = CHR ''_'') cs
        else header_key_from lastUnderscore cs)"

definition csv_normalize_header_key :: "string \<Rightarrow> string" where
  "csv_normalize_header_key s = header_key_from False (trim_copy s)"

record csv_table =
  headers :: "string list"
  records :: "(string, string) omap list"

fun split_lines :: "string \<Rightarrow> string \<Rightarrow> string list" where
  "split_lines acc [] = (if acc = [] then [] else [rev acc])"
| "split_lines acc (c # cs) = (if c = newline_char then rev acc # split_lines [] cs else split_lines (c # acc) cs)"

definition first_non_empty :: "string \<Rightarrow> string" where
  "first_non_empty input =
     (case filter (\<lambda>line. trim_copy line \<noteq> []) (split_lines [] input) of [] \<Rightarrow> [] | l # ls \<Rightarrow> l)"

definition csv_delimiter :: "string \<Rightarrow> char" where
  "csv_delimiter line =
     (let count = (\<lambda>ch. length (filter (\<lambda>c. c = ch) line));
          commas = count (CHR '',''); tabs = count (CHR 0x09); semis = count (CHR '';'')
      in if commas < tabs \<and> semis \<le> tabs then CHR 0x09
         else if commas < semis \<and> tabs < semis then CHR '';''
         else CHR '','')"

definition push_row :: "string list list \<Rightarrow> string list \<Rightarrow> string list list" where
  "push_row rows row = (if length row = 1 \<and> trim_copy (hd row) = [] \<and> rows = [] then rows else rows @ [row])"

fun scan_csv :: "char \<Rightarrow> bool \<Rightarrow> string \<Rightarrow> string list \<Rightarrow> string list list \<Rightarrow> string \<Rightarrow> string list list" where
  "scan_csv dl inQuotes field row rows [] =
     (let row' = row @ [field] in if list_ex (\<lambda>c. c \<noteq> []) row' then push_row rows row' else rows)"
| "scan_csv dl inQuotes field row rows (c # cs) =
     (if inQuotes then
        if c = quote_char then
          (if cs \<noteq> [] \<and> hd cs = quote_char then scan_csv dl True (field @ [quote_char]) row rows (tl cs)
           else scan_csv dl False field row rows cs)
        else scan_csv dl True (field @ [c]) row rows cs
      else if c = quote_char then scan_csv dl True field row rows cs
      else if c = dl then scan_csv dl False [] (row @ [field]) rows cs
      else if c = CHR 0x0D then scan_csv dl False field row rows cs
      else if c = newline_char then scan_csv dl False [] [] (push_row rows (row @ [field])) cs
      else scan_csv dl False (field @ [c]) row rows cs)"

text \<open>A data row as a map from the headers; a later header of the same name overwrites.\<close>

definition csv_record :: "string list \<Rightarrow> string list \<Rightarrow> (string, string) omap" where
  "csv_record hs row =
     foldl (\<lambda>m i. om_put (hs ! i) (if i < length row then row ! i else []) m) [] [0..<length hs]"

definition csv_has_any :: "string list \<Rightarrow> string list \<Rightarrow> bool" where
  "csv_has_any hs row \<longleftrightarrow> list_ex (\<lambda>c. trim_copy c \<noteq> []) (take (length hs) row)"

definition parse_csv_table :: "string \<Rightarrow> csv_table" where
  "parse_csv_table input =
     (case scan_csv (csv_delimiter (first_non_empty input)) False [] [] [] input of
        [] \<Rightarrow> \<lparr>headers = [], records = []\<rparr>
      | h # rs \<Rightarrow>
          let hs = map trim_copy h
          in \<lparr>headers = hs, records = map (csv_record hs) (filter (csv_has_any hs) rs)\<rparr>)"

definition csv_get :: "(string, string) omap \<Rightarrow> string \<Rightarrow> string" where
  "csv_get row key =
     (case om_get row key of Some v \<Rightarrow> v
      | None \<Rightarrow>
          (case filter (\<lambda>e. csv_normalize_header_key (fst e) = csv_normalize_header_key key) row of
             [] \<Rightarrow> [] | e # es \<Rightarrow> snd e))"

definition csv_has_header :: "csv_table \<Rightarrow> string \<Rightarrow> bool" where
  "csv_has_header t key \<longleftrightarrow> list_ex (\<lambda>h. csv_normalize_header_key h = csv_normalize_header_key key) (headers t)"

section \<open>Comment stripping keeps the lines\<close>

lemma lines_tl: "cs \<noteq> [] \<Longrightarrow> hd cs \<noteq> newline_char \<Longrightarrow> filter (\<lambda>c. c = newline_char) (tl cs) = filter (\<lambda>c. c = newline_char) cs"
  by (cases cs) auto

lemma strip_from_lines: "filter (\<lambda>c. c = newline_char) (strip_from st s) = filter (\<lambda>c. c = newline_char) s"
  by (induction st s rule: strip_from.induct) (simp_all add: lines_tl split: if_splits)

text \<open>Nothing in a string literal is taken for a comment: a text whose slashes all lie in strings is
  left as it is.\<close>

fun slash_free :: "strip_state \<Rightarrow> string \<Rightarrow> bool" where
  "slash_free st [] = True"
| "slash_free StripNormal (c # cs) \<longleftrightarrow> c \<noteq> CHR ''/'' \<and> slash_free (if c = quote_char then InString else StripNormal) cs"
| "slash_free InString (c # cs) \<longleftrightarrow>
     slash_free (if c = CHR 0x5C then InStringEscape else if c = quote_char then StripNormal else InString) cs"
| "slash_free InStringEscape (c # cs) \<longleftrightarrow> slash_free InString cs"
| "slash_free _ (c # cs) \<longleftrightarrow> False"

lemma strip_slash_free: "slash_free st s \<Longrightarrow> strip_from st s = s"
  by (induction st s rule: slash_free.induct) (auto split: if_splits)

text \<open>
  Stripping comments keeps every line break, so a parse error names the right line, and a text
  with no slash outside its string literals comes out unchanged; in particular nothing inside a
  literal is taken for a comment.
\<close>

theorem comments_stripped_line_by_line:
  "filter (\<lambda>c. c = CHR 0x0A) (strip_json_comments s) = filter (\<lambda>c. c = CHR 0x0A) s \<and>
   (slash_free StripNormal s \<longrightarrow> strip_json_comments s = s)"
  by (simp add: strip_json_comments_def strip_from_lines strip_slash_free)

theorem comments_stripped_line_by_line_witness:
  "strip_json_comments (CHR 0x22 # ''http://a'' @ [CHR 0x22]) = CHR 0x22 # ''http://a'' @ [CHR 0x22]"
proof -
  have "slash_free StripNormal (CHR 0x22 # ''http://a'' @ [CHR 0x22])" by code_simp
  then show ?thesis using comments_stripped_line_by_line by blast
qed

section \<open>Reading a quoted CSV file back\<close>

definition csv_quote :: "string \<Rightarrow> string" where
  "csv_quote cell = [quote_char] @ concat (map (\<lambda>c. if c = quote_char then [c, c] else [c]) cell) @ [quote_char]"

fun csv_line :: "string list \<Rightarrow> string" where
  "csv_line [] = [newline_char]"
| "csv_line [c] = csv_quote c @ [newline_char]"
| "csv_line (c # cs) = csv_quote c @ [CHR '',''] @ csv_line cs"

definition csv_render :: "string list list \<Rightarrow> string" where
  "csv_render rows = concat (map csv_line rows)"

lemma scan_quoted_body:
  assumes "rest \<noteq> [] \<longrightarrow> hd rest \<noteq> quote_char"
  shows "scan_csv dl True f row rows (concat (map (\<lambda>c. if c = quote_char then [c, c] else [c]) cell) @ [quote_char] @ rest) =
    scan_csv dl False (f @ cell) row rows rest"
  using assms by (induction cell arbitrary: f) auto

lemma scan_quoted_cell:
  assumes "rest \<noteq> [] \<longrightarrow> hd rest \<noteq> quote_char"
  shows "scan_csv dl False [] row rows (csv_quote cell @ rest) = scan_csv dl False cell row rows rest"
  using scan_quoted_body [OF assms, of dl "[]" row rows cell] by (simp add: csv_quote_def)

lemma scan_line:
  assumes "cells \<noteq> []"
  shows "scan_csv (CHR '','') False [] row rows (csv_line cells @ rest) =
    scan_csv (CHR '','') False [] [] (push_row rows (row @ cells)) rest"
  using assms
proof (induction cells arbitrary: row rule: csv_line.induct)
  case (2 c)
  then show ?case using scan_quoted_cell [of "newline_char # rest"] by simp
next
  case (3 c d cs)
  have "scan_csv (CHR '','') False [] row rows (csv_line (c # d # cs) @ rest) =
      scan_csv (CHR '','') False c row rows (CHR '','' # csv_line (d # cs) @ rest)"
    using scan_quoted_cell [of "CHR '','' # csv_line (d # cs) @ rest" "CHR '',''" row rows c] by simp
  also have "\<dots> = scan_csv (CHR '','') False [] (row @ [c]) rows (csv_line (d # cs) @ rest)" by simp
  finally show ?case using 3 by simp
qed simp

lemma scan_lines:
  assumes "list_all (\<lambda>r. r \<noteq> []) lines" "rows \<noteq> []"
  shows "scan_csv (CHR '','') False [] [] rows (csv_render lines) = rows @ lines"
  using assms
proof (induction lines arbitrary: rows)
  case (Cons r lines)
  then show ?case using scan_line [of r "[]" rows "csv_render lines"] by (simp add: csv_render_def push_row_def)
qed (simp add: csv_render_def)

lemma csv_line_nonempty: "csv_line cells \<noteq> []"
  by (cases cells rule: csv_line.cases) simp_all

lemma csv_line_butlast: "csv_line cells = butlast (csv_line cells) @ [newline_char]"
  by (induction cells rule: csv_line.induct) (simp_all add: butlast_append csv_line_nonempty)

lemma csv_quote_chars: "set (csv_quote c) \<subseteq> insert quote_char (set c)"
  by (auto simp: csv_quote_def split: if_splits)

lemma csv_line_chars: "set (butlast (csv_line cells)) \<subseteq> {quote_char, CHR '',''} \<union> \<Union> (set ` set cells)"
proof (induction cells rule: csv_line.induct)
  case (2 c)
  then show ?case using csv_quote_chars [of c] by (auto simp: butlast_append)
next
  case (3 c d cs)
  then show ?case using csv_quote_chars [of c] by (auto simp: butlast_append csv_line_nonempty)
qed simp

lemma split_lines_first: "newline_char \<notin> set x \<Longrightarrow> split_lines acc (x @ newline_char # rest) = (rev acc @ x) # split_lines [] rest"
  by (induction x arbitrary: acc) auto

lemma trim_copy_nonblank: "c \<in> set s \<Longrightarrow> \<not> is_space c \<Longrightarrow> trim_copy s \<noteq> []"
proof -
  assume c: "c \<in> set s" "\<not> is_space c"
  then have "c \<in> set (dropWhile is_space s)"
    by (metis Un_iff set_append set_takeWhileD takeWhile_dropWhile_id)
  then show ?thesis using c(2) by (auto simp: trim_copy_def)
qed

lemma quoted_line: "cells \<noteq> [] \<Longrightarrow> quote_char \<in> set (butlast (csv_line cells))"
proof (cases cells rule: csv_line.cases)
  case (3 c d cs)
  then show ?thesis by (auto simp: csv_quote_def butlast_append)
qed (auto simp: csv_quote_def butlast_append)

definition plain_cell :: "string \<Rightarrow> bool" where
  "plain_cell c \<longleftrightarrow> set c \<inter> {CHR 0x09, CHR '';'', newline_char} = {}"

lemma csv_render_delimiter:
  assumes "hs \<noteq> []" "list_all plain_cell hs"
  shows "csv_delimiter (first_non_empty (csv_render (hs # rows))) = CHR '',''"
proof -
  define l where "l = butlast (csv_line hs)"
  have no: "newline_char \<notin> set l" "CHR 0x09 \<notin> set l" "CHR '';'' \<notin> set l"
    using csv_line_chars [of hs] assms(2) by (auto simp: l_def plain_cell_def list_all_iff)
  have "trim_copy l \<noteq> []"
    using trim_copy_nonblank [OF quoted_line [OF assms(1)]] by (simp add: l_def char_simps)
  moreover have "csv_render (hs # rows) = l @ newline_char # csv_render rows"
    using csv_line_butlast [of hs] by (simp add: csv_render_def l_def [symmetric])
  ultimately have f: "first_non_empty (csv_render (hs # rows)) = l"
    by (simp add: first_non_empty_def split_lines_first [OF no(1)])
  have "filter (\<lambda>c. c = CHR 0x09) l = []" "filter (\<lambda>c. c = CHR '';'') l = []"
    using no by (auto simp: filter_empty_conv)
  then show ?thesis unfolding f csv_delimiter_def Let_def by simp
qed

text \<open>
  A table written with every cell quoted and each quote doubled is read back cell for cell,
  whatever the data cells hold (commas, quotes, line breaks, carriage returns): the headers come
  back trimmed, and every row with a cell that is not blank becomes its record, in order. The header
  cells must hold no tab, semicolon or line break, from which the delimiter would be guessed.
\<close>

theorem quoted_csv_reads_back:
  assumes "hs \<noteq> []" "list_all plain_cell hs" "\<not> (length hs = 1 \<and> trim_copy (hd hs) = [])"
    and "list_all (\<lambda>r. r \<noteq> []) rows"
  shows "parse_csv_table (csv_render (hs # rows)) =
    \<lparr>headers = map trim_copy hs,
     records = map (csv_record (map trim_copy hs)) (filter (csv_has_any (map trim_copy hs)) rows)\<rparr>"
proof -
  have "scan_csv (CHR '','') False [] [] [] (csv_render (hs # rows)) =
      scan_csv (CHR '','') False [] [] [hs] (csv_render rows)"
    using scan_line [OF assms(1), of "[]" "[]" "csv_render rows"] assms(3) by (auto simp: csv_render_def push_row_def)
  also have "\<dots> = hs # rows" using scan_lines [OF assms(4), of "[hs]"] by simp
  finally show ?thesis
    unfolding parse_csv_table_def csv_render_delimiter [OF assms(1,2)] by (simp add: Let_def)
qed

theorem quoted_csv_reads_back_witness:
  "csv_get (hd (records (parse_csv_table (csv_render [[''Tag Name'', ''note''], [''pump'', ''a,'' @ [CHR 0x22, CHR 0x0A]]])))) ''note'' =
   ''a,'' @ [CHR 0x22, CHR 0x0A]"
proof -
  have "parse_csv_table (csv_render ([''Tag Name'', ''note''] # [[''pump'', ''a,'' @ [CHR 0x22, CHR 0x0A]]])) =
    \<lparr>headers = map trim_copy [''Tag Name'', ''note''],
     records = map (csv_record (map trim_copy [''Tag Name'', ''note'']))
       (filter (csv_has_any (map trim_copy [''Tag Name'', ''note''])) [[''pump'', ''a,'' @ [CHR 0x22, CHR 0x0A]]])\<rparr>"
    by (rule quoted_csv_reads_back) (simp_all add: plain_cell_def)
  moreover have "csv_get (hd (map (csv_record (map trim_copy [''Tag Name'', ''note'']))
       (filter (csv_has_any (map trim_copy [''Tag Name'', ''note''])) [[''pump'', ''a,'' @ [CHR 0x22, CHR 0x0A]]]))) ''note'' =
     ''a,'' @ [CHR 0x22, CHR 0x0A]"
    by code_simp
  ultimately show ?thesis by simp
qed

end
