(* ===== verification/ConfigNames.thy ===== *)
theory ConfigNames
  imports ConfigText PlcWords
begin

text \<open>
  Names in the configuration (opcbridge/main.cpp): data type and word order aliases, Modbus register
  names built from a tag's JSON and split again, array elements and bit-qualified sources.
\<close>

section \<open>Aliases\<close>

definition normalize_config_datatype :: "string \<Rightarrow> string" where
  "normalize_config_datatype raw =
     (let dt = to_lower_copy (trim_copy raw) in
      if dt = ''boolean'' then ''bool''
      else if dt = ''int'' then ''int16''
      else if dt = ''word'' then ''uint16''
      else if dt = ''dint'' then ''int32''
      else if dt = ''dword'' then ''uint32''
      else if dt = ''real'' then ''float32''
      else if dt = ''lreal'' then ''float64''
      else dt)"

definition is_opcua_client_driver_name :: "string \<Rightarrow> bool" where
  "is_opcua_client_driver_name d \<longleftrightarrow> d \<in> {''opcua_client'', ''opcua-client'', ''remote_opcbridge''}"

definition normalize_modbus_register_prefix :: "string \<Rightarrow> string" where
  "normalize_modbus_register_prefix raw =
     (let s = map to_lower (filter is_alnum (trim_copy raw)) in
      if s \<in> {''co'', ''coil'', ''coils'', ''discreteoutput'', ''discreteoutputs''} then ''co''
      else if s \<in> {''di'', ''discreteinput'', ''discreteinputs'', ''inputstatus''} then ''di''
      else if s \<in> {''hr'', ''holdingregister'', ''holdingregisters'', ''register'', ''registers''} then ''hr''
      else if s \<in> {''ir'', ''inputregister'', ''inputregisters''} then ''ir''
      else [])"

definition normalize_word_order :: "string \<Rightarrow> string" where
  "normalize_word_order raw =
     (let s = map (\<lambda>c. if is_alnum c then to_lower c else CHR ''_'')
                  (filter (\<lambda>c. is_alnum c \<or> c = CHR ''_'' \<or> c = CHR ''-'') (trim_copy raw)) in
      if s \<in> {''lo_hi'', ''low_hi'', ''low_high'', ''lowhigh'', ''swapped'', ''swap''} then ''lo_hi''
      else if s \<in> {[], ''hi_lo'', ''high_lo'', ''high_low'', ''highlow'', ''normal''} then ''hi_lo''
      else [])"

definition is_memory_connection_id :: "string \<Rightarrow> bool" where
  "is_memory_connection_id connId \<longleftrightarrow> trim_copy connId = ''_memory''"

section \<open>Modbus register names\<close>

definition modbus_offset_of_address :: "json \<Rightarrow> string \<Rightarrow> int \<Rightarrow> string + string \<times> int" where
  "modbus_offset_of_address jt prefix address =
     (if prefix = [] then
        (if 40001 \<le> address \<and> address \<le> 49999 then Inr (''hr'', address - 40001)
         else if 30001 \<le> address \<and> address \<le> 39999 then Inr (''ir'', address - 30001)
         else if 10001 \<le> address \<and> address \<le> 19999 then Inr (''di'', address - 10001)
         else Inl ''register_type is required when address is not in 10001/30001/40001 form'')
      else if json_get_bool_loose jt ''zero_based'' False \<or> json_get_bool_loose jt ''zero_based_address'' False
        then Inr (prefix, address)
      else if prefix = ''hr'' \<and> 40001 \<le> address then Inr (prefix, address - 40001)
      else if prefix = ''ir'' \<and> 30001 \<le> address then Inr (prefix, address - 30001)
      else if prefix = ''di'' \<and> 10001 \<le> address then Inr (prefix, address - 10001)
      else Inr (prefix, address - 1))"

definition build_modbus_plc_tag_name :: "json \<Rightarrow> string + string" where
  "build_modbus_plc_tag_name jt =
     (let prefix = normalize_modbus_register_prefix
            (json_get_string_loose jt ''register_type''
              (json_get_string_loose jt ''modbus_type'' (json_get_string_loose jt ''register'' [])));
          offset = (if json_has_nonempty_value jt ''offset'' then json_get_int_loose jt ''offset'' (- 1)
                    else if json_has_nonempty_value jt ''modbus_offset'' then json_get_int_loose jt ''modbus_offset'' (- 1)
                    else - 1);
          resolved =
            (if 0 \<le> offset then Inr (prefix, offset)
             else if \<not> json_has_nonempty_value jt ''address'' \<and> \<not> json_has_nonempty_value jt ''modbus_address''
               then Inl (''missing Modbus '' @ CHR 0x27 # ''address'' @ CHR 0x27 # '' or '' @ CHR 0x27 # ''offset'' @ [CHR 0x27])
             else
               let address = (if json_has_nonempty_value jt ''address'' then json_get_int_loose jt ''address'' (- 1)
                              else json_get_int_loose jt ''modbus_address'' (- 1))
               in if address < 0 then Inl ''invalid Modbus address'' else modbus_offset_of_address jt prefix address)
      in case resolved of Inl e \<Rightarrow> Inl e
         | Inr (p, off) \<Rightarrow>
             if p = [] then Inl ''missing or unsupported Modbus register_type''
             else if off < 0 then Inl ''Modbus address resolved to a negative offset''
             else Inr (p @ show_int off))"

definition split_modbus_plc_tag_name :: "string \<Rightarrow> (string \<times> int) option" where
  "split_modbus_plc_tag_name name =
     (let s = trim_copy name; prefix = to_lower_copy (take 2 s); digits = drop 2 s in
      if length s < 3 \<or> prefix \<notin> {''hr'', ''ir'', ''co'', ''di''} \<or> \<not> list_all is_digit digits then None
      else case stoi digits of Inl e \<Rightarrow> None | Inr (off, rest) \<Rightarrow> if off < 0 then None else Some (prefix, off))"

definition modbus_register_span_for_datatype :: "string \<Rightarrow> int" where
  "modbus_register_span_for_datatype dt =
     (if dt = ''int32'' \<or> dt = ''uint32'' \<or> dt = ''float32'' then 2 else if dt = ''float64'' then 4 else 1)"

definition build_array_element_plc_tag_name :: "connection_config \<Rightarrow> tag_config \<Rightarrow> int \<Rightarrow> string" where
  "build_array_element_plc_tag_name conn t i =
     (case (if is_modbus_connection conn then split_modbus_plc_tag_name (plc_tag_name t) else None) of
        Some (prefix, off) \<Rightarrow> prefix @ show_int (off + max 0 i * modbus_register_span_for_datatype (datatype_name t))
      | None \<Rightarrow> plc_tag_name t @ ''['' @ show_int i @ '']'')"

section \<open>Names of elements and bits\<close>

definition parse_array_element_logical_name :: "string \<Rightarrow> (string \<times> int) option" where
  "parse_array_element_logical_name name =
     (if name = [] \<or> last name \<noteq> CHR '']'' then None
      else
        let r = rev (butlast name);
            idxText = rev (takeWhile (\<lambda>c. c \<noteq> CHR ''['') r);
            before = dropWhile (\<lambda>c. c \<noteq> CHR ''['') r
        in if before = [] \<or> tl before = [] \<or> idxText = [] \<or> \<not> list_all is_digit idxText then None
           else case stoi idxText of Inl e \<Rightarrow> None | Inr (i, rest) \<Rightarrow> if i < 0 then None else Some (rev (tl before), i))"

definition parse_bit_qualified_source_name :: "string \<Rightarrow> (string \<times> int) option" where
  "parse_bit_qualified_source_name name =
     (let r = rev (trim_copy name);
          bitText = rev (takeWhile (\<lambda>c. c \<noteq> CHR ''.'') r);
          before = dropWhile (\<lambda>c. c \<noteq> CHR ''.'') r
      in if before = [] \<or> tl before = [] \<or> bitText = [] \<or> \<not> list_all is_digit bitText then None
         else case stoi bitText of Inl e \<Rightarrow> None
            | Inr (b, rest) \<Rightarrow> if b < 0 \<or> 63 < b then None else Some (rev (tl before), b))"

section \<open>Names that are built are read back\<close>

lemma stoi_show: "0 \<le> n \<Longrightarrow> n < 2 ^ 31 \<Longrightarrow> stoi (show_int n) = Inr (n, [])"
  unfolding stoi_def by (rule sto_range_show) simp_all

lemma show_int_digits: "0 \<le> n \<Longrightarrow> list_all is_digit (show_int n) \<and> show_int n \<noteq> []"
  using show_nat_digits [of "nat n"] by (simp add: show_int_def)

lemma digit_not_space: "is_digit c \<Longrightarrow> \<not> is_space c"
  by (auto simp: char_simps)

lemma trim_copy_fixed: "s = [] \<or> (\<not> is_space (hd s) \<and> \<not> is_space (last s)) \<Longrightarrow> trim_copy s = s"
proof -
  assume s: "s = [] \<or> (\<not> is_space (hd s) \<and> \<not> is_space (last s))"
  have keep: "xs = [] \<or> \<not> is_space (hd xs) \<Longrightarrow> dropWhile is_space xs = xs" for xs by (cases xs) auto
  have "dropWhile is_space s = s" "dropWhile is_space (rev s) = rev s"
    using s by (auto intro!: keep simp: hd_rev)
  then show ?thesis by (simp add: trim_copy_def)
qed

lemma take_until:
  "\<forall>c \<in> set xs. c \<noteq> d \<Longrightarrow>
     takeWhile (\<lambda>c. c \<noteq> d) (xs @ d # ys) = xs \<and> dropWhile (\<lambda>c. c \<noteq> d) (xs @ d # ys) = d # ys"
  by (induction xs) auto

lemma element_name_parses:
  assumes "base \<noteq> []" "0 \<le> i" "i < 2 ^ 31"
  shows "parse_array_element_logical_name (base @ ''['' @ show_int i @ '']'') = Some (base, i)"
proof -
  have no: "\<forall>c \<in> set (rev (show_int i)). c \<noteq> CHR ''[''"
    using show_int_digits [OF assms(2)] by (auto simp: list_all_iff char_simps)
  have split: "takeWhile (\<lambda>c. c \<noteq> CHR ''['') (rev (show_int i) @ CHR ''['' # rev base) = rev (show_int i)"
    "dropWhile (\<lambda>c. c \<noteq> CHR ''['') (rev (show_int i) @ CHR ''['' # rev base) = CHR ''['' # rev base"
    using take_until [OF no] by blast+
  show ?thesis
    using assms show_int_digits [OF assms(2)] stoi_show [OF assms(2,3)] split
    by (simp add: parse_array_element_logical_name_def butlast_append Let_def)
qed

lemma modbus_name_splits:
  assumes "p \<in> {''hr'', ''ir'', ''co'', ''di''}" "0 \<le> off" "off < 2 ^ 31"
  shows "split_modbus_plc_tag_name (p @ show_int off) = Some (p, off)"
proof -
  note d = show_int_digits [OF assms(2)]
  have len: "length p = 2" and low: "to_lower_copy p = p" and h: "\<not> is_space (hd p)" "p \<noteq> []"
    using assms(1) by (auto simp: to_lower_copy_def char_simps)
  have "\<not> is_space (last (show_int off))"
    using d digit_not_space by (meson last_in_set list_all_iff)
  then have "trim_copy (p @ show_int off) = p @ show_int off"
    using d h by (intro trim_copy_fixed) auto
  then show ?thesis
    using d len low assms stoi_show [OF assms(2,3)] by (cases "show_int off") (auto simp: split_modbus_plc_tag_name_def Let_def)
qed

end
