(* ===== verification/JsonNumbers.thy ===== *)
theory JsonNumbers
  imports Json Floats
begin

text \<open>
  Numbers out of JSON values, as \<open>nlohmann::json::get\<close> converts them. An arithmetic type other than the
  library's own \<open>int64_t\<close> and \<open>double\<close> takes any number and a bool as 0 or 1; \<open>long long\<close> is such a type.
\<close>

definition dbl_to_int64 :: "dbl \<Rightarrow> int" where
  "dbl_to_int64 d =
     (case d of DFin x \<Rightarrow>
        let n = (if 0 \<le> x then floor x else ceiling x) in
        if - (2 ^ 63) \<le> n \<and> n < 2 ^ 63 then n else - (2 ^ 63)
      | _ \<Rightarrow> - (2 ^ 63))"

definition to_int64 :: "int \<Rightarrow> int" where
  "to_int64 n = sint (word_of_int n :: 64 word)"

fun get_int :: "json \<Rightarrow> json_error + int" where
  "get_int (JInt n) = Inr (to_int32 n)"
| "get_int (JFloat x) = Inr (dbl_to_int32 x)"
| "get_int (JBool b) = Inr (if b then 1 else 0)"
| "get_int _ = Inl TypeError"

fun get_long_long :: "json \<Rightarrow> json_error + int" where
  "get_long_long (JInt n) = Inr (to_int64 n)"
| "get_long_long (JFloat x) = Inr (dbl_to_int64 x)"
| "get_long_long (JBool b) = Inr (if b then 1 else 0)"
| "get_long_long _ = Inl TypeError"

fun get_double :: "json \<Rightarrow> json_error + dbl" where
  "get_double (JInt n) = Inr (dbl_of_int n)"
| "get_double (JFloat x) = Inr x"
| "get_double _ = Inl TypeError"

lemma to_int64_id: "- (2 ^ 63) \<le> n \<Longrightarrow> n < 2 ^ 63 \<Longrightarrow> to_int64 n = n"
  by (simp add: to_int64_def sint_sbintrunc' signed_take_bit_int_eq_self)

end
