(* ===== verification/ConfigLoad.thy ===== *)
theory ConfigLoad
  imports ConfigNames Paths JsonNumbers
begin

text \<open>
  Loading the configuration (opcbridge/main.cpp): \<open>load\_connection\_config\<close> for the four drivers and
  \<open>load\_tag\_file\<close> for memory, derived and PLC tags. The functions take the parsed document; reading
  a file is the caller's, and the identity metadata of a secure OPC UA connection is an argument.
  \<open>Inl\<close> is the exception the load ends with; a skipped tag is \<open>None\<close>.
\<close>

datatype load_error = JsonFailure json_error | BadConfig string

definition field :: "(json \<Rightarrow> json_error + 'a) \<Rightarrow> json \<Rightarrow> string \<Rightarrow> 'a \<Rightarrow> load_error + 'a" where
  "field conv j k d = (case jvalue conv j k d of Inl e \<Rightarrow> Inl (JsonFailure e) | Inr a \<Rightarrow> Inr a)"

section \<open>Connections\<close>

definition connection_base :: "json \<Rightarrow> load_error + connection_config \<times> string" where
  "connection_base j =
     rbind (case jat j ''id'' of Inl e \<Rightarrow> Inl (JsonFailure e)
            | Inr v \<Rightarrow> (case get_string v of Inl e \<Rightarrow> Inl (JsonFailure e) | Inr s \<Rightarrow> Inr s)) (\<lambda>cid.
     rbind (field get_string j ''name'' cid) (\<lambda>nm.
     rbind (field get_string j ''description'' nm) (\<lambda>descr.
     rbind (field get_string j ''driver'' ''ab_eip'') (\<lambda>driver.
     rbind (field get_string j ''gateway'' []) (\<lambda>gateway.
     rbind (field get_bool j ''enabled'' True) (\<lambda>enabled.
     rbind (field get_string j ''path'' []) (\<lambda>raw_path.
     rbind (field get_int j ''slot'' 0) (\<lambda>slot.
     rbind (field get_string j ''plc_type'' ''lgx'') (\<lambda>plc_type.
     rbind (field get_bool j ''poll_active_only'' True) (\<lambda>active_only.
     rbind (field get_int j ''default_timeout_ms'' 1000) (\<lambda>timeout_ms.
     rbind (field get_int j ''default_read_ms'' 1000) (\<lambda>read_ms.
     rbind (field get_int j ''default_write_ms'' 1000) (\<lambda>write_ms.
     rbind (field get_int j ''debug'' 0) (\<lambda>dbg.
       let mode = to_lower_copy (trim_copy (json_get_string_loose j ''polling_mode'' ''standard''));
           pacing = to_lower_copy (trim_copy (json_get_string_loose j ''polling_pacing'' ''balanced''))
       in Inr (new_connection_config\<lparr>conn_id := cid,
            conn_name := (if trim_copy descr = [] then cid else trim_copy descr),
            conn_driver := driver, conn_gateway := gateway, conn_enabled := enabled, conn_slot := slot,
            conn_plc_type := plc_type,
            polling_mode := (if mode \<noteq> ''time_sliced'' then ''standard'' else mode),
            polling_pacing := (if pacing \<noteq> ''gentle'' \<and> pacing \<noteq> ''fast'' then ''balanced'' else pacing),
            poll_active_only_configured := contains j ''poll_active_only'', poll_active_only := active_only,
            poll_batch_size := max 0 (json_get_int_loose j ''poll_batch_size'' 0),
            poll_time_budget_ms := max 0 (json_get_int_loose j ''poll_time_budget_ms'' 0),
            poll_max_reads_per_sec := max 0 (json_get_int_loose j ''poll_max_reads_per_sec'' 0),
            poll_lanes := max 1 (min 8 (json_get_int_loose j ''poll_lanes'' 1)),
            default_timeout_ms := timeout_ms, default_read_ms := read_ms, default_write_ms := write_ms,
            startup_handle_wait_ms := max 0 (json_get_int_loose j ''startup_handle_wait_ms'' 0),
            conn_debug := dbg\<rparr>, raw_path)))))))))))))))"

definition settings_of :: "json \<Rightarrow> json" where
  "settings_of j = (case jfind j ''settings'' of Some (JObj kvs) \<Rightarrow> JObj kvs | _ \<Rightarrow> JObj [])"

text \<open>The topics of \<open>settings[key]\<close>, when it is an array.\<close>

fun topics :: "json list \<Rightarrow> load_error + string list" where
  "topics [] = Inr []"
| "topics (jm # js) =
     rbind (field get_string jm ''topic'' []) (\<lambda>raw.
     rbind (topics js) (\<lambda>ts. Inr (if trim_copy raw = [] then ts else trim_copy raw # ts)))"

definition topic_list :: "json \<Rightarrow> string \<Rightarrow> load_error + string list" where
  "topic_list settings key = (case jfind settings key of Some (JArr xs) \<Rightarrow> topics xs | _ \<Rightarrow> Inr [])"

definition mqtt_connection :: "json \<Rightarrow> connection_config \<Rightarrow> load_error + connection_config" where
  "mqtt_connection j c =
     rbind (topic_list (settings_of j) ''messages'') (\<lambda>subs.
     rbind (topic_list (settings_of j) ''publications'') (\<lambda>pubs.
       Inr (c\<lparr>mqtt_subscription_topics := subs, mqtt_publication_topics := pubs, conn_path := [],
              conn_plc_type := ''mqtt'', polling_mode := ''standard'', polling_pacing := ''gentle'',
              poll_batch_size := 0, poll_time_budget_ms := 0, poll_max_reads_per_sec := 0, poll_lanes := 1\<rparr>)))"

definition opcua_default_endpoint :: "string \<Rightarrow> load_error + string" where
  "opcua_default_endpoint gateway =
     (let host = trim_copy gateway in
      if host = [] then Inl (BadConfig ''OPC UA client connection requires an endpoint or gateway'')
      else
        let h1 = (if take 10 host \<noteq> ''opc.tcp://'' then ''opc.tcp://'' @ host else host)
        in Inr (if CHR '':'' \<notin> set (drop 10 h1) then h1 @ '':4840'' else h1))"

text \<open>\<open>fs::path::parent\_path\<close>: the name after the last separator goes, and the separators before it
  unless they are all that is left.\<close>

definition parent_path :: "string \<Rightarrow> string" where
  "parent_path p =
     (let d = dropWhile (\<lambda>c. c \<noteq> CHR ''/'') (rev p); e = dropWhile (\<lambda>c. c = CHR ''/'') d
      in if e = [] then rev d else rev e)"

definition secure_opcua :: "(string \<Rightarrow> json option) \<Rightarrow> string \<Rightarrow> string \<Rightarrow> connection_config \<Rightarrow> load_error + connection_config" where
  "secure_opcua load path profile c =
     (if \<not> is_safe_connection_id_filename profile then Inl (BadConfig ''Invalid OPC UA security profile name'')
      else
        let opcuaRoot = path_join (path_join (parent_path (parent_path path)) ''certs'') ''opcua'';
            own = path_join (path_join (path_join opcuaRoot ''pki'') ''ApplCerts'') ''own'';
            identity = load (path_join opcuaRoot ''identity.json'')
        in case (case identity of None \<Rightarrow> None
                 | Some i \<Rightarrow> (case jvalue get_string i ''application_uri'' [] of Inl e \<Rightarrow> None | Inr u \<Rightarrow> Some (trim_copy u))) of
             None \<Rightarrow> Inl (BadConfig ''Unable to load the OPC UA application identity metadata'')
           | Some uri \<Rightarrow>
               if uri = [] then Inl (BadConfig ''OPC UA application identity has no Application URI'')
               else Inr (c\<lparr>opcua_client_certificate := path_join (path_join own ''certs'') ''opcbridge-application.der'',
                      opcua_client_private_key := path_join (path_join own ''private'') ''opcbridge-application-key.der'',
                      opcua_trusted_server_certificate :=
                        path_join (path_join opcuaRoot ''server-profiles'') (profile @ ''.der''),
                      opcua_application_uri := uri\<rparr>))"

definition opcua_connection :: "(string \<Rightarrow> json option) \<Rightarrow> string \<Rightarrow> json \<Rightarrow> connection_config \<Rightarrow> load_error + connection_config" where
  "opcua_connection load path j c =
     (let settings = settings_of j in
      rbind (field get_string j ''endpoint'' []) (\<lambda>e0.
      rbind (field get_string settings ''endpoint'' e0) (\<lambda>e1.
      rbind (if trim_copy e1 = [] then opcua_default_endpoint (conn_gateway c) else Inr (trim_copy e1)) (\<lambda>endpoint.
      rbind (field get_string settings ''username'' []) (\<lambda>username.
      rbind (field get_string settings ''password'' []) (\<lambda>password.
      rbind (field get_string settings ''security_profile'' []) (\<lambda>rawProfile.
        let profile = trim_copy rawProfile; secure = (profile \<noteq> [] \<and> profile \<noteq> ''unsecured'');
            c1 = c\<lparr>conn_driver := ''opcua_client'', opcua_endpoint := endpoint, opcua_username := trim_copy username,
                   opcua_password := password, opcua_secure := secure,
                   opcua_security_profile := (if secure then profile else ''unsecured'')\<rparr>
        in rbind (if secure then secure_opcua load path profile c1 else Inr c1) (\<lambda>c2.
             Inr (c2\<lparr>conn_path := [], conn_plc_type := ''opcua_client'', poll_lanes := 1\<rparr>)))))))))"

definition quoted :: "string \<Rightarrow> string" where
  "quoted s = CHR 0x27 # s @ [CHR 0x27]"

definition load_connection_config :: "(string \<Rightarrow> json option) \<Rightarrow> string \<Rightarrow> json \<Rightarrow> load_error + connection_config" where
  "load_connection_config load path j =
     rbind (connection_base j) (\<lambda>(c, raw_path).
       if conn_driver c = ''ab_eip'' then
         Inr (c\<lparr>conn_path := (if raw_path \<noteq> [] then raw_path else ''1,'' @ show_int (conn_slot c))\<rparr>)
       else if is_modbus_driver_name (conn_driver c) then
         (let p = trim_copy (if raw_path = [] then json_get_string_loose j ''unit_id'' ''1'' else raw_path)
          in Inr (c\<lparr>conn_driver := ''modbus_tcp'', conn_path := (if p = [] then ''1'' else p), conn_plc_type := ''modbus_tcp''\<rparr>))
       else if conn_driver c = ''mqtt'' then mqtt_connection j c
       else if is_opcua_client_driver_name (conn_driver c) then opcua_connection load path j c
       else Inl (BadConfig (''Unsupported driver: '' @ conn_driver c @ '' (expected '' @ quoted ''ab_eip'' @ '', '' @
              quoted ''modbus_tcp'' @ '', '' @ quoted ''mqtt'' @ '', or '' @ quoted ''opcua_client'' @ '')'')))"

section \<open>Tags\<close>

text \<open>Where a tag's value comes from: whether it is a memory tag, its source and its bit.\<close>

definition tag_source :: "json \<Rightarrow> bool \<times> string \<times> int" where
  "tag_source jt =
     (let kind0 = to_lower_copy (trim_copy
            (json_get_string_loose jt ''source_type'' (json_get_string_loose jt ''source_kind'' [])));
          compat = json_get_string_loose jt ''source'' [];
          kind = (if kind0 = [] \<and> to_lower_copy (trim_copy compat) = ''memory'' then ''memory'' else kind0);
          isMemory = (kind = ''memory'');
          src = json_get_string_loose jt ''source_tag'' (if isMemory then [] else compat);
          b = json_get_int_loose jt ''bit'' (- 1)
      in case (if src = [] then None else parse_bit_qualified_source_name src) of
           None \<Rightarrow> (isMemory, src, b)
         | Some (src', b') \<Rightarrow> (isMemory, src', b'))"

definition json_datatype :: "json \<Rightarrow> string" where
  "json_datatype jt = normalize_config_datatype (json_get_string_loose jt ''datatype'' [])"

definition memory_tag :: "json \<Rightarrow> tag_config \<Rightarrow> tag_config option" where
  "memory_tag jt t =
     (if \<not> is_supported_datatype (json_datatype jt) then None
      else Some (t\<lparr>source_type := ''memory'', initial_value := json_get_string_loose jt ''initial_value'' [],
             plc_tag_name := [], source_tag := [], source_bit := - 1, elem_count := 1, scan_ms := 0,
             datatype_name := json_datatype jt\<rparr>))"

definition derived_tag :: "json \<Rightarrow> string \<Rightarrow> int \<Rightarrow> tag_config \<Rightarrow> tag_config option" where
  "derived_tag jt src b t =
     (let isBit = (0 \<le> b);
          dt0 = json_datatype jt;
          dt = (if dt0 = [] \<and> isBit then ''bool'' else dt0)
      in if isBit \<and> dt \<noteq> ''bool'' then None
         else if \<not> isBit \<and> \<not> is_supported_datatype dt then None
         else Some (t\<lparr>source_type := ''derived'', source_tag := src, source_bit := b, plc_tag_name := [], datatype_name := dt\<rparr>))"

definition modbus_keys :: "string list" where
  "modbus_keys = [''register_type'', ''modbus_type'', ''register'', ''address'', ''modbus_address'', ''offset'', ''modbus_offset'']"

definition plc_tag :: "json \<Rightarrow> tag_config \<Rightarrow> tag_config option" where
  "plc_tag jt t =
     (if \<not> contains jt ''datatype'' then None
      else
        let name0 = json_get_string_loose jt ''plc_tag_name'' [];
            name = (if name0 \<noteq> [] then Some name0
                    else case build_modbus_plc_tag_name jt of
                        Inr n \<Rightarrow> Some n
                      | Inl e \<Rightarrow> if list_ex (json_has_nonempty_value jt) modbus_keys then None else Some [])
        in case name of None \<Rightarrow> None
           | Some n \<Rightarrow>
               if n = [] \<or> \<not> is_supported_datatype (json_datatype jt) then None
               else Some (t\<lparr>source_type := ''plc'', plc_tag_name := n,
                      tag_path := trim_copy (json_get_string_loose jt ''path'' []), datatype_name := json_datatype jt\<rparr>))"

text \<open>The options every kind of tag shares.\<close>

definition tag_options :: "json \<Rightarrow> bool \<Rightarrow> bool \<Rightarrow> bool \<Rightarrow> tag_config \<Rightarrow> tag_config" where
  "tag_options jt isMemory hasSource isAlias t =
     (let norm = normalize_word_order (json_get_string_loose jt ''word_order'' (json_get_string_loose jt ''modbus_word_order'' []));
          interval1 = json_get_int_loose jt ''log_periodic_interval_sec'' 0
      in t\<lparr>scan_ms := (if isMemory then 0 else json_get_int_loose jt ''scan_ms'' 1000),
           elem_count := (if hasSource \<or> isMemory then 1 else max 1 (json_get_int_loose jt ''elem_count'' 1)),
           tag_enabled := json_get_bool_loose jt ''enabled'' True,
           tag_writable := json_get_bool_loose jt ''writable'' False,
           tag_invert := (json_get_bool_loose jt ''invert'' False \<and> datatype_name t = ''bool''),
           word_order := (if norm \<noteq> [] then norm else word_order t),
           source_bit := (if isAlias then - 1 else source_bit t),
           scaling := (if isMemory then ''none'' else json_get_string_loose jt ''scaling'' ''none''),
           raw_low := json_get_double_loose jt ''raw_low'' (raw_low t),
           raw_high := json_get_double_loose jt ''raw_high'' (raw_high t),
           scaled_low := json_get_double_loose jt ''scaled_low'' (scaled_low t),
           scaled_high := json_get_double_loose jt ''scaled_high'' (scaled_high t),
           clamp_low := json_get_bool_loose jt ''clamp_low'' False,
           clamp_high := json_get_bool_loose jt ''clamp_high'' False,
           scaled_datatype := (if isMemory then [] else json_get_string_loose jt ''scaled_datatype'' []),
           log_event_on_change := json_get_bool_loose jt ''log_event_on_change'' False,
           log_periodic := json_get_bool_loose jt ''log_periodic'' False,
           log_periodic_mode := json_get_string_loose jt ''log_periodic_mode'' [],
           log_periodic_interval_sec :=
             (if 0 < interval1 then interval1 else json_get_int_loose jt ''log_periodic_interval'' 0),
           log_hourly_minute := json_get_int_loose jt ''log_hourly_minute'' 0,
           log_daily_hour := json_get_int_loose jt ''log_daily_hour'' 0,
           log_daily_minute := json_get_int_loose jt ''log_daily_minute'' 0\<rparr>)"

definition load_tag :: "json \<Rightarrow> tag_config option" where
  "load_tag jt =
     (let name = json_get_string_loose jt ''name'' [] in
      if \<not> is_object jt \<or> name = [] then None
      else case tag_source jt of (isMemory, src, b) \<Rightarrow>
        let t = new_tag_config\<lparr>logical_name := name\<rparr>; hasSource = (src \<noteq> []) in
        map_option (tag_options jt isMemory hasSource (hasSource \<and> b < 0))
          (if isMemory then memory_tag jt t else if hasSource then derived_tag jt src b t else plc_tag jt t))"

text \<open>Iterating over an object visits its members in key order; a scalar is visited as itself, and
  is then no tag.\<close>

fun json_elements :: "json \<Rightarrow> json list" where
  "json_elements (JArr xs) = xs"
| "json_elements (JObj kvs) = map snd (sort_key fst kvs)"
| "json_elements JNull = []"
| "json_elements j = [j]"

definition load_tag_file :: "json \<Rightarrow> json_error + string \<times> tag_config list" where
  "load_tag_file j =
     rbind (jat j ''connection_id'') (\<lambda>v. rbind (get_string v) (\<lambda>cid.
     rbind (jat j ''tags'') (\<lambda>ts. Inr (cid, List.map_filter load_tag (json_elements ts)))))"

section \<open>What a loaded tag looks like\<close>

text \<open>The shape the rest of the program relies on, for each of the three kinds.\<close>

definition tag_well_formed :: "tag_config \<Rightarrow> bool" where
  "tag_well_formed t \<longleftrightarrow>
     logical_name t \<noteq> [] \<and> is_supported_datatype (datatype_name t) \<and> word_order t \<in> {''hi_lo'', ''lo_hi''} \<and>
     1 \<le> elem_count t \<and> - 1 \<le> source_bit t \<and> (tag_invert t \<longrightarrow> datatype_name t = ''bool'') \<and>
     (if source_type t = ''memory'' then
        plc_tag_name t = [] \<and> source_tag t = [] \<and> source_bit t = - 1 \<and> elem_count t = 1 \<and> scan_ms t = 0 \<and> scaling t = ''none''
      else if source_type t = ''derived'' then
        source_tag t \<noteq> [] \<and> plc_tag_name t = [] \<and> elem_count t = 1 \<and> (0 \<le> source_bit t \<longrightarrow> datatype_name t = ''bool'')
      else source_type t = ''plc'' \<and> plc_tag_name t \<noteq> [] \<and> source_tag t = [] \<and> source_bit t = - 1)"

lemma normalize_word_order_cases: "normalize_word_order s \<in> {[], ''hi_lo'', ''lo_hi''}"
  unfolding normalize_word_order_def Let_def by (simp split: if_splits)

lemma bool_supported: "is_supported_datatype ''bool''"
  by (simp add: is_supported_datatype_def)

lemma tag_options_keeps [simp]:
  "logical_name (tag_options jt m h a t) = logical_name t"
  "datatype_name (tag_options jt m h a t) = datatype_name t"
  "source_type (tag_options jt m h a t) = source_type t"
  "plc_tag_name (tag_options jt m h a t) = plc_tag_name t"
  "source_tag (tag_options jt m h a t) = source_tag t"
  by (simp_all add: tag_options_def Let_def)

lemma tag_options_sets:
  "elem_count (tag_options jt m h a t) = (if h \<or> m then 1 else max 1 (json_get_int_loose jt ''elem_count'' 1))"
  "scan_ms (tag_options jt m h a t) = (if m then 0 else json_get_int_loose jt ''scan_ms'' 1000)"
  "source_bit (tag_options jt m h a t) = (if a then - 1 else source_bit t)"
  "tag_invert (tag_options jt m h a t) \<Longrightarrow> datatype_name t = ''bool''"
  "m \<Longrightarrow> scaling (tag_options jt m h a t) = ''none''"
  "word_order t \<in> {''hi_lo'', ''lo_hi''} \<Longrightarrow> word_order (tag_options jt m h a t) \<in> {''hi_lo'', ''lo_hi''}"
  using normalize_word_order_cases [of "json_get_string_loose jt ''word_order'' (json_get_string_loose jt ''modbus_word_order'' [])"]
  by (auto simp: tag_options_def Let_def)

lemma memory_tagD:
  "memory_tag jt t = Some u \<Longrightarrow> is_supported_datatype (datatype_name u) \<and> source_type u = ''memory'' \<and> plc_tag_name u = [] \<and>
     source_tag u = [] \<and> source_bit u = - 1 \<and> word_order u = word_order t \<and> logical_name u = logical_name t"
  by (auto simp: memory_tag_def split: if_splits)

lemma derived_tagD:
  "derived_tag jt src b t = Some u \<Longrightarrow> is_supported_datatype (datatype_name u) \<and> source_type u = ''derived'' \<and> plc_tag_name u = [] \<and>
     source_tag u = src \<and> source_bit u = b \<and> (0 \<le> b \<longrightarrow> datatype_name u = ''bool'') \<and> word_order u = word_order t \<and>
     logical_name u = logical_name t"
  by (auto simp: derived_tag_def Let_def bool_supported split: if_splits)

lemma plc_tagD:
  "plc_tag jt t = Some u \<Longrightarrow> is_supported_datatype (datatype_name u) \<and> source_type u = ''plc'' \<and> plc_tag_name u \<noteq> [] \<and>
     source_tag u = source_tag t \<and> source_bit u = source_bit t \<and> word_order u = word_order t \<and> logical_name u = logical_name t"
  by (auto simp: plc_tag_def Let_def split: if_splits option.splits)

text \<open>
  C29. Every tag a configuration file loads is well formed, whatever JSON the file holds: it has a name,
  a supported data type, one of the two word orders and at least one element; only a bool is
  inverted; a memory tag has no source, register or scaling, a derived tag has a source and is a bool when
  it names a bit, and a PLC tag has a register or PLC name and no source.
\<close>

theorem loaded_tags_are_well_formed:
  assumes "load_tag_file j = Inr (cid, tags)" "t \<in> set tags"
  shows "tag_well_formed t"
proof -
  obtain jt where l: "load_tag jt = Some t"
    using assms by (auto simp: load_tag_file_def rbind_Inr List.map_filter_def)
  obtain m src b where src: "tag_source jt = (m, src, b)" by (cases "tag_source jt")
  define nm where "nm = json_get_string_loose jt ''name'' []"
  define t0 where "t0 = new_tag_config\<lparr>logical_name := nm\<rparr>"
  have t0: "logical_name t0 = nm" "word_order t0 = ''hi_lo''" "source_tag t0 = []" "source_bit t0 = - 1"
    by (simp_all add: t0_def new_tag_config_def)
  obtain u where nm: "nm \<noteq> []" and t: "t = tag_options jt m (src \<noteq> []) (src \<noteq> [] \<and> b < 0) u"
    and u: "(if m then memory_tag jt t0 else if src \<noteq> [] then derived_tag jt src b t0 else plc_tag jt t0) = Some u"
    using l by (auto simp: load_tag_def Let_def src nm_def [symmetric] t0_def [symmetric] split: if_splits)
  show ?thesis
    using u nm memory_tagD [of jt t0 u] derived_tagD [of jt src b t0 u] plc_tagD [of jt t0 u] t0 tag_options_sets(6) [of u]
    unfolding t by (auto simp: tag_well_formed_def tag_options_sets dest: tag_options_sets(4) split: if_splits)
qed

definition sample_tag_file :: json where
  "sample_tag_file = JObj [(''connection_id'', JStr ''plc1''), (''tags'', JArr [
     JObj [(''name'', JStr ''level''), (''datatype'', JStr ''REAL''), (''address'', JInt 40011), (''word_order'', JStr ''swapped'')],
     JObj [(''name'', JStr ''full''), (''source_tag'', JStr ''status.3'')],
     JObj [(''datatype'', JStr ''bool'')]])]"

theorem loaded_tags_are_well_formed_witness:
  "\<exists>tags. load_tag_file sample_tag_file = Inr (''plc1'', tags) \<and>
     map (\<lambda>t. (plc_tag_name t, datatype_name t, source_bit t)) tags = [(''hr10'', ''float32'', - 1), ([], ''bool'', 3)] \<and>
     list_all tag_well_formed tags"
proof -
  obtain tags where f: "load_tag_file sample_tag_file = Inr (''plc1'', tags)"
    "map (\<lambda>t. (plc_tag_name t, datatype_name t, source_bit t)) tags = [(''hr10'', ''float32'', - 1), ([], ''bool'', 3)]"
    by (rule that [of "snd (projr (load_tag_file sample_tag_file))"]) code_simp+
  then show ?thesis using loaded_tags_are_well_formed [OF f(1)] by (auto simp: list_all_iff)
qed

end
