(* ===== verification/PollCache.thy ===== *)
theory PollCache
  imports ConfigNames TagDemand
begin

text \<open>
  The cached values of a connection's tags and their life cycle (opcbridge/main.cpp): the first
  snapshot of a tag, the gate a polled sample passes, suspending and waking a tag, the readback a
  write asks for, what makes two snapshots equal, and the counts of polling activity.
  \<open>now\<close> is a reading of the steady clock, \<open>wall\<close> one of the system clock. The table maps
  \<open>connection:name\<close> to a snapshot.
\<close>

type_synonym tag_table = "string \<rightharpoonup> tag_snapshot"

record driver_context =
  freshness_epoch :: u64
  poll_gates :: "string \<rightharpoonup> poll_read_gate"
  drv_conn :: connection_config
  drv_tags :: "tag_runtime list"

definition make_tag_key :: "string \<Rightarrow> string \<Rightarrow> string" where
  "make_tag_key cid name = cid @ '':'' @ name"

definition tag_key :: "driver_context \<Rightarrow> tag_runtime \<Rightarrow> string" where
  "tag_key d t = make_tag_key (conn_id (drv_conn d)) (logical_name (cfg t))"

section \<open>Node identifiers\<close>

definition hex_digit :: "nat \<Rightarrow> char" where
  "hex_digit n = (if n < 10 then char_of (48 + n) else char_of (55 + n))"

definition node_char_safe :: "char \<Rightarrow> bool" where
  "node_char_safe c \<longleftrightarrow> is_alnum c \<or> c = CHR ''_'' \<or> c = CHR ''-'' \<or> c = CHR ''.''"

definition ua_nodeid_escape_segment :: "string \<Rightarrow> string" where
  "ua_nodeid_escape_segment s =
     concat (map (\<lambda>c. if node_char_safe c then [c]
                      else [CHR ''%'', hex_digit (code c div 16), hex_digit (code c mod 16)]) s)"

definition ua_tag_nodeid_string :: "string \<Rightarrow> string \<Rightarrow> string" where
  "ua_tag_nodeid_string cid name = ''Tags/'' @ ua_nodeid_escape_segment cid @ ''/'' @ ua_nodeid_escape_segment name"

section \<open>Snapshots\<close>

definition make_initial_snapshot_for_tag :: "time \<Rightarrow> connection_config \<Rightarrow> tag_runtime \<Rightarrow> int \<Rightarrow> tag_snapshot" where
  "make_initial_snapshot_for_tag wall c t q =
     (let outDt = normalize_scaled_datatype (out_datatype t);
          dt = (if scaling_linear t then if outDt = [] then ''float64'' else outDt else datatype_name (cfg t));
          seed = new_snapshot\<lparr>snap_connection := conn_id c, snap_name := logical_name (cfg t), snap_time := wall,
                   snap_quality := q, snap_datatype := dt, snap_value := default_tag_value_for_datatype dt\<rparr>
      in case (if is_memory_tag (cfg t) \<and> initial_value (cfg t) \<noteq> []
               then parse_string_to_tagvalue (initial_value (cfg t)) (datatype_name (cfg t)) else None) of
           None \<Rightarrow> seed
         | Some v \<Rightarrow> seed\<lparr>snap_value := v, snap_datatype := datatype_name (cfg t)\<rparr>)"

definition make_initial_snapshot_for_opcua :: "time \<Rightarrow> connection_config \<Rightarrow> tag_runtime \<Rightarrow> tag_snapshot" where
  "make_initial_snapshot_for_opcua wall c t =
     (let seed = make_initial_snapshot_for_tag wall c t (if is_memory_tag (cfg t) then 1 else 0)
      in if 1 < elem_count (cfg t) then seed\<lparr>snap_array := replicate (nat (elem_count (cfg t))) (snap_value seed)\<rparr> else seed)"

definition snapshot_polling_state :: "tag_snapshot \<Rightarrow> string" where
  "snapshot_polling_state s =
     (case snap_polling s of CacheWaiting \<Rightarrow> ''waiting'' | CacheInactive \<Rightarrow> ''inactive''
      | CacheActive \<Rightarrow> if snap_quality s = 1 then ''active'' else ''error'')"

text \<open>\<open>operator==\<close> on the variant: the same alternative and equal values; floats compare as numbers.\<close>

fun tag_value_eq :: "tag_value \<Rightarrow> tag_value \<Rightarrow> bool" where
  "tag_value_eq (VF32 a) (VF32 b) = deq (dbl_of_f32 a) (dbl_of_f32 b)"
| "tag_value_eq (VF64 a) (VF64 b) = deq (dbl_of_f64 a) (dbl_of_f64 b)"
| "tag_value_eq a b = (a = b)"

definition snapshot_values_equal :: "tag_snapshot \<Rightarrow> tag_snapshot \<Rightarrow> bool" where
  "snapshot_values_equal a b \<longleftrightarrow>
     list_all2 tag_value_eq (snap_array a) (snap_array b) \<and>
     snap_datatype a = snap_datatype b \<and> snap_connection a = snap_connection b \<and> snap_name a = snap_name b \<and>
     tag_value_eq (snap_value a) (snap_value b)"

definition snapshot_updates_equal :: "tag_snapshot \<Rightarrow> tag_snapshot \<Rightarrow> bool" where
  "snapshot_updates_equal a b \<longleftrightarrow>
     snap_quality a = snap_quality b \<and> snap_polling a = snap_polling b \<and> snapshot_values_equal a b"

definition should_log_tag_event_change :: "tag_snapshot \<Rightarrow> tag_snapshot option \<Rightarrow> bool" where
  "should_log_tag_event_change snap prev =
     (if snap_quality snap \<noteq> 1 then False
      else case prev of None \<Rightarrow> True
        | Some p \<Rightarrow> snap_quality p = 1 \<and> \<not> snapshot_values_equal snap p)"

section \<open>The gate of a cached value\<close>

definition apply_poll_cache_gate :: "time \<Rightarrow> driver_context \<Rightarrow> tag_snapshot \<Rightarrow> tag_snapshot" where
  "apply_poll_cache_gate now d s =
     (case poll_gates d (snap_name s) of None \<Rightarrow> s
      | Some g \<Rightarrow>
          if snap_quality s = 0 \<and> snap_polling s = CacheWaiting \<and> is_active g then s
          else (case gate_quality g (snap_poll_read s) (snap_quality s = 1) now of
              Good \<Rightarrow> s\<lparr>snap_polling := CacheActive\<rparr>
            | Bad \<Rightarrow> s\<lparr>snap_polling := CacheActive\<rparr>
            | Inactive \<Rightarrow> s\<lparr>snap_polling := CacheInactive, snap_quality := 0\<rparr>
            | Waiting \<Rightarrow> s\<lparr>snap_polling := CacheWaiting, snap_quality := 0\<rparr>))"

text \<open>\<open>poll\_gates[name]\<close> makes a new gate when there is none.\<close>

definition gate_of :: "driver_context \<Rightarrow> string \<Rightarrow> poll_read_gate" where
  "gate_of d name = (case poll_gates d name of None \<Rightarrow> new_gate | Some g \<Rightarrow> g)"

definition transition_poll_cache ::
    "time \<Rightarrow> time \<Rightarrow> driver_context \<Rightarrow> tag_runtime \<Rightarrow> tag_table \<Rightarrow> bool \<Rightarrow> bool \<Rightarrow> tag_snapshot \<times> driver_context \<times> tag_table" where
  "transition_poll_cache now wall d t table active restarted =
     (let name = logical_name (cfg t); g0 = gate_of d name; key = tag_key d t;
          with_gate = (\<lambda>g. d\<lparr>poll_gates := (poll_gates d)(name \<mapsto> g)\<rparr>)
      in case (if \<not> restarted \<and> is_active g0 = active then table key else None) of
           Some s \<Rightarrow> (s, with_gate g0, table)
         | None \<Rightarrow>
             let g1 = (if restarted then restart (freshness_epoch d) now g0 else g0);
                 g2 = (if active then resume now g1 else suspend g1);
                 s0 = (case table key of None \<Rightarrow> make_initial_snapshot_for_opcua wall (drv_conn d) t | Some s \<Rightarrow> s);
                 s1 = s0\<lparr>snap_quality := 0, snap_polling := (if active then CacheWaiting else CacheInactive)\<rparr>
             in (s1, with_gate g2, table(key \<mapsto> s1)))"

section \<open>Memory tags at start-up\<close>

definition seed_memory_tag_table :: "time \<Rightarrow> driver_context list \<Rightarrow> tag_table \<Rightarrow> tag_table" where
  "seed_memory_tag_table wall drivers table =
     foldl (\<lambda>m d. foldl (\<lambda>m t. if tag_enabled (cfg t) \<and> is_memory_tag (cfg t)
                                then m(tag_key d t \<mapsto> make_initial_snapshot_for_tag wall (drv_conn d) t 1) else m)
                        m (drv_tags d)) table drivers"

section \<open>Readback of a write\<close>

definition parent_of :: "tag_runtime \<Rightarrow> string" where
  "parent_of t = (if poll_source t = [] then source_tag (cfg t) else poll_source t)"

definition tag_names :: "tag_runtime list \<Rightarrow> string set" where
  "tag_names ts = set (map (\<lambda>t. logical_name (cfg t)) ts)"

definition find_tag :: "tag_runtime list \<Rightarrow> string \<Rightarrow> tag_runtime option" where
  "find_tag ts name = find (\<lambda>t. logical_name (cfg t) = name) ts"

lemma find_tag_Some: "find_tag ts name = Some t \<Longrightarrow> t \<in> set ts \<and> logical_name (cfg t) = name"
  by (auto simp: find_tag_def find_Some_iff)

lemma find_tag_names: "find_tag ts name = Some t \<Longrightarrow> name \<in> tag_names ts"
  by (auto simp: tag_names_def dest!: find_tag_Some)

lemma finite_tag_names [simp]: "finite (tag_names ts)"
  by (simp add: tag_names_def)

lemma trim_copy_length: "length (trim_copy s) \<le> length s"
  unfolding trim_copy_def using length_dropWhile_le le_trans by (metis length_rev)

lemma bit_source_shorter: "parse_bit_qualified_source_name name = Some (p, b) \<Longrightarrow> length p < length name"
proof -
  assume "parse_bit_qualified_source_name name = Some (p, b)"
  then have p: "p = rev (tl (dropWhile (\<lambda>c. c \<noteq> CHR ''.'') (rev (trim_copy name))))"
    and ne: "dropWhile (\<lambda>c. c \<noteq> CHR ''.'') (rev (trim_copy name)) \<noteq> []"
    by (auto simp: parse_bit_qualified_source_name_def Let_def split: if_splits sum.splits)
  have "length p < length (dropWhile (\<lambda>c. c \<noteq> CHR ''.'') (rev (trim_copy name)))" using ne by (simp add: p)
  also have "\<dots> \<le> length (trim_copy name)" by (metis length_dropWhile_le length_rev)
  also have "\<dots> \<le> length name" by (rule trim_copy_length)
  finally show ?thesis .
qed

text \<open>
  Up from the written tag to the tag that is polled. Every step either reaches a tag of the
  connection not seen before or drops the bit of a name that is no tag. \<open>None\<close>: such a name has
  no bit either, and the request ends.
\<close>

function find_root :: "tag_runtime list \<Rightarrow> string set \<Rightarrow> string \<Rightarrow> string option" where
  "find_root ts seen name =
     (if name \<in> seen then Some name
      else case find_tag ts name of
          None \<Rightarrow> (case parse_bit_qualified_source_name name of
              None \<Rightarrow> None | Some (p, b) \<Rightarrow> find_root ts (insert name seen) p)
        | Some t \<Rightarrow> if parent_of t = [] then Some name else find_root ts (insert name seen) (parent_of t))"
  by pat_completeness auto

lemma unseen_decreases:
  "finite S \<Longrightarrow> x \<in> S \<Longrightarrow> x \<notin> seen \<Longrightarrow> card (S - insert x seen) < card (S - seen)"
  by (rule psubset_card_mono) auto

termination find_root
proof (relation "measures [\<lambda>(ts, seen, name). card (tag_names ts - seen), \<lambda>(ts, seen, name). length name]", goal_cases)
  case (2 ts seen name x p b)
  have "name \<notin> tag_names ts"
    using 2(2) by (auto simp: find_tag_def find_None_iff tag_names_def)
  then have "tag_names ts - insert name seen = tag_names ts - seen" by auto
  then show ?case using bit_source_shorter [of name p b] 2 by simp
next
  case (3 ts seen name t)
  then show ?case using unseen_decreases [OF finite_tag_names find_tag_names [OF 3(2)]] by simp
qed simp

declare find_root.simps [simp del]

text \<open>One pass of the closure loop, and the loop: it ends when a pass adds nothing.\<close>

definition affected_pass :: "tag_runtime list \<Rightarrow> string set \<Rightarrow> string set" where
  "affected_pass ts A =
     foldl (\<lambda>A t. if parent_of t \<noteq> [] \<and> parent_of t \<in> A then insert (logical_name (cfg t)) A else A) A ts"

lemma affected_pass_mono: "A \<subseteq> affected_pass ts A"
  unfolding affected_pass_def by (induction ts arbitrary: A) (auto, blast)

lemma affected_pass_Cons:
  "affected_pass (t # ts) A =
     affected_pass ts (if parent_of t \<noteq> [] \<and> parent_of t \<in> A then insert (logical_name (cfg t)) A else A)"
  by (simp add: affected_pass_def)

lemma affected_pass_names: "affected_pass ts A \<subseteq> A \<union> tag_names ts"
proof (induction ts arbitrary: A)
  case (Cons t ts)
  then show ?case
    using Cons [of "if parent_of t \<noteq> [] \<and> parent_of t \<in> A then insert (logical_name (cfg t)) A else A"]
    by (auto simp: affected_pass_Cons tag_names_def split: if_splits)
qed (simp add: affected_pass_def)

function affected_closure :: "tag_runtime list \<Rightarrow> string set \<Rightarrow> string set" where
  "affected_closure ts A =
     (let A' = affected_pass ts A in if A' = A then A else affected_closure ts A')"
  by pat_completeness auto

termination affected_closure
proof (relation "measure (\<lambda>(ts, A). card (tag_names ts - A))", goal_cases)
  case (2 ts A B)
  then have "A \<subset> B" "B \<subseteq> A \<union> tag_names ts" using affected_pass_mono [of A ts] affected_pass_names [of ts A] by auto
  then have "tag_names ts - B \<subset> tag_names ts - A" by blast
  then show ?case by (simp add: psubset_card_mono)
qed simp

declare affected_closure.simps [simp del]

text \<open>The tags of the driver that are read again, each put to waiting.\<close>

definition needs_readback :: "string set \<Rightarrow> tag_runtime \<Rightarrow> bool" where
  "needs_readback affected t \<longleftrightarrow>
     logical_name (cfg t) \<in> affected \<and> tag_enabled (cfg t) \<and> \<not> is_memory_tag (cfg t) \<and>
     \<not> (1 < elem_count (cfg t) \<and> poll_source t = [])"

fun wake_tags ::
    "time \<Rightarrow> time \<Rightarrow> tag_runtime list \<Rightarrow> driver_context \<Rightarrow> tag_table \<Rightarrow> (tag_snapshot \<times> tag_config) list \<times> driver_context \<times> tag_table" where
  "wake_tags now wall [] d table = ([], d, table)"
| "wake_tags now wall (t # ts) d table =
     (case transition_poll_cache now wall d t table True True of (s, d1, table1) \<Rightarrow>
      case wake_tags now wall ts d1 table1 of (us, d2, table2) \<Rightarrow> ((s, cfg t) # us, d2, table2))"

record readback =
  rb_drivers :: "driver_context list"
  rb_table :: tag_table
  rb_demand :: tag_demand
  rb_updates :: "(tag_snapshot \<times> tag_config) list"

text \<open>Each update is sent to the WebSocket clients and, with a UA server, queued for publication.\<close>

fun request_write_readback ::
    "time \<Rightarrow> time \<Rightarrow> string \<Rightarrow> string \<Rightarrow> u64 \<Rightarrow> driver_context list \<Rightarrow> tag_table \<Rightarrow> tag_demand \<Rightarrow> readback" where
  "request_write_readback now wall cid name epoch [] table dem =
     \<lparr>rb_drivers = [], rb_table = table, rb_demand = dem, rb_updates = []\<rparr>"
| "request_write_readback now wall cid name epoch (d # ds) table dem =
     (if conn_id (drv_conn d) \<noteq> cid \<or> freshness_epoch d \<noteq> epoch then
        (let r = request_write_readback now wall cid name epoch ds table dem in r\<lparr>rb_drivers := d # rb_drivers r\<rparr>)
      else case find_root (drv_tags d) {} name of
          None \<Rightarrow> \<lparr>rb_drivers = d # ds, rb_table = table, rb_demand = dem, rb_updates = []\<rparr>
        | Some r \<Rightarrow>
            (case wake_tags now wall (filter (needs_readback (affected_closure (drv_tags d) {r})) (drv_tags d)) d table of
               (us, d', table') \<Rightarrow>
                 \<lparr>rb_drivers = d' # ds, rb_table = table', rb_demand = td_http_read (ua_tag_nodeid_string cid r) now dem,
                  rb_updates = us\<rparr>))"

section \<open>Publication\<close>

record ua_update =
  upd_conn :: string
  upd_name :: string
  upd_snapshot :: tag_snapshot
  upd_epoch :: u64

definition ua_publication_is_current :: "driver_context list \<Rightarrow> ua_update \<Rightarrow> bool" where
  "ua_publication_is_current ds u \<longleftrightarrow>
     upd_epoch u \<noteq> 0 \<and>
     (case find (\<lambda>d. conn_id (drv_conn d) = upd_conn u) ds of None \<Rightarrow> False | Some d \<Rightarrow> freshness_epoch d = upd_epoch u)"

datatype ua_status = UaGood | UaBadOutOfService | UaBadWaitingForInitialData | UaBadNoCommunication

definition ua_snapshot_status :: "time \<Rightarrow> bool \<Rightarrow> poll_read_gate \<Rightarrow> tag_snapshot \<Rightarrow> ua_status" where
  "ua_snapshot_status now physical g s =
     (if snap_polling s = CacheInactive then UaBadOutOfService
      else if snap_polling s = CacheWaiting then UaBadWaitingForInitialData
      else if \<not> physical then if snap_quality s = 1 then UaGood else UaBadNoCommunication
      else case gate_quality g (snap_poll_read s) (snap_quality s = 1) now of
          Good \<Rightarrow> UaGood | Bad \<Rightarrow> UaBadNoCommunication | Inactive \<Rightarrow> UaBadOutOfService | Waiting \<Rightarrow> UaBadWaitingForInitialData)"

section \<open>The affected tags are the descendants of the root\<close>

definition child_rel :: "tag_runtime list \<Rightarrow> (string \<times> string) set" where
  "child_rel ts = {(parent_of t, logical_name (cfg t)) |t. t \<in> set ts \<and> parent_of t \<noteq> []}"

lemma affected_pass_child:
  "t \<in> set ts \<Longrightarrow> parent_of t \<noteq> [] \<Longrightarrow> parent_of t \<in> A \<Longrightarrow> logical_name (cfg t) \<in> affected_pass ts A"
proof (induction ts arbitrary: A)
  case (Cons u ts)
  let ?B = "if parent_of u \<noteq> [] \<and> parent_of u \<in> A then insert (logical_name (cfg u)) A else A"
  show ?case
  proof (cases "t = u")
    case True
    then show ?thesis using Cons.prems affected_pass_mono [of ?B ts] by (auto simp: affected_pass_Cons)
  next
    case False
    then show ?thesis using Cons.IH [of ?B] Cons.prems by (auto simp: affected_pass_Cons)
  qed
qed simp

lemma reach_within: "X \<subseteq> R\<^sup>* `` A \<Longrightarrow> R\<^sup>* `` X \<subseteq> R\<^sup>* `` A"
  using rtrancl_trans [of _ _ R] by fast

lemma affected_pass_reach: "affected_pass ts A \<subseteq> (child_rel ts)\<^sup>* `` A"
proof -
  have "affected_pass us A \<subseteq> (child_rel ts)\<^sup>* `` A" if "set us \<subseteq> set ts" for us
    using that
  proof (induction us arbitrary: A)
    case (Cons u us)
    let ?B = "if parent_of u \<noteq> [] \<and> parent_of u \<in> A then insert (logical_name (cfg u)) A else A"
    have edge: "parent_of u \<noteq> [] \<Longrightarrow> (parent_of u, logical_name (cfg u)) \<in> (child_rel ts)\<^sup>*"
      using Cons.prems by (auto simp: child_rel_def)
    then have "?B \<subseteq> (child_rel ts)\<^sup>* `` A" by auto
    then have "(child_rel ts)\<^sup>* `` ?B \<subseteq> (child_rel ts)\<^sup>* `` A" by (rule reach_within)
    then show ?case using Cons.IH [of ?B] Cons.prems by (auto simp: affected_pass_Cons)
  qed (auto simp: affected_pass_def)
  then show ?thesis by blast
qed

lemma affected_closure_reach: "affected_closure ts A = (child_rel ts)\<^sup>* `` A"
proof (induction ts A rule: affected_closure.induct)
  case (1 ts A)
  show ?case
  proof (cases "affected_pass ts A = A")
    case True
    have closed: "y \<in> A" if "(x, y) \<in> (child_rel ts)\<^sup>*" "x \<in> A" for x y
      using that
    proof (induction rule: rtrancl_induct)
      case (step y z)
      then show ?case using affected_pass_child [of _ ts A] True by (auto simp: child_rel_def)
    qed
    then show ?thesis using True by (auto simp: affected_closure.simps [of ts A] Let_def)
  next
    case False
    have "(child_rel ts)\<^sup>* `` affected_pass ts A = (child_rel ts)\<^sup>* `` A"
      using affected_pass_mono [of A ts] reach_within [OF affected_pass_reach [of ts A]] by blast
    then show ?thesis using 1 False by (simp add: affected_closure.simps [of ts A] Let_def)
  qed
qed

section \<open>What waking the tags does\<close>

definition woken_gate :: "driver_context \<Rightarrow> time \<Rightarrow> poll_read_gate" where
  "woken_gate d now = \<lparr>gate_epoch = freshness_epoch d, gate_after = now, gate_active = True\<rparr>"

lemma restart_gate: "restart e now g = \<lparr>gate_epoch = e, gate_after = now, gate_active = True\<rparr>"
  by (cases g) (simp add: restart_def)

lemma transition_restart:
  "\<exists>s. transition_poll_cache now wall d t table True True =
     (s, d\<lparr>poll_gates := (poll_gates d)(logical_name (cfg t) \<mapsto> woken_gate d now)\<rparr>, table(tag_key d t \<mapsto> s)) \<and>
     snap_quality s = 0 \<and> snap_polling s = CacheWaiting"
  by (simp add: transition_poll_cache_def Let_def restart_gate resume_def woken_gate_def)

lemma wake_tags_outcome:
  assumes "wake_tags now wall ts d table = (us, d', table')"
  shows "(if name \<in> tag_names ts
     then poll_gates d' name = Some (woken_gate d now) \<and>
       (\<exists>s. table' (make_tag_key (conn_id (drv_conn d)) name) = Some s \<and> snap_quality s = 0 \<and> snap_polling s = CacheWaiting)
     else poll_gates d' name = poll_gates d name \<and>
       table' (make_tag_key (conn_id (drv_conn d)) name) = table (make_tag_key (conn_id (drv_conn d)) name))"
  using assms
proof (induction ts arbitrary: d table us)
  case (Cons t ts)
  obtain s where s: "transition_poll_cache now wall d t table True True =
      (s, d\<lparr>poll_gates := (poll_gates d)(logical_name (cfg t) \<mapsto> woken_gate d now)\<rparr>, table(tag_key d t \<mapsto> s))"
    and w: "snap_quality s = 0" "snap_polling s = CacheWaiting"
    using transition_restart by blast
  let ?d = "d\<lparr>poll_gates := (poll_gates d)(logical_name (cfg t) \<mapsto> woken_gate d now)\<rparr>"
  obtain vs where r: "wake_tags now wall ts ?d (table(tag_key d t \<mapsto> s)) = (vs, d', table')"
    using Cons.prems by (auto simp: s split: prod.splits)
  have g: "woken_gate ?d now = woken_gate d now" by (simp add: woken_gate_def)
  show ?case using Cons.IH [OF r] w unfolding g by (auto simp: tag_names_def tag_key_def make_tag_key_def split: if_splits)
qed (simp add: tag_names_def)

lemma request_of_driver:
  assumes "conn_id (drv_conn d) = cid" "find_root (drv_tags d) {} name = Some r"
  shows "\<exists>us d' table'. wake_tags now wall (filter (needs_readback ((child_rel (drv_tags d))\<^sup>* `` {r})) (drv_tags d)) d table = (us, d', table') \<and>
    request_write_readback now wall cid name (freshness_epoch d) (d # ds) table dem =
      \<lparr>rb_drivers = d' # ds, rb_table = table', rb_demand = td_http_read (ua_tag_nodeid_string cid r) now dem, rb_updates = us\<rparr>"
  using assms by (simp add: affected_closure_reach split: prod.splits)

text \<open>
  C12. A write to a tag discards what was read before it. From the tag that is polled for it, every
  scalar tag of the connection that descends from that tag, is enabled and is not a memory tag is
  left in the cache as waiting with bad quality, and from then on its gate lets a sample through as
  good exactly when its read belongs to the connection's current epoch and began at or after the
  write: a value read before the write never shows as good again.
\<close>

theorem write_discards_earlier_reads:
  assumes "conn_id (drv_conn d) = cid" and "find_root (drv_tags d) {} name = Some r"
    and "t \<in> set (drv_tags d)" "(r, logical_name (cfg t)) \<in> (child_rel (drv_tags d))\<^sup>*"
    and "tag_enabled (cfg t)" "\<not> is_memory_tag (cfg t)" "elem_count (cfg t) \<le> 1 \<or> poll_source t \<noteq> []"
    and "q = request_write_readback now wall cid name (freshness_epoch d) (d # ds) table dem"
    and "snap_name s = logical_name (cfg t)" "snap_quality s = 1"
  shows "(\<exists>c. rb_table q (tag_key d t) = Some c \<and> snap_quality c = 0 \<and> snap_polling c = CacheWaiting) \<and>
    (snap_quality (apply_poll_cache_gate later (hd (rb_drivers q)) s) = 1 \<longleftrightarrow>
       satisfies_age (snap_poll_read s) now (DFin 0) True later (freshness_epoch d)) \<and>
    (started (snap_poll_read s) < now \<longrightarrow> snap_quality (apply_poll_cache_gate later (hd (rb_drivers q)) s) = 0)"
proof -
  let ?ts = "filter (needs_readback ((child_rel (drv_tags d))\<^sup>* `` {r})) (drv_tags d)"
  obtain us d' table' where w: "wake_tags now wall ?ts d table = (us, d', table')"
    and q: "q = \<lparr>rb_drivers = d' # ds, rb_table = table', rb_demand = td_http_read (ua_tag_nodeid_string cid r) now dem, rb_updates = us\<rparr>"
    using request_of_driver [OF assms(1,2)] assms(8) by blast
  have "logical_name (cfg t) \<in> tag_names ?ts"
    using assms(3-7) by (auto simp: tag_names_def needs_readback_def)
  then have g: "poll_gates d' (logical_name (cfg t)) = Some (woken_gate d now)"
    and c: "\<exists>c. table' (tag_key d t) = Some c \<and> snap_quality c = 0 \<and> snap_polling c = CacheWaiting"
    using wake_tags_outcome [OF w, of "logical_name (cfg t)"] by (simp_all add: tag_key_def)
  have "snap_quality (apply_poll_cache_gate later d' s) =
      (if satisfies_age (snap_poll_read s) now (DFin 0) True later (freshness_epoch d) then 1 else 0)"
    using g assms(9,10) by (simp add: apply_poll_cache_gate_def gate_quality_def woken_gate_def)
  then show ?thesis using c by (simp add: q satisfies_age_zero)
qed

definition sample_driver :: driver_context where
  "sample_driver = \<lparr>freshness_epoch = 4, poll_gates = Map.empty,
     drv_conn = new_connection_config\<lparr>conn_id := ''plc1'', conn_driver := ''ab_eip''\<rparr>,
     drv_tags = [(new_tag_runtime (- 1))\<lparr>cfg := new_tag_config\<lparr>logical_name := ''Value'', datatype_name := ''int32''\<rparr>\<rparr>,
       (new_tag_runtime (- 1))\<lparr>cfg := new_tag_config\<lparr>logical_name := ''Alias'', datatype_name := ''int32'', source_tag := ''Value''\<rparr>\<rparr>]\<rparr>"

theorem write_discards_earlier_reads_witness:
  "snap_quality (apply_poll_cache_gate 90
     (hd (rb_drivers (request_write_readback 50 7 ''plc1'' ''Alias.3'' 4 [sample_driver] Map.empty new_tag_demand)))
     (new_snapshot\<lparr>snap_name := ''Alias'', snap_quality := 1,
        snap_poll_read := \<lparr>started = 49, completed_at = 60, source_epoch = 4\<rparr>\<rparr>)) = 0"
proof -
  define s where "s = new_snapshot\<lparr>snap_name := ''Alias'', snap_quality := 1,
        snap_poll_read := \<lparr>started = 49, completed_at = 60, source_epoch = 4\<rparr>\<rparr>"
  define a where "a = drv_tags sample_driver ! 1"
  have r: "find_root (drv_tags sample_driver) {} ''Alias.3'' = Some ''Value''" by code_simp
  have a: "a \<in> set (drv_tags sample_driver)" "logical_name (cfg a) = ''Alias''" "tag_enabled (cfg a)" "\<not> is_memory_tag (cfg a)"
    "elem_count (cfg a) \<le> 1 \<or> poll_source a \<noteq> []" "parent_of a = ''Value''" "conn_id (drv_conn sample_driver) = ''plc1''"
    "freshness_epoch sample_driver = 4"
    unfolding a_def by code_simp+
  then have "(''Value'', logical_name (cfg a)) \<in> (child_rel (drv_tags sample_driver))\<^sup>*"
    unfolding child_rel_def by (intro r_into_rtrancl CollectI exI [of _ a]) simp
  from write_discards_earlier_reads [OF a(7) r a(1) this a(3-5) refl, where s = s and later = 90 and now = 50 and wall = 7
      and ds = "[]" and table = Map.empty and dem = new_tag_demand] a(2,8)
  show ?thesis by (simp add: s_def)
qed

end
