(* ===== verification/FreshInput.thy ===== *)
theory FreshInput
  imports PollCache
begin

text \<open>
  Whether an input is fresh enough to act on, and what a connection is polling (opcbridge/main.cpp):
  \<open>check\_fresh\_input\<close>, which follows a tag to its physical source, and the counts of
  \<open>polling\_activity\_summary\<close>. The index maps \<open>connection:name\<close> to the places of the driver and of the tag
  in it.
\<close>

section \<open>The chain to the physical source\<close>

type_synonym runtime_index = "string \<rightharpoonup> nat \<times> nat"

record fresh_check =
  chk_reason :: string
  chk_datatype :: string
  chk_connection_name :: string
  chk_writable :: bool
  chk_sample :: tag_snapshot

definition new_fresh_check :: fresh_check where
  "new_fresh_check = \<lparr>chk_reason = ''waiting'', chk_datatype = [], chk_connection_name = [], chk_writable = False,
     chk_sample = new_snapshot\<rparr>"

text \<open>The names visited so far are the dependencies collected so far. At most 64 are followed.\<close>

function source_chain ::
    "driver_context \<Rightarrow> nat \<Rightarrow> runtime_index \<Rightarrow> string \<Rightarrow> string list \<Rightarrow> bool \<Rightarrow> tag_runtime \<Rightarrow> string + string list" where
  "source_chain d di index cid deps throughElement source =
     (let name = logical_name (cfg source); deps' = deps @ [name]; parent = parent_of source in
      if \<not> tag_enabled (cfg source) then Inl ''source_unavailable''
      else if name \<in> set deps then Inl ''source_cycle''
      else if 64 < length deps' then Inl ''dependency_too_deep''
      else if conn_driver (drv_conn d) \<noteq> ''ab_eip'' \<or> is_memory_connection_id (conn_id (drv_conn d)) \<or> is_memory_tag (cfg source)
        then Inl ''unsupported_source''
      else if parent = [] then
        (if 1 < elem_count (cfg source) \<and> \<not> throughElement then Inl ''unsupported_source'' else Inr deps')
      else case index (make_tag_key cid parent) of
          None \<Rightarrow> Inl ''source_unavailable''
        | Some (pd, pt) \<Rightarrow>
            if pd \<noteq> di \<or> length (drv_tags d) \<le> pt then Inl ''source_unavailable''
            else source_chain d di index cid deps' (throughElement \<or> poll_source source \<noteq> []) (drv_tags d ! pt))"
  by pat_completeness auto

termination source_chain
  by (relation "measure (\<lambda>(d, di, index, cid, deps, through, source). 64 - length deps)") auto

declare source_chain.simps [simp del]

definition check_fresh_input ::
    "time \<Rightarrow> driver_context list \<Rightarrow> tag_table \<Rightarrow> runtime_index \<Rightarrow> string \<Rightarrow> string \<Rightarrow> time \<Rightarrow> dbl \<Rightarrow> bool \<Rightarrow> tag_demand \<Rightarrow>
     fresh_check \<times> tag_demand" where
  "check_fresh_input now drivers table index cid name requested maxAge nativeMemory dem =
     (case index (make_tag_key cid name) of
        None \<Rightarrow> (new_fresh_check\<lparr>chk_reason := ''not_found''\<rparr>, dem)
      | Some (di, ti) \<Rightarrow>
          if length drivers \<le> di \<or> length (drv_tags (drivers ! di)) \<le> ti
          then (new_fresh_check\<lparr>chk_reason := ''not_found''\<rparr>, dem)
          else
            let d = drivers ! di; tg = drv_tags d ! ti;
                r = new_fresh_check\<lparr>
                  chk_datatype := (if out_datatype tg = [] then datatype_name (cfg tg) else out_datatype tg),
                  chk_writable := tag_writable (cfg tg), chk_connection_name := conn_name (drv_conn d)\<rparr>;
                memory = (nativeMemory \<and> is_memory_tag (cfg tg))
            in if \<not> tag_enabled (cfg tg) then (r\<lparr>chk_reason := ''disabled''\<rparr>, dem)
               else case (if memory then Inr [] else source_chain d di index cid [] False tg) of
                   Inl why \<Rightarrow> (r\<lparr>chk_reason := why\<rparr>, dem)
                 | Inr deps \<Rightarrow>
                     let dem' = foldl (\<lambda>m dep. td_http_read (ua_tag_nodeid_string cid dep) now m) dem deps in
                     (case table (make_tag_key cid name) of None \<Rightarrow> (r, dem')
                      | Some c \<Rightarrow>
                          if snap_quality c = 1 \<and>
                            (memory \<or> satisfies_age (snap_poll_read c) requested maxAge True now (freshness_epoch d))
                          then (r\<lparr>chk_reason := ''fresh'', chk_sample := c\<rparr>, dem') else (r, dem')))"

section \<open>What polling is doing\<close>

record array_state =
  array_inactive :: "string \<rightharpoonup> bool"
  array_samples :: "string \<rightharpoonup> tag_snapshot"
  array_unavailable :: "string set"

definition note_element :: "driver_context \<Rightarrow> tag_table \<Rightarrow> array_state \<Rightarrow> tag_runtime \<Rightarrow> array_state" where
  "note_element d table st e =
     (if \<not> tag_enabled (cfg e) \<or> poll_source e = [] then st
      else
        let src = poll_source e; sample = table (tag_key d e);
            before = (case array_inactive st src of None \<Rightarrow> True | Some b \<Rightarrow> b);
            inactive = (case sample of None \<Rightarrow> False | Some s \<Rightarrow> snap_polling s = CacheInactive);
            st1 = st\<lparr>array_inactive := (array_inactive st)(src \<mapsto> before \<and> inactive)\<rparr>
        in case sample of
             None \<Rightarrow> st1\<lparr>array_unavailable := insert src (array_unavailable st1)\<rparr>
           | Some s \<Rightarrow>
               if snap_quality s \<noteq> 1 then st1\<lparr>array_unavailable := insert src (array_unavailable st1)\<rparr>
               else st1\<lparr>array_samples := (array_samples st1)(src \<mapsto> s)\<rparr>)"

definition array_states :: "driver_context \<Rightarrow> tag_table \<Rightarrow> array_state" where
  "array_states d table =
     foldl (note_element d table) \<lparr>array_inactive = Map.empty, array_samples = Map.empty, array_unavailable = {}\<rparr> (drv_tags d)"

record polling_activity =
  act_enabled :: nat
  act_inactive :: nat
  act_waiting :: nat
  configured_work :: nat
  active_work :: nat
  inactive_work :: nat
  oldest_active_ms :: int
  active_without_sample :: nat

definition no_activity :: polling_activity where
  "no_activity = \<lparr>act_enabled = 0, act_inactive = 0, act_waiting = 0, configured_work = 0, active_work = 0, inactive_work = 0,
     oldest_active_ms = - 1, active_without_sample = 0\<rparr>"

definition idle :: "polling_activity \<Rightarrow> bool" where
  "idle a \<longleftrightarrow> 0 < configured_work a \<and> inactive_work a = configured_work a \<and> act_waiting a = 0"

definition is_array_root :: "tag_runtime \<Rightarrow> bool" where
  "is_array_root t \<longleftrightarrow> 1 < elem_count (cfg t) \<and> source_tag (cfg t) = [] \<and> poll_source t = []"

definition tag_is_inactive :: "driver_context \<Rightarrow> tag_table \<Rightarrow> array_state \<Rightarrow> tag_runtime \<Rightarrow> bool" where
  "tag_is_inactive d table arrays t =
     (if is_array_root t then array_inactive arrays (logical_name (cfg t)) = Some True
      else case table (tag_key d t) of None \<Rightarrow> False | Some s \<Rightarrow> snap_polling s = CacheInactive)"

definition is_poll_work :: "tag_runtime \<Rightarrow> bool" where
  "is_poll_work t \<longleftrightarrow>
     \<not> is_memory_tag (cfg t) \<and> source_tag (cfg t) = [] \<and> poll_source t = [] \<and> (0 \<le> handle t \<or> handle_deferred t)"

text \<open>The sample whose age counts for a tag: an array's only when none of its elements is missing.\<close>

definition work_sample :: "driver_context \<Rightarrow> tag_table \<Rightarrow> array_state \<Rightarrow> tag_runtime \<Rightarrow> tag_snapshot option" where
  "work_sample d table arrays t =
     (if is_array_root t then
        (if logical_name (cfg t) \<in> array_unavailable arrays then None else array_samples arrays (logical_name (cfg t)))
      else table (tag_key d t))"

definition note_sample_age :: "time \<Rightarrow> driver_context \<Rightarrow> tag_snapshot option \<Rightarrow> polling_activity \<Rightarrow> polling_activity" where
  "note_sample_age now d sample a =
     (case sample of
        Some s \<Rightarrow>
          if snap_quality s = 1 \<and> source_epoch (snap_poll_read s) = freshness_epoch d \<and>
             completed_at (snap_poll_read s) \<noteq> no_time \<and> completed_at (snap_poll_read s) \<le> now
          then a\<lparr>oldest_active_ms := max (oldest_active_ms a) ((now - completed_at (snap_poll_read s)) div millis 1)\<rparr>
          else a\<lparr>active_without_sample := active_without_sample a + 1\<rparr>
      | None \<Rightarrow> a\<lparr>active_without_sample := active_without_sample a + 1\<rparr>)"

definition count_logical :: "driver_context \<Rightarrow> tag_table \<Rightarrow> tag_runtime \<Rightarrow> polling_activity \<Rightarrow> polling_activity" where
  "count_logical d table t a =
     (let polling = map_option snap_polling (table (tag_key d t))
      in a\<lparr>act_enabled := act_enabled a + 1,
           act_inactive := act_inactive a + (if polling = Some CacheInactive then 1 else 0),
           act_waiting := act_waiting a + (if polling = Some CacheWaiting then 1 else 0)\<rparr>)"

definition count_work :: "time \<Rightarrow> driver_context \<Rightarrow> tag_table \<Rightarrow> array_state \<Rightarrow> tag_runtime \<Rightarrow> polling_activity \<Rightarrow> polling_activity" where
  "count_work now d table arrays t a =
     (let a1 = a\<lparr>configured_work := configured_work a + 1\<rparr> in
      if tag_is_inactive d table arrays t then a1\<lparr>inactive_work := inactive_work a1 + 1\<rparr>
      else note_sample_age now d (work_sample d table arrays t) (a1\<lparr>active_work := active_work a1 + 1\<rparr>))"

text \<open>One reading of the clock stands for those of the loop.\<close>

definition count_tag :: "time \<Rightarrow> driver_context \<Rightarrow> tag_table \<Rightarrow> array_state \<Rightarrow> polling_activity \<Rightarrow> tag_runtime \<Rightarrow> polling_activity" where
  "count_tag now d table arrays a t =
     (if \<not> tag_enabled (cfg t) then a
      else
        let a1 = (if is_array_root t then a else count_logical d table t a)
        in if is_poll_work t then count_work now d table arrays t a1 else a1)"

definition polling_activity_summary :: "time \<Rightarrow> driver_context \<Rightarrow> tag_table \<Rightarrow> polling_activity" where
  "polling_activity_summary now d table = foldl (count_tag now d table (array_states d table)) no_activity (drv_tags d)"

definition add_polling_activity_json :: "polling_activity \<Rightarrow> json \<Rightarrow> json" where
  "add_polling_activity_json a value =
     foldl (\<lambda>j (k, v). jset k v j) value
       ([(''polling_activity'', JStr (if idle a then ''idle'' else if act_waiting a \<noteq> 0 then ''waiting'' else ''active'')),
         (''enabled_logical_tags'', JInt (int (act_enabled a))), (''inactive_tags'', JInt (int (act_inactive a))),
         (''waiting_tags'', JInt (int (act_waiting a))), (''configured_poll_work'', JInt (int (configured_work a))),
         (''active_poll_work'', JInt (int (active_work a))), (''inactive_poll_work'', JInt (int (inactive_work a))),
         (''oldest_active_sample_age_ms'',
            if active_without_sample a \<noteq> 0 \<or> oldest_active_ms a < 0 then JNull else JInt (oldest_active_ms a)),
         (''active_without_sample'', JInt (int (active_without_sample a))), (''sweep_scope'', JStr ''demand_driven''),
         (''full_sweep_available'', JBool False)] @
        map (\<lambda>k. (k, JNull)) [''expected_sweep_ms'', ''sweep_ms_last'', ''sweep_ms_avg_10s'', ''sweep_ms_avg_60s'',
          ''poll_progress_pct'', ''poll_cursor''])"

section \<open>Every link of a fresh chain is physical\<close>

definition physical_link :: "driver_context \<Rightarrow> string \<Rightarrow> bool" where
  "physical_link d name \<longleftrightarrow>
     conn_driver (drv_conn d) = ''ab_eip'' \<and> \<not> is_memory_connection_id (conn_id (drv_conn d)) \<and>
     (\<exists>t \<in> set (drv_tags d). logical_name (cfg t) = name \<and> tag_enabled (cfg t) \<and> \<not> is_memory_tag (cfg t))"

lemma source_chain_links:
  "source_chain d di index cid deps through source = Inr chain \<Longrightarrow> source \<in> set (drv_tags d) \<Longrightarrow>
     list_all (physical_link d) deps \<Longrightarrow> distinct deps \<Longrightarrow>
     list_all (physical_link d) chain \<and> distinct chain \<and> length chain \<le> 64 \<and>
     insert (logical_name (cfg source)) (set deps) \<subseteq> set chain"
proof (induction "64 - length deps" arbitrary: deps through source rule: less_induct)
  case less
  let ?deps' = "deps @ [logical_name (cfg source)]"
  note unfolded = less.prems(1) [unfolded source_chain.simps [of d di index cid deps through source] Let_def]
  have ok: "list_all (physical_link d) ?deps'" "distinct ?deps'" "length ?deps' \<le> 64"
    using unfolded less.prems(2-) by (auto simp: physical_link_def split: if_splits option.splits prod.splits)
  show ?case
  proof (cases "parent_of source = []")
    case True
    then have "chain = ?deps'" using unfolded by (simp split: if_splits)
    then show ?thesis using ok by auto
  next
    case False
    then obtain pt where p: "pt < length (drv_tags d)"
      and step: "source_chain d di index cid ?deps' (through \<or> poll_source source \<noteq> []) (drv_tags d ! pt) = Inr chain"
      using unfolded by (auto simp: not_le split: if_splits option.splits prod.splits)
    have "64 - length ?deps' < 64 - length deps" using ok(3) by simp
    from less.hyps [OF this step] ok p show ?thesis by auto
  qed
qed

lemma source_chain_reasons: "source_chain d di index cid deps through source = Inl why \<Longrightarrow> why \<noteq> ''fresh''"
proof (induction "64 - length deps" arbitrary: deps through source rule: less_induct)
  case less
  note unfolded = less.prems [unfolded source_chain.simps [of d di index cid deps through source] Let_def]
  show ?case
  proof (rule ccontr)
    assume "\<not> why \<noteq> ''fresh''"
    then obtain pt where "length deps < 64"
      and step: "source_chain d di index cid (deps @ [logical_name (cfg source)]) (through \<or> poll_source source \<noteq> []) (drv_tags d ! pt) = Inl why"
      using unfolded by (auto simp: not_le not_less split: if_splits option.splits prod.splits)
    then have "64 - length (deps @ [logical_name (cfg source)]) < 64 - length deps" by simp
    from less.hyps [OF this step] show False using \<open>\<not> why \<noteq> ''fresh''\<close> by simp
  qed
qed



section \<open>The counts agree\<close>

definition activity_ok :: "polling_activity \<Rightarrow> bool" where
  "activity_ok a \<longleftrightarrow> active_work a + inactive_work a = configured_work a \<and> act_inactive a + act_waiting a \<le> act_enabled a \<and>
     active_without_sample a \<le> active_work a \<and> - 1 \<le> oldest_active_ms a"

lemma note_sample_age_ok:
  "activity_ok a \<Longrightarrow> active_without_sample a < active_work a \<Longrightarrow> activity_ok (note_sample_age now d sample a)"
  by (auto simp: activity_ok_def note_sample_age_def split: option.splits)

lemma count_tag_ok: "activity_ok a \<Longrightarrow> activity_ok (count_tag now d table arrays a t)"
proof -
  assume a: "activity_ok a"
  have l: "activity_ok (count_logical d table t a)"
    using a by (auto simp: activity_ok_def count_logical_def Let_def)
  have w: "activity_ok (count_work now d table arrays t b)" if "activity_ok b" for b
  proof (cases "tag_is_inactive d table arrays t")
    case True
    then show ?thesis using that by (simp add: activity_ok_def count_work_def)
  next
    case False
    have "activity_ok (b\<lparr>configured_work := configured_work b + 1, active_work := active_work b + 1\<rparr>)"
      using that by (simp add: activity_ok_def)
    moreover have "active_without_sample b < active_work b + 1" using that by (simp add: activity_ok_def)
    ultimately show ?thesis using False note_sample_age_ok
      [of "b\<lparr>configured_work := configured_work b + 1, active_work := active_work b + 1\<rparr>"]
      by (simp add: count_work_def Let_def)
  qed
  show ?thesis using a l w by (simp add: count_tag_def Let_def)
qed

theorem polling_counts_agree:
  "active_work (polling_activity_summary now d table) + inactive_work (polling_activity_summary now d table) =
     configured_work (polling_activity_summary now d table)"
  "act_inactive (polling_activity_summary now d table) + act_waiting (polling_activity_summary now d table) \<le>
     act_enabled (polling_activity_summary now d table)"
  "active_without_sample (polling_activity_summary now d table) \<le> active_work (polling_activity_summary now d table)"
proof -
  have "activity_ok (foldl (count_tag now d table arrays) a ts)" if "activity_ok a" for arrays a ts
    using that by (induction ts arbitrary: a) (simp_all add: count_tag_ok)
  moreover have "activity_ok no_activity" by (simp add: activity_ok_def no_activity_def)
  ultimately have "activity_ok (polling_activity_summary now d table)" by (simp add: polling_activity_summary_def)
  then show "active_work (polling_activity_summary now d table) + inactive_work (polling_activity_summary now d table) =
     configured_work (polling_activity_summary now d table)"
    "act_inactive (polling_activity_summary now d table) + act_waiting (polling_activity_summary now d table) \<le>
     act_enabled (polling_activity_summary now d table)"
    "active_without_sample (polling_activity_summary now d table) \<le> active_work (polling_activity_summary now d table)"
    by (simp_all add: activity_ok_def)
qed

end
