(* ===== verification/WriteTag.thy ===== *)
theory WriteTag
  imports PollCache
begin

text \<open>
  \<open>write\_tag\_by\_name\<close> (opcbridge/main.cpp): a value given as text is written to a tag of any kind, a
  derived alias by writing its source, a memory tag in the table, an MQTT topic, a remote OPC UA node,
  an element of a PLC array, one bit of a PLC word, or a scalar PLC tag. The whole call runs as
  one sequence of steps on the state; the locks it takes are not part of the model. libplctag,
  the OPC UA client and the JSON text of an array are arguments.
\<close>

section \<open>Outside calls and the state\<close>

text \<open>\<open>io\_statuses\<close> lists what \<open>plc\_tag\_status\<close> returns from one poll to the next up to the deadline.\<close>

record 'b plc_io =
  io_plc :: "'b plc"
  io_not_found :: int
  io_pending :: int
  io_create :: "string \<Rightarrow> int \<Rightarrow> 'b \<Rightarrow> int \<times> 'b"
  io_destroy :: "int \<Rightarrow> 'b \<Rightarrow> 'b"
  io_statuses :: "int \<Rightarrow> int \<Rightarrow> 'b \<Rightarrow> int list"
  io_read :: "int \<Rightarrow> int \<Rightarrow> 'b \<Rightarrow> int \<times> 'b"
  io_write :: "int \<Rightarrow> int \<Rightarrow> 'b \<Rightarrow> int \<times> 'b"

record 'b env =
  e_io :: "'b plc_io"
  e_now :: time
  e_exit :: time
  e_wall :: time
  e_publication_topics :: "string \<rightharpoonup> string list"
  e_known_mqtt :: "string set"
  e_mqtt_inputs :: "string list"
  e_remote_write :: "connection_config \<Rightarrow> string \<Rightarrow> tag_value \<Rightarrow> string option"
  e_array_text :: "tag_value list \<Rightarrow> string"

record event_row =
  ev_conn :: string
  ev_tag :: string
  ev_old :: string
  ev_new :: string
  ev_old_quality :: int
  ev_new_quality :: int
  ev_ms :: int
  ev_source :: string

record 'b world =
  w_drivers :: "driver_context list"
  w_table :: tag_table
  w_demand :: tag_demand
  w_updates :: "(tag_snapshot \<times> tag_config) list"
  w_plc :: 'b
  w_groups :: "string \<rightharpoonup> int"
  w_next_group :: int
  w_published :: "(string \<times> string \<times> string) list"
  w_events :: "event_row list"

datatype write_failure =
    NotFound
  | ConfigurationChanged
  | NotWritable
  | AliasInvalidSource | AliasSourceNotFound | AliasSourceNotWritable
  | AliasParseFailed | AliasCastFailed string | AliasWriteFailed write_failure
  | ValueNotParsed | RemoteNotParsed | RemoteFailed string
  | ParentNotWritable | UnsupportedSize
  | HandleNotReady string | ReadFailed int | ScalingNotNumeric | ScaledNotParsed | ScaledCastFailed string
  | SetFailed write_error | PlcWriteFailed int
  | BitNotBool | BitIndexInvalid int | BitNotParsed
  | BitSourceNotFound | BitSourceNotWritable | BitSourceNoName | BitSourceIsArray | BitSourceOutside
  | BitOutOfRange int int | VerifyReadFailed int | VerifyMismatch bool

text \<open>\<open>None\<close>: the write succeeded. \<open>UnsupportedSize\<close> is \<open>datatype\_size\_bytes\<close> throwing, which no loaded tag
  makes it do; where the code lets the exception pass, the call ends with it too.\<close>

type_synonym outcome = "write_failure option"

section \<open>MQTT names\<close>

definition mqtt_is_subscription_tag_name :: "string \<Rightarrow> bool" where
  "mqtt_is_subscription_tag_name name \<longleftrightarrow> 11 \<le> length name \<and> drop (length name - 11) name = ''/RawPayload''"

definition mqtt_name_matches_topic_scope :: "string \<Rightarrow> string \<Rightarrow> bool" where
  "mqtt_name_matches_topic_scope name topic \<longleftrightarrow>
     name = topic \<or> (length topic < length name \<and> take (length topic) name = topic \<and> name ! length topic = CHR ''/'')"

definition mqtt_name_matches_any_topic_scope :: "string \<Rightarrow> string list \<Rightarrow> bool" where
  "mqtt_name_matches_any_topic_scope name topics \<longleftrightarrow>
     list_ex (\<lambda>t. t \<noteq> [] \<and> mqtt_name_matches_topic_scope name t) topics"

definition mqtt_connection_known_from_inputs :: "'b env \<Rightarrow> string \<Rightarrow> bool" where
  "mqtt_connection_known_from_inputs e cid \<longleftrightarrow> cid \<in> set (e_mqtt_inputs e)"

section \<open>Connection strings and handles\<close>

definition transport_group :: "string \<Rightarrow> 'b world \<Rightarrow> int \<times> 'b world" where
  "transport_group cid w =
     (let g = (case w_groups w cid of None \<Rightarrow> 0 | Some g \<Rightarrow> g) in
      if g = 0 then (w_next_group w, w\<lparr>w_groups := (w_groups w)(cid \<mapsto> w_next_group w), w_next_group := w_next_group w + 1\<rparr>)
      else (g, w))"

definition build_base_conn_str :: "connection_config \<Rightarrow> string \<Rightarrow> 'b world \<Rightarrow> string \<times> 'b world" where
  "build_base_conn_str c pathOverride w =
     (let modbus = is_modbus_connection c;
          (group_text, w') = (if modbus then (case transport_group (conn_id c) w of
              (g, w1) \<Rightarrow> (''&connection_group_id='' @ show_int g, w1)) else ([], w));
          effectivePath = (if trim_copy pathOverride = [] then conn_path c else trim_copy pathOverride)
      in ((if modbus then ''protocol=modbus_tcp'' else ''protocol=ab_eip'') @ group_text @
          ''&gateway='' @ conn_gateway c @ ''&path='' @ effectivePath @
          (if modbus then [] else ''&cpu='' @ conn_plc_type c) @
          (if 0 < conn_debug c then ''&debug='' @ show_int (conn_debug c) else []), w'))"

text \<open>\<open>None\<close> is the exception for an unsupported data type.\<close>

definition build_tag_conn_str :: "connection_config \<Rightarrow> tag_config \<Rightarrow> 'b world \<Rightarrow> string option \<times> 'b world" where
  "build_tag_conn_str c t w =
     (case build_base_conn_str c (tag_path t) w of (s, w') \<Rightarrow>
        let modbus = is_modbus_connection c;
            count = (if modbus then max 1 (elem_count t) * modbus_register_span_for_datatype (datatype_name t)
                     else max 1 (elem_count t));
            size_text = (if modbus \<or> datatype_name t = ''string'' then Some []
                         else map_option (\<lambda>n. ''&elem_size='' @ show_int n) (datatype_size (datatype_name t)))
        in (map_option (\<lambda>st. s @ ''&name='' @ plc_tag_name t @ st @ ''&elem_count='' @ show_int count) size_text, w'))"

fun wait_statuses :: "'b plc_io \<Rightarrow> int list \<Rightarrow> string option" where
  "wait_statuses io [] = Some ''timeout''"
| "wait_statuses io (s # ss) =
     (if s = p_ok (io_plc io) then None
      else if s \<noteq> io_pending io then Some ''tag status''
      else wait_statuses io ss)"

text \<open>What is wrong with the handle, if anything.\<close>

definition wait_for_tag_ready :: "'b plc_io \<Rightarrow> int \<Rightarrow> int \<Rightarrow> 'b \<Rightarrow> string option" where
  "wait_for_tag_ready io h timeout b =
     (if h < 0 then Some ''plc_tag_create failed'' else wait_statuses io (io_statuses io h timeout b))"

definition with_plc :: "('b \<Rightarrow> 'r \<times> 'b) \<Rightarrow> 'b world \<Rightarrow> 'r \<times> 'b world" where
  "with_plc f w = (case f (w_plc w) of (r, b) \<Rightarrow> (r, w\<lparr>w_plc := b\<rparr>))"

definition release :: "'b plc_io \<Rightarrow> bool \<Rightarrow> int \<Rightarrow> 'b world \<Rightarrow> 'b world" where
  "release io owned h w = (if owned \<and> 0 \<le> h then w\<lparr>w_plc := io_destroy io h (w_plc w)\<rparr> else w)"

text \<open>A temporary handle: created and ready, or destroyed again.\<close>

definition open_handle :: "'b plc_io \<Rightarrow> connection_config \<Rightarrow> tag_config \<Rightarrow> 'b world \<Rightarrow> (write_failure + int) \<times> 'b world" where
  "open_handle io c t w =
     (case build_tag_conn_str c t w of
        (None, w1) \<Rightarrow> (Inl UnsupportedSize, w1)
      | (Some s, w1) \<Rightarrow>
          (case with_plc (io_create io s (default_timeout_ms c)) w1 of (h, w2) \<Rightarrow>
             (case wait_for_tag_ready io h (default_timeout_ms c) (w_plc w2) of
                Some why \<Rightarrow> (Inl (HandleNotReady why), release io True h w2)
              | None \<Rightarrow> (Inr h, w2))))"

section \<open>Values and records\<close>

fun tag_value_to_string :: "tag_value \<Rightarrow> string" where
  "tag_value_to_string (VBool b) = (if b then ''1'' else ''0'')"
| "tag_value_to_string (VI16 w) = show_int (sint w)"
| "tag_value_to_string (VI32 w) = show_int (sint w)"
| "tag_value_to_string (VU16 w) = show_int (uint w)"
| "tag_value_to_string (VU32 w) = show_int (uint w)"
| "tag_value_to_string (VF32 w) = show_g6 (dbl_of_f32 w)"
| "tag_value_to_string (VF64 w) = show_g6 (dbl_of_f64 w)"
| "tag_value_to_string (VStr s) = s"

definition snapshot_value_to_string :: "'b env \<Rightarrow> tag_snapshot \<Rightarrow> string" where
  "snapshot_value_to_string e s =
     (if snap_array s \<noteq> [] then e_array_text e (snap_array s) else tag_value_to_string (snap_value s))"

definition fresh_snapshot :: "'b env \<Rightarrow> string \<Rightarrow> string \<Rightarrow> string \<Rightarrow> tag_value \<Rightarrow> tag_snapshot" where
  "fresh_snapshot e cid name dt v =
     new_snapshot\<lparr>snap_connection := cid, snap_name := name, snap_datatype := dt, snap_time := e_wall e,
       snap_quality := 1, snap_value := v\<rparr>"

definition publish :: "bool \<Rightarrow> string \<Rightarrow> tag_snapshot \<Rightarrow> 'b world \<Rightarrow> 'b world" where
  "publish physical key s w = (if physical then w else w\<lparr>w_table := (w_table w)(key \<mapsto> s)\<rparr>)"

definition log_change ::
    "'b env \<Rightarrow> bool \<Rightarrow> tag_config \<Rightarrow> string \<Rightarrow> string \<Rightarrow> tag_snapshot option \<Rightarrow> tag_snapshot \<Rightarrow> string \<Rightarrow> 'b world \<Rightarrow> 'b world" where
  "log_change e physical c cid name prev s src w =
     (if \<not> physical \<and> log_event_on_change c \<and> should_log_tag_event_change s prev then
        w\<lparr>w_events := w_events w @ [\<lparr>ev_conn = cid, ev_tag = name,
            ev_old = (case prev of None \<Rightarrow> [] | Some p \<Rightarrow> snapshot_value_to_string e p), ev_new = snapshot_value_to_string e s,
            ev_old_quality = (case prev of None \<Rightarrow> - 1 | Some p \<Rightarrow> snap_quality p), ev_new_quality = snap_quality s,
            ev_ms = snap_time s div millis 1, ev_source = src\<rparr>]\<rparr>
      else w)"

definition mqtt_publish :: "string \<Rightarrow> string \<Rightarrow> string \<Rightarrow> 'b world \<Rightarrow> 'b world" where
  "mqtt_publish cid topic payload w = w\<lparr>w_published := w_published w @ [(cid, topic, payload)]\<rparr>"

section \<open>Finding the tag\<close>

record write_target =
  wt_conn :: connection_config
  wt_tag :: tag_runtime
  wt_name :: string
  wt_value :: string
  wt_prev :: "tag_snapshot option"
  wt_epoch :: u64
  wt_parent :: "(tag_runtime \<times> int) option"

definition find_driver :: "driver_context list \<Rightarrow> string \<Rightarrow> driver_context option" where
  "find_driver ds cid = find (\<lambda>d. conn_id (drv_conn d) = cid) ds"

definition bit_qualified_tag :: "int \<Rightarrow> string \<Rightarrow> tag_runtime option" where
  "bit_qualified_tag not_found name =
     (case parse_bit_qualified_source_name name of None \<Rightarrow> None
      | Some (src, b) \<Rightarrow> Some ((new_tag_runtime not_found)\<lparr>cfg := new_tag_config\<lparr>logical_name := name,
          datatype_name := ''bool'', tag_writable := True, tag_enabled := True, source_type := ''derived'',
          source_tag := src, source_bit := b\<rparr>\<rparr>))"

definition parent_array :: "tag_runtime list \<Rightarrow> string \<Rightarrow> string \<Rightarrow> (tag_runtime \<times> int) option" where
  "parent_array ts name dt =
     (case parse_array_element_logical_name name of None \<Rightarrow> None
      | Some (p, i) \<Rightarrow>
          map_option (\<lambda>t. (t, i))
            (find (\<lambda>t. logical_name (cfg t) = p \<and> i < elem_count (cfg t) \<and> datatype_name (cfg t) = dt) ts))"

text \<open>\<open>Inl\<close>: no tag, with the connection when there is one.\<close>

definition resolve_write ::
    "'b env \<Rightarrow> 'b world \<Rightarrow> string \<Rightarrow> string \<Rightarrow> string \<Rightarrow> connection_config option + write_target" where
  "resolve_write e w cid name v =
     (case find_driver (w_drivers w) cid of
        None \<Rightarrow> Inl None
      | Some d \<Rightarrow>
          (case (case find_tag (drv_tags d) name of Some t \<Rightarrow> Some t | None \<Rightarrow> bit_qualified_tag (io_not_found (e_io e)) name) of
             None \<Rightarrow> Inl (Some (drv_conn d))
           | Some t \<Rightarrow>
               Inr \<lparr>wt_conn = drv_conn d, wt_tag = t, wt_name = name, wt_value = v,
                    wt_prev = w_table w (make_tag_key cid name), wt_epoch = freshness_epoch d,
                    wt_parent = parent_array (drv_tags d) name (datatype_name (cfg t))\<rparr>))"

text \<open>A name that is no tag is still a topic an MQTT connection may publish.\<close>

definition write_unresolved :: "'b env \<Rightarrow> string \<Rightarrow> string \<Rightarrow> string \<Rightarrow> connection_config option \<Rightarrow> 'b world \<Rightarrow> outcome \<times> 'b world" where
  "write_unresolved e cid name v c w =
     (let in_scope = (case e_publication_topics e cid of None \<Rightarrow> False | Some ts \<Rightarrow> mqtt_name_matches_any_topic_scope name ts);
          any_name = (\<not> mqtt_is_subscription_tag_name name \<and>
            (cid \<in> e_known_mqtt e \<or> mqtt_connection_known_from_inputs e cid));
          in_config = (case c of None \<Rightarrow> False
            | Some c' \<Rightarrow> to_lower_copy (trim_copy (conn_driver c')) = ''mqtt'' \<and>
                mqtt_name_matches_any_topic_scope name (mqtt_publication_topics c'))
      in if in_scope \<or> any_name \<or> in_config
         then (None, mqtt_publish cid name v (publish False (make_tag_key cid name) (fresh_snapshot e cid name ''string'' (VStr v)) w))
         else (Some NotFound, w))"

section \<open>Physical writes\<close>

text \<open>Whether the walk up from a source meets a memory tag; it stops at a name seen before.\<close>

function reaches_memory :: "tag_runtime list \<Rightarrow> string set \<Rightarrow> string \<Rightarrow> bool" where
  "reaches_memory ts seen name =
     (if name \<in> seen then False
      else case find_tag ts name of None \<Rightarrow> False
        | Some t \<Rightarrow> if is_memory_tag (cfg t) then True
            else if parent_of t = [] then False else reaches_memory ts (insert name seen) (parent_of t))"
  by pat_completeness auto

termination reaches_memory
proof (relation "measure (\<lambda>(ts, seen, name). card (tag_names ts - seen))", goal_cases)
  case (2 ts seen name t)
  then show ?case using unseen_decreases [OF finite_tag_names find_tag_names [OF 2(2)]] by simp
qed simp

declare reaches_memory.simps [simp del]

definition is_physical_write :: "write_target \<Rightarrow> 'b world \<Rightarrow> bool" where
  "is_physical_write x w \<longleftrightarrow>
     conn_driver (wt_conn x) = ''ab_eip'' \<and> \<not> is_memory_tag (cfg (wt_tag x)) \<and>
     \<not> (source_tag (cfg (wt_tag x)) \<noteq> [] \<and>
        (case find_driver (w_drivers w) (conn_id (wt_conn x)) of None \<Rightarrow> False
         | Some d \<Rightarrow> reaches_memory (drv_tags d) {} (source_tag (cfg (wt_tag x)))))"

definition readback_at :: "time \<Rightarrow> 'b env \<Rightarrow> write_target \<Rightarrow> 'b world \<Rightarrow> 'b world" where
  "readback_at now e x w =
     (let r = request_write_readback now (e_wall e) (conn_id (wt_conn x)) (wt_name x) (wt_epoch x) (w_drivers w) (w_table w) (w_demand w)
      in w\<lparr>w_drivers := rb_drivers r, w_table := rb_table r, w_demand := rb_demand r, w_updates := w_updates w @ rb_updates r\<rparr>)"

section \<open>Memory, MQTT and remote tags\<close>

definition target_key :: "write_target \<Rightarrow> string" where
  "target_key x = make_tag_key (conn_id (wt_conn x)) (wt_name x)"

definition write_memory :: "'b env \<Rightarrow> bool \<Rightarrow> write_target \<Rightarrow> 'b world \<Rightarrow> outcome \<times> 'b world" where
  "write_memory e physical x w =
     (let c = cfg (wt_tag x); cid = conn_id (wt_conn x) in
      case parse_string_to_tagvalue (wt_value x) (datatype_name c) of
        None \<Rightarrow> (Some ValueNotParsed, w)
      | Some v \<Rightarrow>
          let s = fresh_snapshot e cid (wt_name x) (datatype_name c) v
          in (None, log_change e physical c cid (wt_name x) (wt_prev x) s ''write_memory'' (publish physical (target_key x) s w)))"

definition write_mqtt :: "'b env \<Rightarrow> bool \<Rightarrow> write_target \<Rightarrow> 'b world \<Rightarrow> outcome \<times> 'b world" where
  "write_mqtt e physical x w =
     (let c = cfg (wt_tag x); cid = conn_id (wt_conn x) in
      case parse_string_to_tagvalue (wt_value x) (datatype_name c) of
        None \<Rightarrow> (Some ValueNotParsed, w)
      | Some v \<Rightarrow>
          (None, mqtt_publish cid (wt_name x) (wt_value x)
             (publish physical (target_key x) (fresh_snapshot e cid (wt_name x) (datatype_name c) v) w)))"

definition write_remote :: "'b env \<Rightarrow> write_target \<Rightarrow> 'b world \<Rightarrow> outcome \<times> 'b world" where
  "write_remote e x w =
     (let c = cfg (wt_tag x); cid = conn_id (wt_conn x); text0 = trim_copy (plc_tag_name c);
          node = (if take 3 text0 \<noteq> ''ns='' then ''ns=1;s='' @ text0 else text0)
      in case parse_string_to_tagvalue (wt_value x) (datatype_name c) of
           None \<Rightarrow> (Some RemoteNotParsed, w)
         | Some v \<Rightarrow>
             (case e_remote_write e (wt_conn x) node v of
                Some why \<Rightarrow> (Some (RemoteFailed why), w)
              | None \<Rightarrow> (None, publish False (target_key x) (fresh_snapshot e cid (wt_name x) (datatype_name c) v) w)))"

section \<open>Values for the PLC\<close>

text \<open>A scaled value: the number is clamped and mapped back; the raw value goes to the PLC and the
  clamped one is shown, as a double when it does not fit the tag's output type.\<close>

definition clamp :: "tag_config \<Rightarrow> dbl \<Rightarrow> dbl" where
  "clamp c d =
     (let d1 = (if clamp_low c then dmax d (scaled_low c) else d) in if clamp_high c then dmin d1 (scaled_high c) else d1)"

definition scaled_number :: "string \<Rightarrow> dbl option" where
  "scaled_number s =
     (if trim_copy s = [] then None else case stod (trim_copy s) of Inl err \<Rightarrow> None | Inr (d, rest) \<Rightarrow> Some d)"

definition unscale :: "tag_runtime \<Rightarrow> string \<Rightarrow> write_failure + tag_value \<times> tag_value" where
  "unscale t s =
     (if \<not> is_numeric_datatype (datatype_name (cfg t)) then Inl ScalingNotNumeric
      else case scaled_number s of None \<Rightarrow> Inl ScaledNotParsed
        | Some d0 \<Rightarrow>
            let d = clamp (cfg t) d0; outDt = (if out_datatype t = [] then ''float64'' else out_datatype t) in
            (case cast_double_to_tagvalue (dadd (dmul d (inv_slope t)) (inv_offset t)) (datatype_name (cfg t)) of
               Inl err \<Rightarrow> Inl (ScaledCastFailed err)
             | Inr raw \<Rightarrow> Inr (raw, case cast_double_to_tagvalue d outDt of Inl err \<Rightarrow> VF64 (f64_of d) | Inr v \<Rightarrow> v)))"

definition shown_datatype :: "tag_runtime \<Rightarrow> string" where
  "shown_datatype t =
     (if scaling_linear t then if out_datatype t = [] then ''float64'' else out_datatype t else datatype_name (cfg t))"

text \<open>The value put into the tag buffer, and the value to show.\<close>

definition put_value ::
    "'b plc \<Rightarrow> connection_config \<Rightarrow> tag_runtime \<Rightarrow> int \<Rightarrow> int \<Rightarrow> string \<Rightarrow> 'b \<Rightarrow> (write_failure + tag_value) \<times> 'b" where
  "put_value p conn t h off s b =
     (let dt = datatype_name (cfg t); modbus = is_modbus_connection conn; order = word_order (cfg t) in
      if scaling_linear t then
        (case unscale t s of
           Inl err \<Rightarrow> (Inl err, b)
         | Inr (raw, shown) \<Rightarrow>
             (case plc_tag_set_from_tagvalue p dt h raw modbus order off b of
                (Inl err, b') \<Rightarrow> (Inl (SetFailed err), b')
              | (Inr u, b') \<Rightarrow> (Inr shown, b')))
      else
        (case plc_set_value_from_string p dt h s modbus order off b of
           (Inl err, b') \<Rightarrow> (Inl (SetFailed err), b')
         | (Inr v, b') \<Rightarrow> (Inr v, b')))"

text \<open>Put the value, write the buffer to the PLC and let go of a temporary handle.\<close>

definition send_value ::
    "'b plc_io \<Rightarrow> connection_config \<Rightarrow> tag_runtime \<Rightarrow> int \<Rightarrow> int \<Rightarrow> bool \<Rightarrow> string \<Rightarrow> 'b world \<Rightarrow> (write_failure + tag_value) \<times> 'b world" where
  "send_value io conn t h off owned s w =
     (case with_plc (put_value (io_plc io) conn t h off s) w of
        (Inl err, w1) \<Rightarrow> (Inl err, release io owned h w1)
      | (Inr v, w1) \<Rightarrow>
          (case with_plc (io_write io h (default_write_ms conn)) w1 of (st, w2) \<Rightarrow>
             (if st = p_ok (io_plc io) then Inr v else Inl (PlcWriteFailed st), release io owned h w2)))"

definition show_written :: "'b env \<Rightarrow> bool \<Rightarrow> write_target \<Rightarrow> tag_runtime \<Rightarrow> string \<Rightarrow> (write_failure + tag_value) \<times> 'b world \<Rightarrow> outcome \<times> 'b world" where
  "show_written e physical x t src r =
     (case r of
        (Inl err, w) \<Rightarrow> (Some err, w)
      | (Inr v, w) \<Rightarrow>
          let cid = conn_id (wt_conn x); s = fresh_snapshot e cid (wt_name x) (shown_datatype t) v
          in (None, log_change e physical (cfg (wt_tag x)) cid (wt_name x) (wt_prev x) s src (publish physical (target_key x) s w)))"

section \<open>One element of an array\<close>

definition write_element :: "'b env \<Rightarrow> bool \<Rightarrow> write_target \<Rightarrow> tag_runtime \<Rightarrow> int \<Rightarrow> 'b world \<Rightarrow> outcome \<times> 'b world" where
  "write_element e physical x parent i w =
     (let io = e_io e; conn = wt_conn x; pc = cfg parent in
      if \<not> tag_writable pc then (Some ParentNotWritable, w)
      else case (if handle parent < 0 then open_handle io conn (pc\<lparr>elem_count := max 1 (elem_count pc)\<rparr>) w else (Inr (handle parent), w)) of
          (Inl err, w1) \<Rightarrow> (Some err, w1)
        | (Inr h, w1) \<Rightarrow>
            let owned = (handle parent < 0) in
            (case with_plc (io_read io h (default_read_ms conn)) w1 of (st, w2) \<Rightarrow>
               if st \<noteq> p_ok (io_plc io) then (Some (ReadFailed st), release io owned h w2)
               else (case datatype_size (datatype_name pc) of
                   None \<Rightarrow> (Some UnsupportedSize, w2)
                 | Some bytes \<Rightarrow>
                     show_written e physical x parent ''write_array_element''
                       (send_value io conn parent h (i * bytes) owned (wt_value x) w2))))"

section \<open>A scalar PLC tag\<close>

definition write_scalar :: "'b env \<Rightarrow> bool \<Rightarrow> write_target \<Rightarrow> 'b world \<Rightarrow> outcome \<times> 'b world" where
  "write_scalar e physical x w =
     (let io = e_io e; conn = wt_conn x; t = wt_tag x; owned = (handle t < 0) in
      case (if owned then open_handle io conn (cfg t) w else (Inr (handle t), w)) of
        (Inl err, w1) \<Rightarrow> (Some err, w1)
      | (Inr h, w1) \<Rightarrow>
          (case (if owned \<and> \<not> is_modbus_connection conn then with_plc (io_read io h (default_read_ms conn)) w1
                 else (p_ok (io_plc io), w1)) of
             (st, w2) \<Rightarrow>
               if st \<noteq> p_ok (io_plc io) then (Some (ReadFailed st), release io True h w2)
               else show_written e physical x t ''write'' (send_value io conn t h 0 owned (wt_value x) w2)))"

section \<open>One bit of a PLC word\<close>

definition set_word_bit :: "u64 \<Rightarrow> nat \<Rightarrow> bool \<Rightarrow> u64" where
  "set_word_bit word n b = (if b then word OR push_bit n 1 else word AND NOT (push_bit n 1))"

text \<open>The tag that holds the bit, with the element index of an array.\<close>

definition bit_source :: "driver_context list \<Rightarrow> string \<Rightarrow> string \<Rightarrow> (tag_runtime \<times> int) option" where
  "bit_source ds cid src =
     (case find_driver ds cid of None \<Rightarrow> None
      | Some d \<Rightarrow>
          (case find_tag (drv_tags d) src of Some t \<Rightarrow> Some (t, - 1)
           | None \<Rightarrow>
               (case parse_array_element_logical_name src of None \<Rightarrow> None
                | Some (p, i) \<Rightarrow> map_option (\<lambda>t. (t, i))
                    (find (\<lambda>t. logical_name (cfg t) = p \<and> i < elem_count (cfg t)) (drv_tags d)))))"

definition check_bit_source :: "tag_runtime \<Rightarrow> int \<Rightarrow> write_failure option" where
  "check_bit_source t i =
     (if logical_name (cfg t) = [] then Some BitSourceNotFound
      else if \<not> tag_writable (cfg t) then Some BitSourceNotWritable
      else if plc_tag_name (cfg t) = [] then Some BitSourceNoName
      else if 1 < elem_count (cfg t) \<and> i < 0 then Some BitSourceIsArray
      else if 0 \<le> i \<and> elem_count (cfg t) \<le> i then Some BitSourceOutside
      else None)"

text \<open>Read, change the bit, write, read again and compare; \<open>Inr\<close> is the word read back.\<close>

definition modify_bit ::
    "'b plc_io \<Rightarrow> connection_config \<Rightarrow> tag_config \<Rightarrow> int \<Rightarrow> int \<Rightarrow> int \<Rightarrow> bool \<Rightarrow> 'b \<Rightarrow> (write_failure + u64) \<times> 'b" where
  "modify_bit io conn c h off n desired b0 =
     (let p = io_plc io; dt = datatype_name c; modbus = is_modbus_connection conn; order = word_order c in
      case io_read io h (default_read_ms conn) b0 of (rs, b1) \<Rightarrow>
      if rs \<noteq> p_ok p then (Inl (ReadFailed rs), b1)
      else case plc_tag_get_word_u64 p dt h modbus order off b1 of
          Inl err \<Rightarrow> (Inl (SetFailed err), b1)
        | Inr (cur, bits) \<Rightarrow>
            if bits \<le> n then (Inl (BitOutOfRange n bits), b1)
            else case plc_tag_set_word_u64 p dt h (set_word_bit cur (nat n) desired) modbus order off b1 of
                (Some err, b2) \<Rightarrow> (Inl (SetFailed err), b2)
              | (None, b2) \<Rightarrow>
                  (case io_write io h (default_write_ms conn) b2 of (ws, b3) \<Rightarrow>
                   if ws \<noteq> p_ok p then (Inl (PlcWriteFailed ws), b3)
                   else case io_read io h (default_read_ms conn) b3 of (vs, b4) \<Rightarrow>
                   if vs \<noteq> p_ok p then (Inl (VerifyReadFailed vs), b4)
                   else case plc_tag_get_word_u64 p dt h modbus order off b4 of
                       Inl err \<Rightarrow> (Inl (SetFailed err), b4)
                     | Inr (word, vbits) \<Rightarrow>
                         if bit word (nat n) \<noteq> desired then (Inl (VerifyMismatch desired), b4) else (Inr word, b4)))"

definition word_value :: "string \<Rightarrow> u64 \<Rightarrow> tag_value" where
  "word_value dt w =
     (if dt = ''int16'' then VI16 (ucast w) else if dt = ''uint16'' then VU16 (ucast w)
      else if dt = ''int32'' then VI32 (ucast w) else if dt = ''uint32'' then VU32 (ucast w) else VBool False)"

definition bit_place :: "tag_config \<Rightarrow> string \<times> int" where
  "bit_place c =
     (case parse_bit_qualified_source_name (source_tag c) of None \<Rightarrow> (source_tag c, source_bit c) | Some (src, n) \<Rightarrow> (src, n))"

definition bit_handle ::
    "'b plc_io \<Rightarrow> connection_config \<Rightarrow> tag_runtime \<Rightarrow> int \<Rightarrow> bool \<Rightarrow> 'b world \<Rightarrow> (write_failure + int) \<times> 'b world" where
  "bit_handle io conn t i reuse w =
     (if reuse then
        (case build_tag_conn_str conn (cfg t) w of
           (None, w1) \<Rightarrow> (Inl UnsupportedSize, w1)
         | (Some s, w1) \<Rightarrow>
             (case wait_for_tag_ready io (handle t) (default_timeout_ms conn) (w_plc w1) of
                Some why \<Rightarrow> (Inl (HandleNotReady why), w1) | None \<Rightarrow> (Inr (handle t), w1)))
      else open_handle io conn (if i < 0 then (cfg t)\<lparr>elem_count := 1\<rparr> else cfg t) w)"

definition show_bit ::
    "'b env \<Rightarrow> bool \<Rightarrow> write_target \<Rightarrow> tag_config \<Rightarrow> string \<Rightarrow> nat \<Rightarrow> u64 \<Rightarrow> bool \<Rightarrow> int \<Rightarrow> 'b world \<Rightarrow> 'b world" where
  "show_bit e physical x sc src n word owned h w =
     (let cid = conn_id (wt_conn x); c = cfg (wt_tag x);
          s_src = fresh_snapshot e cid src (datatype_name sc) (word_value (datatype_name sc) word);
          s = fresh_snapshot e cid (wt_name x) ''bool'' (VBool (if tag_invert c then \<not> bit word n else bit word n));
          w1 = release (e_io e) owned h (publish physical (target_key x) s (publish physical (make_tag_key cid src) s_src w));
          w2 = log_change e physical c cid (wt_name x) (w_table w (target_key x)) s ''write_derived'' w1
      in log_change e physical sc cid src (w_table w (make_tag_key cid src)) s_src ''write_derived'' w2)"

definition write_bit :: "'b env \<Rightarrow> bool \<Rightarrow> write_target \<Rightarrow> 'b world \<Rightarrow> outcome \<times> 'b world" where
  "write_bit e physical x w =
     (let io = e_io e; conn = wt_conn x; c = cfg (wt_tag x) in
      case bit_place c of (src, n) \<Rightarrow>
      if datatype_name c \<noteq> ''bool'' then (Some BitNotBool, w)
      else if n < 0 \<or> 63 < n then (Some (BitIndexInvalid n), w)
      else case parse_bool (wt_value x) of None \<Rightarrow> (Some BitNotParsed, w)
      | Some published \<Rightarrow>
      case bit_source (w_drivers w) (conn_id conn) src of None \<Rightarrow> (Some BitSourceNotFound, w)
      | Some (t, i) \<Rightarrow>
      case check_bit_source t i of Some err \<Rightarrow> (Some err, w)
      | None \<Rightarrow>
      let reuse = (0 \<le> i \<and> 0 \<le> handle t) in
      case bit_handle io conn t i reuse w of
        (Inl err, w1) \<Rightarrow> (Some err, w1)
      | (Inr h, w1) \<Rightarrow>
      (let desired = (if tag_invert c then \<not> published else published) in
       case (if 0 \<le> i then map_option (\<lambda>z. i * z) (datatype_size (datatype_name (cfg t))) else Some 0) of
         None \<Rightarrow>
           (case with_plc (io_read io h (default_read_ms conn)) w1 of (rs, w2) \<Rightarrow>
            if rs \<noteq> p_ok (io_plc io) then (Some (ReadFailed rs), release io (\<not> reuse) h w2) else (Some UnsupportedSize, w2))
       | Some off \<Rightarrow>
           (case with_plc (modify_bit io conn (cfg t) h off n desired) w1 of
              (Inl err, w2) \<Rightarrow> (Some err, release io (\<not> reuse) h w2)
            | (Inr word, w2) \<Rightarrow> (None, show_bit e physical x (cfg t) src (nat n) word (\<not> reuse) h w2))))"

section \<open>The whole call\<close>

definition is_alias :: "tag_config \<Rightarrow> bool" where
  "is_alias c \<longleftrightarrow> source_tag c \<noteq> [] \<and> source_bit c < 0 \<and> parse_bit_qualified_source_name (source_tag c) = None"

definition is_derived_bit :: "tag_config \<Rightarrow> bool" where
  "is_derived_bit c \<longleftrightarrow> source_tag c \<noteq> [] \<and> (0 \<le> source_bit c \<or> parse_bit_qualified_source_name (source_tag c) \<noteq> None)"

text \<open>What an alias writes to its source.\<close>

definition alias_text :: "write_target \<Rightarrow> tag_config \<Rightarrow> write_failure + string" where
  "alias_text x src =
     (let t = wt_tag x in
      if \<not> scaling_linear t then Inr (wt_value x)
      else case scaled_number (wt_value x) of None \<Rightarrow> Inl AliasParseFailed
        | Some d \<Rightarrow>
            (case cast_double_to_tagvalue (dadd (dmul (clamp (cfg t) d) (inv_slope t)) (inv_offset t)) (datatype_name src) of
               Inl err \<Rightarrow> Inl (AliasCastFailed err)
             | Inr raw \<Rightarrow> Inr (tag_value_to_string raw)))"

definition alias_source :: "write_target \<Rightarrow> 'b world \<Rightarrow> write_failure + string" where
  "alias_source x w =
     (let src = source_tag (cfg (wt_tag x)) in
      if src = wt_name x then Inl AliasInvalidSource
      else case (case find_driver (w_drivers w) (conn_id (wt_conn x)) of None \<Rightarrow> None | Some d \<Rightarrow> find_tag (drv_tags d) src) of
          None \<Rightarrow> Inl AliasSourceNotFound
        | Some t \<Rightarrow> if \<not> tag_writable (cfg t) then Inl AliasSourceNotWritable else alias_text x (cfg t))"

definition show_alias :: "'b env \<Rightarrow> bool \<Rightarrow> write_target \<Rightarrow> 'b world \<Rightarrow> 'b world" where
  "show_alias e physical x w =
     (let t = wt_tag x; c = cfg t in
      case parse_string_to_tagvalue (wt_value x) (datatype_name c) of None \<Rightarrow> w
      | Some v \<Rightarrow>
          publish physical (target_key x)
            (fresh_snapshot e (conn_id (wt_conn x)) (wt_name x)
               (if scaling_linear t \<and> out_datatype t \<noteq> [] then out_datatype t else datatype_name c) v) w)"

text \<open>Every kind but an alias. A physical write is dropped when its connection was reloaded meanwhile.\<close>

definition write_direct :: "'b env \<Rightarrow> bool \<Rightarrow> write_target \<Rightarrow> 'b world \<Rightarrow> outcome \<times> 'b world" where
  "write_direct e physical x w =
     (let c = cfg (wt_tag x); conn = wt_conn x in
      if is_memory_tag c then write_memory e physical x w
      else if to_lower_copy (trim_copy (conn_driver conn)) = ''mqtt'' then write_mqtt e physical x w
      else if is_opcua_client_driver_name (conn_driver conn) then write_remote e x w
      else if physical \<and> \<not> list_ex (\<lambda>d. conn_id (drv_conn d) = conn_id conn \<and> freshness_epoch d = wt_epoch x) (w_drivers w)
        then (Some ConfigurationChanged, w)
      else case wt_parent x of
          Some (parent, i) \<Rightarrow> write_element e physical x parent i w
        | None \<Rightarrow> if is_derived_bit c then write_bit e physical x w else write_scalar e physical x w)"

text \<open>An alias writes its source by a call of the same function; \<open>None\<close> is a chain of aliases
  longer than the fuel.\<close>

fun write_tag_by_name ::
    "nat \<Rightarrow> 'b env \<Rightarrow> string \<Rightarrow> string \<Rightarrow> string \<Rightarrow> u64 \<Rightarrow> 'b world \<Rightarrow> (outcome \<times> 'b world) option" where
  "write_tag_by_name 0 e cid name v expected w = None"
| "write_tag_by_name (Suc fuel) e cid name v expected w =
     (case resolve_write e w cid name v of
        Inl c \<Rightarrow> Some (write_unresolved e cid name v c w)
      | Inr x \<Rightarrow>
          if expected \<noteq> 0 \<and> wt_epoch x \<noteq> expected then Some (Some ConfigurationChanged, w)
          else if \<not> tag_writable (cfg (wt_tag x)) then Some (Some NotWritable, w)
          else
            let physical = is_physical_write x w;
                w1 = (if physical then readback_at (e_now e) e x w else w);
                leave = (\<lambda>(r, w'). (r, if physical then readback_at (e_exit e) e x w' else w'))
            in if is_alias (cfg (wt_tag x)) then
                 (case alias_source x w1 of
                    Inl err \<Rightarrow> Some (leave (Some err, w1))
                  | Inr text_v \<Rightarrow>
                      (case write_tag_by_name fuel e cid (source_tag (cfg (wt_tag x))) text_v (wt_epoch x) w1 of
                         None \<Rightarrow> None
                       | Some (Some err, w2) \<Rightarrow> Some (leave (Some (AliasWriteFailed err), w2))
                       | Some (None, w2) \<Rightarrow> Some (leave (None, show_alias e physical x w2))))
               else Some (leave (write_direct e physical x w1)))"

section \<open>What a write leaves alone\<close>

text \<open>Nothing but the gates of a driver changes during a write.\<close>

definition fixed_parts :: "driver_context list \<Rightarrow> (connection_config \<times> u64 \<times> tag_runtime list) list" where
  "fixed_parts ds = map (\<lambda>d. (drv_conn d, freshness_epoch d, drv_tags d)) ds"

lemma transition_fixed:
  "transition_poll_cache now wall d t table a re = (s, d', table') \<Longrightarrow>
     drv_conn d' = drv_conn d \<and> freshness_epoch d' = freshness_epoch d \<and> drv_tags d' = drv_tags d"
  by (auto simp: transition_poll_cache_def Let_def split: option.splits if_splits)

lemma wake_tags_fixed:
  "wake_tags now wall ts d table = (us, d', table') \<Longrightarrow>
     drv_conn d' = drv_conn d \<and> freshness_epoch d' = freshness_epoch d \<and> drv_tags d' = drv_tags d"
  by (induction ts arbitrary: d table us) (auto split: prod.splits dest: transition_fixed)

lemma request_fixed: "fixed_parts (rb_drivers (request_write_readback now wall cid name epoch ds table dem)) = fixed_parts ds"
  by (induction now wall cid name epoch ds table dem rule: request_write_readback.induct)
    (auto simp: fixed_parts_def Let_def dest: wake_tags_fixed split: option.splits prod.splits)

lemma readback_fixed [simp]: "fixed_parts (w_drivers (readback_at now e x w)) = fixed_parts (w_drivers w)"
  by (simp add: readback_at_def Let_def request_fixed)

lemma effects_drivers [simp]:
  "w_drivers (publish ph key s w) = w_drivers w" "w_drivers (mqtt_publish ci tp pl w) = w_drivers w"
  "w_drivers (log_change e ph c cid n prev s src w) = w_drivers w" "w_drivers (release io o' h w) = w_drivers w"
  by (simp_all add: publish_def mqtt_publish_def log_change_def release_def)

lemma with_plc_drivers: "with_plc f w = (r, w') \<Longrightarrow> w_drivers w' = w_drivers w"
  by (auto simp: with_plc_def split: prod.splits)

lemma conn_str_drivers: "build_tag_conn_str c t w = (r, w') \<Longrightarrow> w_drivers w' = w_drivers w"
  by (auto simp: build_tag_conn_str_def build_base_conn_str_def transport_group_def Let_def split: prod.splits if_splits)

lemma open_handle_drivers: "open_handle io c t w = (r, w') \<Longrightarrow> w_drivers w' = w_drivers w"
  by (auto simp: open_handle_def dest!: with_plc_drivers conn_str_drivers split: prod.splits option.splits)

lemma send_value_drivers: "send_value io conn t h off own s w = (r, w') \<Longrightarrow> w_drivers w' = w_drivers w"
  by (auto simp: send_value_def dest!: with_plc_drivers split: prod.splits sum.splits)

lemma show_written_drivers: "show_written e ph x t src (r, w) = (q, w') \<Longrightarrow> w_drivers w' = w_drivers w"
  by (auto simp: show_written_def Let_def split: sum.splits)

lemma write_element_drivers: "write_element e ph x parent i w = (q, w') \<Longrightarrow> w_drivers w' = w_drivers w"
  by (auto simp: write_element_def Let_def dest!: with_plc_drivers open_handle_drivers
      split: if_splits prod.splits sum.splits option.splits)
    (metis send_value_drivers show_written_drivers surj_pair)+

lemma write_scalar_drivers: "write_scalar e ph x w = (q, w') \<Longrightarrow> w_drivers w' = w_drivers w"
  by (auto simp: write_scalar_def Let_def dest!: with_plc_drivers open_handle_drivers
      split: if_splits prod.splits sum.splits option.splits)
    (metis send_value_drivers show_written_drivers surj_pair)+

lemma bit_handle_drivers: "bit_handle io conn t i reuse w = (r, w') \<Longrightarrow> w_drivers w' = w_drivers w"
  by (auto simp: bit_handle_def dest: open_handle_drivers conn_str_drivers split: if_splits option.splits prod.splits)

lemma write_bit_drivers: "write_bit e ph x w = (q, w') \<Longrightarrow> w_drivers w' = w_drivers w"
  by (auto simp: write_bit_def show_bit_def Let_def dest!: with_plc_drivers bit_handle_drivers
      split: if_splits prod.splits sum.splits option.splits)

lemma write_direct_drivers: "write_direct e ph x w = (q, w') \<Longrightarrow> w_drivers w' = w_drivers w"
  by (auto simp: write_direct_def write_memory_def write_mqtt_def write_remote_def Let_def
      dest: write_element_drivers write_bit_drivers write_scalar_drivers split: if_splits option.splits prod.splits)

lemma write_fixed:
  "write_tag_by_name fuel e cid name v expected w = Some (r, w') \<Longrightarrow> fixed_parts (w_drivers w') = fixed_parts (w_drivers w)"
proof (induction fuel arbitrary: name v expected w r w')
  case (Suc fuel)
  have unresolved: "w_drivers (snd (write_unresolved e cid name v c w)) = w_drivers w" for c
    by (simp add: write_unresolved_def Let_def)
  have shown: "w_drivers (show_alias e ph x w2) = w_drivers w2" for ph x w2
    by (simp add: show_alias_def Let_def split: option.splits)
  show ?case
    using Suc.prems unresolved by (auto simp: Let_def shown dest!: Suc.IH write_direct_drivers
        split: sum.splits option.splits if_splits prod.splits) (metis snd_conv)+
qed simp

section \<open>A physical write is never shown as a measurement\<close>

lemma request_waits:
  assumes "find_driver ds cid = Some d" "freshness_epoch d = epoch" "find_root (drv_tags d) {} name = Some r"
    and "t \<in> set (drv_tags d)" "(r, logical_name (cfg t)) \<in> (child_rel (drv_tags d))\<^sup>*"
    and "tag_enabled (cfg t)" "\<not> is_memory_tag (cfg t)" "elem_count (cfg t) \<le> 1 \<or> poll_source t \<noteq> []"
  shows "\<exists>c. rb_table (request_write_readback now wall cid name epoch ds table dem) (make_tag_key cid (logical_name (cfg t))) = Some c \<and>
    snap_quality c = 0 \<and> snap_polling c = CacheWaiting"
  using assms(1)
proof (induction ds)
  case (Cons d0 ds)
  show ?case
  proof (cases "conn_id (drv_conn d0) = cid")
    case True
    then have d: "d0 = d" using Cons.prems by (simp add: find_driver_def)
    let ?ts = "filter (needs_readback ((child_rel (drv_tags d))\<^sup>* `` {r})) (drv_tags d)"
    obtain us d' table' where w: "wake_tags now wall ?ts d table = (us, d', table')"
      and q: "request_write_readback now wall cid name (freshness_epoch d) (d # ds) table dem =
        \<lparr>rb_drivers = d' # ds, rb_table = table', rb_demand = td_http_read (ua_tag_nodeid_string cid r) now dem, rb_updates = us\<rparr>"
      using request_of_driver [OF True [unfolded d] assms(3)] by blast
    have "logical_name (cfg t) \<in> tag_names ?ts"
      using assms(4-8) by (auto simp: tag_names_def needs_readback_def)
    then show ?thesis using wake_tags_outcome [OF w, of "logical_name (cfg t)"] q True by (simp add: d assms(2) [symmetric])
  next
    case False
    then show ?thesis using Cons by (simp add: find_driver_def Let_def)
  qed
qed (simp add: find_driver_def)

lemma find_driver_fixed:
  assumes "fixed_parts ds' = fixed_parts ds" "find_driver ds cid = Some d"
  shows "\<exists>d'. find_driver ds' cid = Some d' \<and> drv_conn d' = drv_conn d \<and> freshness_epoch d' = freshness_epoch d \<and> drv_tags d' = drv_tags d"
  using assms
proof (induction ds arbitrary: ds')
  case (Cons a ds)
  obtain b es where ds': "ds' = b # es" using Cons.prems(1) by (cases ds') (auto simp: fixed_parts_def)
  show ?case
  proof (cases "conn_id (drv_conn a) = cid")
    case True
    then show ?thesis using Cons.prems by (auto simp: ds' fixed_parts_def find_driver_def)
  next
    case False
    then have "fixed_parts es = fixed_parts ds" "find_driver ds cid = Some d" "conn_id (drv_conn b) \<noteq> cid"
      using Cons.prems by (auto simp: ds' fixed_parts_def find_driver_def)
    then show ?thesis using Cons.IH [of es] by (simp add: ds' find_driver_def)
  qed
qed (simp add: find_driver_def)

text \<open>A physical write ends with the readback request, whatever came before.\<close>

lemma physical_write_ends_waiting:
  assumes "write_tag_by_name fuel e cid name v expected w = Some (res, w')"
    and "resolve_write e w cid name v = Inr x" "is_physical_write x w" "tag_writable (cfg (wt_tag x))"
    and "expected = 0 \<or> wt_epoch x = expected"
  shows "\<exists>w2. w' = readback_at (e_exit e) e x w2 \<and> fixed_parts (w_drivers w2) = fixed_parts (w_drivers w)"
proof -
  obtain n where n: "fuel = Suc n" using assms(1) by (cases fuel) auto
  have shown: "w_drivers (show_alias e ph x w2) = w_drivers w2" for ph w2
    by (simp add: show_alias_def Let_def split: option.splits)
  let ?w1 = "readback_at (e_now e) e x w"
  show ?thesis
  proof (cases "is_alias (cfg (wt_tag x))")
    case False
    obtain q w2 where d: "write_direct e True x ?w1 = (q, w2)" by (cases "write_direct e True x ?w1")
    then show ?thesis using assms False write_direct_drivers [OF d] by (auto simp: n Let_def)
  next
    case True
    show ?thesis
    proof (cases "alias_source x ?w1")
      case (Inl err)
      then show ?thesis using assms True by (auto simp: n Let_def)
    next
      case (Inr val)
      then obtain q w2 where r: "write_tag_by_name n e cid (source_tag (cfg (wt_tag x))) val (wt_epoch x) ?w1 = Some (q, w2)"
        using assms True by (auto simp: n Let_def split: option.splits)
      show ?thesis using assms True Inr r write_fixed [OF r] by (cases q) (auto simp: n Let_def shown)
    qed
  qed
qed

lemma find_driver_id: "find_driver ds cid = Some d \<Longrightarrow> conn_id (drv_conn d) = cid"
  by (auto simp: find_driver_def find_Some_iff)

lemma resolve_target:
  assumes "resolve_write e w cid name v = Inr x" "find_driver (w_drivers w) cid = Some d"
  shows "wt_conn x = drv_conn d" "wt_epoch x = freshness_epoch d" "wt_name x = name" "conn_id (drv_conn d) = cid"
  using assms find_driver_id [OF assms(2)] by (auto simp: resolve_write_def split: option.splits)


section \<open>Refused writes change nothing\<close>

theorem refused_write_changes_nothing:
  assumes "resolve_write e w cid name v = Inr x"
    and "\<not> tag_writable (cfg (wt_tag x)) \<or> (expected \<noteq> 0 \<and> wt_epoch x \<noteq> expected)"
  shows "write_tag_by_name (Suc fuel) e cid name v expected w =
    Some (Some (if expected \<noteq> 0 \<and> wt_epoch x \<noteq> expected then ConfigurationChanged else NotWritable), w)"
  using assms by auto

section \<open>Aliases in a circle\<close>

text \<open>Two aliases of each other: each writes the other, and no fuel is enough.\<close>

theorem alias_cycle_never_returns:
  assumes "find_driver (w_drivers w) cid = Some d" "find_tag (drv_tags d) a = Some ta" "find_tag (drv_tags d) b = Some tb"
    and "is_alias (cfg ta)" "is_alias (cfg tb)" "source_tag (cfg ta) = b" "source_tag (cfg tb) = a" "a \<noteq> b"
    and "tag_writable (cfg ta)" "tag_writable (cfg tb)" "\<not> scaling_linear ta" "\<not> scaling_linear tb"
    and "expected = 0 \<or> expected = freshness_epoch d"
  shows "write_tag_by_name fuel e cid a v expected w = None"
  using assms
proof (induction fuel arbitrary: a b ta tb v expected w d rule: less_induct)
  case (less fuel)
  show ?case
  proof (cases fuel)
    case (Suc n)
    define x where "x = \<lparr>wt_conn = drv_conn d, wt_tag = ta, wt_name = a, wt_value = v,
                    wt_prev = w_table w (make_tag_key cid a), wt_epoch = freshness_epoch d,
                    wt_parent = parent_array (drv_tags d) a (datatype_name (cfg ta))\<rparr>"
    have x: "resolve_write e w cid a v = Inr x"
      using less.prems(1,2) by (simp add: resolve_write_def x_def)
    have cid: "conn_id (drv_conn d) = cid" using less.prems(1) by (auto simp: find_driver_def find_Some_iff)
    define w1 where "w1 = (if is_physical_write x w then readback_at (e_now e) e x w else w)"
    have "fixed_parts (w_drivers w1) = fixed_parts (w_drivers w)" by (simp add: w1_def)
    then obtain d1 where d1: "find_driver (w_drivers w1) cid = Some d1" "drv_tags d1 = drv_tags d" "freshness_epoch d1 = freshness_epoch d"
      using find_driver_fixed [OF _ less.prems(1)] by blast
    have s: "alias_source x w1 = Inr v"
      using less.prems d1 cid by (simp add: alias_source_def alias_text_def x_def Let_def)
    have again: "write_tag_by_name n e cid b v (freshness_epoch d) w1 = None"
      using less.IH [of n w1 d1 b tb a ta "freshness_epoch d" v] less.prems d1 Suc by auto
    have parts: "wt_tag x = ta" "wt_epoch x = freshness_epoch d" by (simp_all add: x_def)
    have current: "\<not> (expected \<noteq> 0 \<and> freshness_epoch d \<noteq> expected)" using less.prems(13) by auto
    show ?thesis
      unfolding Suc write_tag_by_name.simps x sum.case parts if_not_P [OF current]
      using less.prems s again by (simp add: Let_def w1_def [symmetric] parts)
  qed simp
qed

section \<open>A bit write changes one bit\<close>

unbundle bit_operations_syntax

definition word_bits :: "string \<Rightarrow> int" where
  "word_bits dt = (if dt = ''int16'' \<or> dt = ''uint16'' then 16 else 32)"

lemma narrow_word: "ucast (ucast (w :: u64) :: 16 word) = take_bit 16 w" "ucast (ucast (w :: u64) :: 32 word) = take_bit 32 w"
  by (rule bit_word_eqI; auto simp: bit_simps)+

lemma word_reads_back:
  assumes p: "tag_buffer_ok p" and s: "plc_tag_set_word_u64 p dt h word modbus order off b = (None, b')"
  shows "plc_tag_get_word_u64 p dt h modbus order off b' = Inr (take_bit (nat (word_bits dt)) word, word_bits dt)"
proof -
  have rb: "reads_back p (p_get_i16 p) (p_set_i16 p)" "reads_back p (p_get_u16 p) (p_set_u16 p)"
    "reads_back p (p_get_i32 p) (p_set_i32 p)" "reads_back p (p_get_u32 p) (p_set_u32 p)"
    using p by (simp_all add: tag_buffer_ok_def)
  consider "dt = ''int16''" | "dt = ''uint16''" | "dt = ''int32''" | "dt = ''uint32''"
    using s by (auto simp: plc_tag_set_word_u64_def Let_def split: if_splits)
  then show ?thesis
    using s by cases (auto simp: plc_tag_set_word_u64_def plc_tag_get_word_u64_def word_bits_def narrow_word
        read_write32 [OF p] reads_backD [OF rb(1)] reads_backD [OF rb(2)] reads_backD [OF rb(3)] reads_backD [OF rb(4)]
        Let_def split: prod.splits if_splits)
qed

lemma word_in_range:
  "plc_tag_get_word_u64 p dt h modbus order off b = Inr (w, bits) \<Longrightarrow> bits = word_bits dt \<and> take_bit (nat bits) w = w"
proof -
  have t: "take_bit 16 (ucast (a :: 16 word) :: u64) = ucast a" "take_bit 32 (ucast (c :: 32 word) :: u64) = ucast c" for a c
    by (rule bit_word_eqI; auto simp: bit_simps dest: bit_imp_le_length)+
  show "plc_tag_get_word_u64 p dt h modbus order off b = Inr (w, bits) \<Longrightarrow> bits = word_bits dt \<and> take_bit (nat bits) w = w"
    by (auto simp: plc_tag_get_word_u64_def word_bits_def t split: if_splits)
qed

lemma bit_set_word_bit: "n < 64 \<Longrightarrow> bit (set_word_bit w n v) i = (if i = n then v else bit w i)"
  by (auto simp: set_word_bit_def bit_simps dest: bit_imp_le_length)

lemma set_bit_in_range:
  "n < k \<Longrightarrow> k \<le> 64 \<Longrightarrow> take_bit k w = w \<Longrightarrow> take_bit k (set_word_bit w n v) = set_word_bit w n v"
proof (rule bit_word_eqI)
  fix i
  assume "n < k" "k \<le> 64" and w: "take_bit k w = w"
  have "bit w i \<Longrightarrow> i < k" using arg_cong [OF w, of "\<lambda>w. bit w i"] by (simp add: bit_take_bit_iff)
  then show "bit (take_bit k (set_word_bit w n v)) i = bit (set_word_bit w n v) i"
    using \<open>n < k\<close> \<open>k \<le> 64\<close> by (auto simp: bit_take_bit_iff bit_set_word_bit)
qed


section \<open>A write through aliases that end returns\<close>

text \<open>Following aliases from a name comes to an end after at most so many steps.\<close>

fun aliases_end :: "tag_runtime list \<Rightarrow> nat \<Rightarrow> string \<Rightarrow> bool" where
  "aliases_end ts n name =
     (case find_tag ts name of
        None \<Rightarrow> True
      | Some t \<Rightarrow>
          if is_alias (cfg t) then (case n of 0 \<Rightarrow> False | Suc m \<Rightarrow> aliases_end ts m (source_tag (cfg t))) else True)"

declare aliases_end.simps [simp del]

lemma parse_bit_nonneg: "parse_bit_qualified_source_name name = Some (p, b) \<Longrightarrow> 0 \<le> b"
  by (auto simp: parse_bit_qualified_source_name_def Let_def split: if_splits sum.splits)

lemma bit_qualified_not_alias: "bit_qualified_tag nf name = Some t \<Longrightarrow> \<not> is_alias (cfg t)"
  by (auto simp: bit_qualified_tag_def is_alias_def dest: parse_bit_nonneg split: option.splits)

lemma alias_step:
  assumes "resolve_write e w cid name v = Inr x" "is_alias (cfg (wt_tag x))" "find_driver (w_drivers w) cid = Some d"
    and "aliases_end (drv_tags d) n name"
  shows "\<exists>m. n = Suc m \<and> aliases_end (drv_tags d) m (source_tag (cfg (wt_tag x)))"
proof -
  have "find_tag (drv_tags d) name = Some (wt_tag x)"
    using assms(1-3) bit_qualified_not_alias by (auto simp: resolve_write_def split: option.splits)
  then show ?thesis using assms(2,4) by (auto simp: aliases_end.simps [of _ n] split: nat.splits)
qed

lemma write_returns:
  assumes "find_driver (w_drivers w) cid = Some d" "aliases_end (drv_tags d) n name"
  shows "\<exists>r w'. write_tag_by_name (Suc n) e cid name v expected w = Some (r, w')"
  using assms
proof (induction n arbitrary: name v expected w d rule: less_induct)
  case (less n)
  show ?case
  proof (cases "resolve_write e w cid name v")
    case (Inl c)
    then show ?thesis by (cases "write_unresolved e cid name v c w") simp
  next
    case (Inr x)
    define w1 where "w1 = (if is_physical_write x w then readback_at (e_now e) e x w else w)"
    define stale where "stale \<longleftrightarrow> expected \<noteq> 0 \<and> wt_epoch x \<noteq> expected"
    show ?thesis
    proof (cases "stale \<or> \<not> tag_writable (cfg (wt_tag x)) \<or> \<not> is_alias (cfg (wt_tag x)) \<or> isl (alias_source x w1)")
      case True
      then show ?thesis
        by (auto simp: Inr Let_def w1_def [symmetric] stale_def split: sum.splits prod.splits)
    next
      case False
      then obtain val where val: "alias_source x w1 = Inr val" by (cases "alias_source x w1") auto
      obtain m where m: "n = Suc m" "aliases_end (drv_tags d) m (source_tag (cfg (wt_tag x)))"
        using alias_step [OF Inr _ less.prems] False by blast
      have "fixed_parts (w_drivers w1) = fixed_parts (w_drivers w)" by (simp add: w1_def)
      then obtain d1 where d1: "find_driver (w_drivers w1) cid = Some d1" "drv_tags d1 = drv_tags d"
        using find_driver_fixed [OF _ less.prems(1)] by blast
      have "\<exists>r w2. write_tag_by_name (Suc m) e cid (source_tag (cfg (wt_tag x))) val (wt_epoch x) w1 = Some (r, w2)"
        by (rule less.IH [OF _ d1(1)]) (use m d1 in simp_all)
      then obtain r w2 where r: "write_tag_by_name n e cid (source_tag (cfg (wt_tag x))) val (wt_epoch x) w1 = Some (r, w2)"
        unfolding m(1) by blast
      have "\<not> (expected \<noteq> 0 \<and> wt_epoch x \<noteq> expected)" "tag_writable (cfg (wt_tag x))" "is_alias (cfg (wt_tag x))"
        using False by (simp_all add: stale_def)
      then show ?thesis
        unfolding write_tag_by_name.simps(2) Inr sum.case Let_def w1_def [symmetric]
        using val r by (cases r) (simp_all split: prod.splits)
    qed
  qed
qed


section \<open>Concrete runs\<close>

definition sample_io :: "(int \<Rightarrow> 64 word) plc_io" where
  "sample_io = \<lparr>io_plc = register_file, io_not_found = - 1, io_pending = 1, io_create = (\<lambda>s t b. (5, b)), io_destroy = (\<lambda>h b. b),
     io_statuses = (\<lambda>h t b. [1, 0]), io_read = (\<lambda>h t b. (0, b)), io_write = (\<lambda>h t b. (0, b))\<rparr>"

definition sample_env :: "(int \<Rightarrow> 64 word) env" where
  "sample_env = \<lparr>e_io = sample_io, e_now = 50, e_exit = 60, e_wall = 7, e_publication_topics = Map.empty, e_known_mqtt = {},
     e_mqtt_inputs = [], e_remote_write = (\<lambda>c n v. None), e_array_text = (\<lambda>vs. [])\<rparr>"

definition writable_driver :: driver_context where
  "writable_driver = sample_driver\<lparr>drv_tags := map (\<lambda>t. t\<lparr>cfg := (cfg t)\<lparr>tag_writable := True\<rparr>\<rparr>) (drv_tags sample_driver)\<rparr>"

definition sample_world :: "(int \<Rightarrow> 64 word) world" where
  "sample_world = \<lparr>w_drivers = [writable_driver], w_table = Map.empty, w_demand = new_tag_demand, w_updates = [],
     w_plc = (\<lambda>_. 0), w_groups = Map.empty, w_next_group = 1, w_published = [], w_events = []\<rparr>"

lemma aliases_end_sample: "aliases_end (drv_tags writable_driver) 1 ''Alias''"
  by code_simp




section \<open>Digits lost by a scaled alias\<close>

lemma digit_chars:
  "digit_char 0 = CHR ''0''" "digit_char (Suc 0) = CHR ''1''" "digit_char 2 = CHR ''2''" "digit_char 3 = CHR ''3''"
  "digit_char 4 = CHR ''4''" "digit_char 5 = CHR ''5''" "digit_char 6 = CHR ''6''" "digit_char 7 = CHR ''7''"
  by code_simp+

lemma show_six_digits: "show_g6 (DFin 1234567) = ''1.23457e+06''"
proof -
  have n: "show_nat 1234567 = ''1234567''" "show_nat (Suc 0) = ''1''" "show_nat 123457 = ''123457''" "show_nat 6 = ''6''"
    by (simp_all add: show_nat.simps digit_chars)
  have e: "ilog10 1234567 = 6" by (simp add: ilog10_def n Let_def quotient_of_number)
  have "\<lfloor>(1234567 :: rat) / 10\<rfloor> = 123456" by (simp add: floor_eq_iff)
  then have "rne (1234567 / 10) = 123457" by (simp add: rne_def Let_def)
  then show ?thesis by (simp add: show_g6_def e n with_fraction_def strip_zeros_def pad_left_def)
qed

text \<open>The text a scaled alias writes to a 64-bit float source keeps six digits of the number.\<close>

theorem scaled_alias_loses_digits:
  "dbl_of_f64 0x4132D68700000000 = DFin 1234567 \<and> tag_value_to_string (VF64 0x4132D68700000000) = ''1.23457e+06''"
proof -
  have "dbl_of_f64 0x4132D68700000000 = DFin 1234567"
    by (simp add: dbl_of_f64_def decode_def binary64_def Let_def exp_max_def power_int_def power_divide)
  then show ?thesis by (simp add: show_six_digits)
qed

end
