(* ===== verification/AlarmEngine.thy ===== *)
theory AlarmEngine
  imports Numbers JsonNumbers
begin

text \<open>
  The alarm server's engine (opcbridge-alarms/src/main.cpp, \<open>AlarmEngine\<close>): tag updates drive the
  alarms that watch the tag, a timer raises the delayed ones, operators acknowledge and shelve. Every
  method holds the engine's mutex, so a call is one step; the clock is read once per call. The
  JSON printer, the database, the WebSocket server, the OPC UA server and the notification manager
  are outside: the engine's calls of them are recorded in the state.
\<close>

section \<open>Rules, states and events\<close>

record alarm_rule =
  r_id :: string
  r_name :: string
  r_group :: string
  r_site :: string
  r_enabled :: bool
  r_site_enabled :: bool
  r_severity :: int
  r_connection :: string
  r_tag :: string
  condition_type :: string
  condition_value :: json
  threshold :: dbl
  hysteresis :: dbl
  r_delay_ms :: int
  r_message_on_active :: string
  r_message_on_return :: string
  r_audio_file :: string
  r_audio_path :: string
  r_speech_text :: string
  r_audio_files :: "string list"
  r_audio_paths :: "string list"
  r_speech_texts :: "string list"
  r_audio_gap_ms :: int
  r_audio_mode :: string
  r_policy :: string
  r_repeat_override :: bool
  r_repeat_ms :: int

record alarm_state =
  s_id :: string
  s_name :: string
  s_group :: string
  s_site :: string
  s_severity :: int
  s_enabled :: bool
  s_site_enabled :: bool
  s_active :: bool
  s_acked :: bool
  s_initialized :: bool
  s_armed :: bool
  s_pending :: bool
  s_pending_record :: bool
  s_pending_since :: int
  s_delay :: int
  s_shelved_until :: "int option"
  s_active_since :: int
  s_last_change :: int
  s_connection :: string
  s_tag :: string
  s_last_value :: json
  s_message :: string
  s_message_on_active :: string
  s_message_on_return :: string
  s_audio_file :: string
  s_audio_path :: string
  s_speech_text :: string
  s_audio_files :: "string list"
  s_audio_paths :: "string list"
  s_speech_texts :: "string list"
  s_audio_gap_ms :: int
  s_audio_mode :: string
  s_policy :: string
  s_repeat_override :: bool
  s_repeat_ms :: int

record alarm_event =
  ae_id :: string
  ae_ts :: int
  ae_alarm :: string
  ae_type :: string
  ae_severity :: int
  ae_group :: string
  ae_site :: string
  ae_connection :: string
  ae_tag :: string
  ae_value :: json
  ae_message :: string
  ae_actor :: string
  ae_note :: string

text \<open>\<open>e\_stored\<close>: whether the database took the row. \<open>e\_id\<close> supplies the random event ids.\<close>

record alarm_env =
  e_dump :: "json \<Rightarrow> string"
  e_id :: "nat \<Rightarrow> string"
  e_stored :: "alarm_event \<Rightarrow> bool"
  e_ws :: bool

record alarm_world =
  w_rules :: "string \<rightharpoonup> alarm_rule"
  w_states :: "string \<rightharpoonup> alarm_state"
  w_by_key :: "string \<rightharpoonup> string list"
  w_global_delay :: int
  w_last_update :: int
  w_last_change :: int
  w_log :: "alarm_event list"
  w_notified :: "(alarm_state \<times> string) list"
  w_sent :: "json list"
  w_ua :: "alarm_state list"
  w_configured :: "json list"
  w_config_mtime :: int
  w_config_hash :: string

section \<open>Values\<close>

definition is_number :: "json \<Rightarrow> bool" where
  "is_number j = (case j of JInt n \<Rightarrow> True | JFloat d \<Rightarrow> True | _ \<Rightarrow> False)"

definition number_of :: "json \<Rightarrow> dbl" where
  "number_of j = (case j of JInt n \<Rightarrow> dbl_of_int n | JFloat d \<Rightarrow> d | _ \<Rightarrow> DFin 0)"

text \<open>Two parsed integers of different signs have different types and are compared as doubles,
  which then differ as the integers do.\<close>

definition json_equalish :: "alarm_env \<Rightarrow> json \<Rightarrow> json \<Rightarrow> bool" where
  "json_equalish e a b =
     (case (a, b) of
        (JInt m, JInt n) \<Rightarrow> m = n
      | (JBool x, JInt n) \<Rightarrow> deq (DFin (if x then 1 else 0)) (number_of b)
      | (JBool x, JFloat d) \<Rightarrow> deq (DFin (if x then 1 else 0)) (number_of b)
      | (JInt n, JBool y) \<Rightarrow> deq (number_of a) (DFin (if y then 1 else 0))
      | (JFloat d, JBool y) \<Rightarrow> deq (number_of a) (DFin (if y then 1 else 0))
      | (JInt n, JFloat d) \<Rightarrow> deq (number_of a) d
      | (JFloat d, JInt n) \<Rightarrow> deq d (number_of b)
      | (JFloat c, JFloat d) \<Rightarrow> deq c d
      | (JNull, JNull) \<Rightarrow> True
      | (JBool x, JBool y) \<Rightarrow> x = y
      | (JStr s, JStr t) \<Rightarrow> s = t
      | (JArr xs, JArr ys) \<Rightarrow> json_eq a b
      | (JObj xs, JObj ys) \<Rightarrow> json_eq a b
      | _ \<Rightarrow> e_dump e a = e_dump e b)"

text \<open>\<open>is\_number\_integer\<close> holds of unsigned numbers too, so one above $2^{63}$ is read as negative.\<close>

definition coerce_number :: "json \<Rightarrow> dbl option" where
  "coerce_number j =
     (case j of
        JFloat d \<Rightarrow> Some d
      | JInt n \<Rightarrow> Some (dbl_of_int (to_int64 n))
      | JBool b \<Rightarrow> Some (DFin (if b then 1 else 0))
      | JStr s \<Rightarrow> (case stod s of Inl err \<Rightarrow> None | Inr (d, rest) \<Rightarrow> Some d)
      | _ \<Rightarrow> None)"

definition json_text_value :: "alarm_env \<Rightarrow> json \<Rightarrow> string" where
  "json_text_value e j = (case j of JStr s \<Rightarrow> s | JNull \<Rightarrow> [] | _ \<Rightarrow> e_dump e j)"

definition normalize_quality :: "json \<Rightarrow> int option" where
  "normalize_quality q =
     (case q of
        JBool b \<Rightarrow> Some (if b then 1 else 0)
      | JInt n \<Rightarrow> Some (to_int32 n)
      | JFloat d \<Rightarrow> Some (dbl_to_int32 d)
      | JStr s \<Rightarrow>
          (let t = map to_lower s in
           if t = [] then None
           else if t \<in> {''good'', ''ok'', ''true''} then Some 1
           else if t \<in> {''bad'', ''bad_handle'', ''stale'', ''false''} then Some 0
           else case stoi t of Inl err \<Rightarrow> None | Inr (n, rest) \<Rightarrow> Some n)
      | _ \<Rightarrow> None)"

fun is_substring :: "string \<Rightarrow> string \<Rightarrow> bool" where
  "is_substring pat [] \<longleftrightarrow> pat = []"
| "is_substring pat (c # s) \<longleftrightarrow> take (length pat) (c # s) = pat \<or> is_substring pat s"

section \<open>One alarm, one update\<close>

definition is_shelved :: "int \<Rightarrow> alarm_state \<Rightarrow> bool" where
  "is_shelved t s = (case s_shelved_until s of None \<Rightarrow> False | Some u \<Rightarrow> t < u)"

text \<open>Whether the alarm should be active, given that it is enabled and not shelved. A high or low
  alarm that is active stays so until the value is back by the hysteresis.\<close>

definition condition_met :: "alarm_env \<Rightarrow> alarm_rule \<Rightarrow> bool \<Rightarrow> json \<Rightarrow> bool" where
  "condition_met e r active value =
     (let ct = condition_type r; cv = condition_value r in
      if ct \<in> {''equals'', ''not_equals''} then
        cv \<noteq> JNull \<and> (if ct = ''equals'' then json_equalish e value cv else \<not> json_equalish e value cv)
      else if ct \<in> {''contains'', ''not_contains''} then
        (let found = is_substring (json_text_value e cv) (json_text_value e value)
         in cv \<noteq> JNull \<and> (if ct = ''contains'' then found else \<not> found))
      else if ct \<in> {''empty'', ''not_empty''} then
        (let none = (json_text_value e value = []) in if ct = ''empty'' then none else \<not> none)
      else if ct \<in> {''high'', ''low''} then
        (case coerce_number value of
           None \<Rightarrow> False
         | Some x \<Rightarrow>
             if ct = ''high'' then
               (if \<not> active then dle (threshold r) x else \<not> dle x (dsub (threshold r) (hysteresis r)))
             else
               (if \<not> active then dle x (threshold r) else \<not> dle (dadd (threshold r) (hysteresis r)) x))
      else False)"

text \<open>What is announced of a step: nothing, the new state, or the new state with an event.\<close>

datatype announcement = Quiet | StateOnly | WithEvent string

definition shown_message :: "alarm_rule \<Rightarrow> alarm_state \<Rightarrow> string" where
  "shown_message r s = (if r_message_on_active r = [] then s_name s else r_message_on_active r)"

definition raise_alarm :: "int \<Rightarrow> bool \<Rightarrow> alarm_rule \<Rightarrow> alarm_state \<Rightarrow> alarm_state" where
  "raise_alarm t armed r s =
     s\<lparr>s_initialized := True, s_active := True, s_acked := False, s_armed := armed, s_active_since := t,
       s_last_change := t, s_message := shown_message r s\<rparr>"

text \<open>The alarm follows its condition, at once or by starting to wait.\<close>

definition settle_alarm :: "int \<Rightarrow> bool \<Rightarrow> alarm_rule \<Rightarrow> bool \<Rightarrow> alarm_state \<Rightarrow> alarm_state \<times> announcement" where
  "settle_alarm t record_event r should s =
     (if should \<and> \<not> s_active s then
        (if 0 < s_delay s then
           ((if s_pending s then s
             else s\<lparr>s_pending := True, s_pending_since := t, s_pending_record := record_event\<rparr>)\<lparr>s_initialized := True\<rparr>, Quiet)
         else if \<not> s_initialized s \<and> \<not> record_event then (raise_alarm t False r s, StateOnly)
         else (raise_alarm t record_event r s, if record_event then WithEvent ''active'' else StateOnly))
      else if \<not> should \<and> s_active s then
        (s\<lparr>s_pending := False, s_pending_since := 0, s_active := False, s_armed := False, s_active_since := 0,
            s_last_change := t, s_message := r_message_on_return r\<rparr>,
         if record_event \<and> s_armed s then WithEvent ''return'' else StateOnly)
      else if \<not> s_initialized s then (s\<lparr>s_initialized := True\<rparr>, Quiet)
      else if \<not> should \<and> s_pending s then
        (s\<lparr>s_pending := False, s_pending_since := 0, s_pending_record := False\<rparr>, Quiet)
      else (s, Quiet))"

definition update_alarm ::
    "alarm_env \<Rightarrow> int \<Rightarrow> json \<Rightarrow> bool \<Rightarrow> alarm_rule \<Rightarrow> alarm_state \<Rightarrow> alarm_state \<times> announcement" where
  "update_alarm e t value record_event r s0 =
     (let s = s0\<lparr>s_last_value := value\<rparr> in
      if \<not> r_site_enabled r then
        (let s1 = s\<lparr>s_initialized := False, s_site_enabled := False, s_pending := False, s_pending_since := 0\<rparr> in
         if s_active s1 then
           (s1\<lparr>s_active := False, s_armed := False, s_last_change := t, s_message := []\<rparr>, StateOnly)
         else (s1, Quiet))
      else
        (let s1 = s\<lparr>s_site_enabled := True\<rparr>;
             can_eval = (r_enabled r \<and> \<not> is_shelved t s1);
             s2 = (if can_eval then s1 else s1\<lparr>s_pending := False, s_pending_since := 0\<rparr>)
         in settle_alarm t record_event r (can_eval \<and> condition_met e r (s_active s2) value) s2))"

text \<open>The timer: a pending alarm whose condition has lasted is raised.\<close>

definition timer_alarm :: "int \<Rightarrow> alarm_rule option \<Rightarrow> alarm_state \<Rightarrow> alarm_state \<times> announcement" where
  "timer_alarm t rule s =
     (if \<not> s_pending s \<or> s_active s \<or> s_delay s \<le> 0 then (s, Quiet)
      else let dropped = s\<lparr>s_pending := False, s_pending_record := False, s_pending_since := 0\<rparr> in
        case rule of
          None \<Rightarrow> (dropped, Quiet)
        | Some r \<Rightarrow>
            if \<not> r_enabled r \<or> \<not> r_site_enabled r \<or> is_shelved t s then (dropped, Quiet)
            else if t - s_pending_since s < s_delay s then (s, Quiet)
            else (dropped\<lparr>s_active := True, s_acked := False, s_armed := s_pending_record s, s_active_since := t,
                    s_last_change := t, s_message := shown_message r s\<rparr>,
                  if s_pending_record s then WithEvent ''active'' else StateOnly))"

section \<open>What is announced\<close>

definition jopt :: "string \<Rightarrow> json" where
  "jopt s = (if s = [] then JNull else JStr s)"

definition jstrs :: "string list \<Rightarrow> json" where
  "jstrs xs = JArr (map JStr xs)"

text \<open>The object's members in the order the code sets them; \<open>t\<close> is the clock when it is printed.\<close>

definition alarm_state_to_json :: "int \<Rightarrow> alarm_state \<Rightarrow> json" where
  "alarm_state_to_json t s = JObj [
     (''alarm_id'', JStr (s_id s)), (''name'', JStr (s_name s)), (''group'', JStr (s_group s)), (''site'', JStr (s_site s)),
     (''severity'', JInt (s_severity s)), (''enabled'', JBool (s_enabled s)), (''site_enabled'', JBool (s_site_enabled s)),
     (''active'', JBool (s_active s)), (''acked'', JBool (s_acked s)), (''return_notification_armed'', JBool (s_armed s)),
     (''pending'', JBool (s_pending s)), (''pending_since_ms'', JInt (if s_pending s then s_pending_since s else 0)),
     (''effective_delay_ms'', JInt (s_delay s)),
     (''pending_remaining_ms'', JInt (if s_pending s then max 0 (s_delay s - (t - s_pending_since s)) else 0)),
     (''shelved_until_ms'', case s_shelved_until s of None \<Rightarrow> JNull | Some u \<Rightarrow> JInt u),
     (''active_since_ms'', JInt (s_active_since s)), (''last_change_ms'', JInt (s_last_change s)),
     (''source'', JObj [(''connection_id'', JStr (s_connection s)), (''tag'', JStr (s_tag s))]),
     (''last_value'', s_last_value s), (''message'', JStr (s_message s)),
     (''message_on_active'', JStr (s_message_on_active s)), (''message_on_return'', JStr (s_message_on_return s)),
     (''audio_file'', jopt (s_audio_file s)), (''audio_path'', jopt (s_audio_path s)), (''speech_text'', jopt (s_speech_text s)),
     (''audio_files'', jstrs (s_audio_files s)), (''audio_paths'', jstrs (s_audio_paths s)), (''speech_texts'', jstrs (s_speech_texts s)),
     (''audio_gap_ms'', JInt (s_audio_gap_ms s)), (''audio_mode'', JStr (s_audio_mode s)),
     (''notification_policy'', jopt (s_policy s)), (''repeat_override'', JBool (s_repeat_override s)),
     (''repeat_ms'', JInt (s_repeat_ms s))]"

definition event_json :: "alarm_event \<Rightarrow> json" where
  "event_json ev = JObj ([
     (''event_id'', JStr (ae_id ev)), (''ts_ms'', JInt (ae_ts ev)), (''alarm_id'', JStr (ae_alarm ev)), (''type'', JStr (ae_type ev)),
     (''severity'', JInt (ae_severity ev)), (''group'', JStr (ae_group ev)), (''site'', JStr (ae_site ev)),
     (''source'', JObj [(''connection_id'', JStr (ae_connection ev)), (''tag'', JStr (ae_tag ev))]),
     (''value'', ae_value ev), (''message'', jopt (ae_message ev))] @
     (if ae_actor ev = [] then [] else [(''actor'', JStr (ae_actor ev))]) @
     (if ae_note ev = [] then [] else [(''note'', JStr (ae_note ev))]))"

definition broadcast :: "alarm_env \<Rightarrow> json \<Rightarrow> alarm_world \<Rightarrow> alarm_world" where
  "broadcast e j w = (if e_ws e then w\<lparr>w_sent := w_sent w @ [j]\<rparr> else w)"

definition new_event :: "alarm_env \<Rightarrow> int \<Rightarrow> alarm_state \<Rightarrow> string \<Rightarrow> json \<Rightarrow> string \<Rightarrow> string \<Rightarrow> alarm_world \<Rightarrow> alarm_event" where
  "new_event e t s type value actor note w =
     \<lparr>ae_id = ''evt_'' @ e_id e (length (w_log w)), ae_ts = t, ae_alarm = s_id s, ae_type = type, ae_severity = s_severity s,
      ae_group = s_group s, ae_site = s_site s, ae_connection = s_connection s, ae_tag = s_tag s, ae_value = value,
      ae_message = s_message s, ae_actor = actor, ae_note = note\<rparr>"

definition log_event :: "alarm_env \<Rightarrow> int \<Rightarrow> alarm_state \<Rightarrow> string \<Rightarrow> json \<Rightarrow> string \<Rightarrow> string \<Rightarrow> alarm_world \<Rightarrow> alarm_world" where
  "log_event e t s type value actor note w =
     (let ev = new_event e t s type value actor note w
      in broadcast e (JObj [(''type'', JStr ''alarm_event''), (''event'', event_json ev)]) (w\<lparr>w_log := w_log w @ [ev]\<rparr>))"

definition notify_event :: "alarm_state \<Rightarrow> string \<Rightarrow> alarm_world \<Rightarrow> alarm_world" where
  "notify_event s type w = w\<lparr>w_notified := w_notified w @ [(s, type)]\<rparr>"

definition broadcast_state :: "alarm_env \<Rightarrow> int \<Rightarrow> alarm_state \<Rightarrow> alarm_world \<Rightarrow> alarm_world" where
  "broadcast_state e t s =
     broadcast e (JObj [(''type'', JStr ''alarm_state''), (''ts_ms'', JInt t), (''alarm'', alarm_state_to_json t s)])"

text \<open>Store the new state of an alarm and announce it; the OPC UA nodes follow after the lock is released.\<close>

definition commit ::
    "alarm_env \<Rightarrow> int \<Rightarrow> string \<Rightarrow> alarm_state \<times> announcement \<Rightarrow> alarm_world \<times> alarm_state list \<Rightarrow> alarm_world \<times> alarm_state list" where
  "commit e t aid r wc =
     (case (r, wc) of ((s, a), (w, changed)) \<Rightarrow>
        let w1 = w\<lparr>w_states := (w_states w)(aid \<mapsto> s)\<rparr>; w2 = w1\<lparr>w_last_change := t\<rparr> in
        (case a of
           Quiet \<Rightarrow> (w1, changed)
         | StateOnly \<Rightarrow> (broadcast_state e t s w2, changed @ [s])
         | WithEvent type \<Rightarrow>
             (broadcast_state e t s (notify_event s type (log_event e t s type (s_last_value s) [] [] w2)), changed @ [s])))"

definition upsert_alarms :: "alarm_world \<times> alarm_state list \<Rightarrow> alarm_world" where
  "upsert_alarms wc = (case wc of (w, changed) \<Rightarrow> w\<lparr>w_ua := w_ua w @ changed\<rparr>)"

section \<open>Tag updates\<close>

definition tag_key :: "string \<Rightarrow> string \<Rightarrow> string" where
  "tag_key conn tag = conn @ '':'' @ tag"

definition alarms_of :: "alarm_world \<Rightarrow> string \<Rightarrow> string list" where
  "alarms_of w key = (case w_by_key w key of None \<Rightarrow> [] | Some ids \<Rightarrow> ids)"

definition drop_pending :: "string \<Rightarrow> alarm_world \<Rightarrow> alarm_world" where
  "drop_pending aid w =
     (case w_states w aid of None \<Rightarrow> w
      | Some s \<Rightarrow> w\<lparr>w_states := (w_states w)(aid \<mapsto> s\<lparr>s_pending := False, s_pending_record := False, s_pending_since := 0\<rparr>)\<rparr>)"

definition update_one ::
    "alarm_env \<Rightarrow> int \<Rightarrow> json \<Rightarrow> bool \<Rightarrow> string \<Rightarrow> alarm_world \<times> alarm_state list \<Rightarrow> alarm_world \<times> alarm_state list" where
  "update_one e t value record_event aid wc =
     (case (w_rules (fst wc) aid, w_states (fst wc) aid) of
        (Some r, Some s) \<Rightarrow> commit e t aid (update_alarm e t value record_event r s) wc
      | _ \<Rightarrow> wc)"

definition apply_tag_update ::
    "alarm_env \<Rightarrow> int \<Rightarrow> string \<Rightarrow> string \<Rightarrow> json \<Rightarrow> json \<Rightarrow> bool \<Rightarrow> alarm_world \<Rightarrow> alarm_world" where
  "apply_tag_update e t conn tag value quality record_event w0 =
     (let w = w0\<lparr>w_last_update := t\<rparr>; ids = alarms_of w (tag_key conn tag) in
      if normalize_quality quality = Some 0 then fold drop_pending ids w
      else upsert_alarms (fold (update_one e t value record_event) ids (w, [])))"

section \<open>The timer and the operators\<close>

text \<open>\<open>order\<close> is the order in which the hash map of states is walked.\<close>

definition timer_one ::
    "alarm_env \<Rightarrow> int \<Rightarrow> string \<Rightarrow> alarm_world \<times> alarm_state list \<Rightarrow> alarm_world \<times> alarm_state list" where
  "timer_one e t aid wc =
     (case w_states (fst wc) aid of None \<Rightarrow> wc
      | Some s \<Rightarrow> commit e t aid (timer_alarm t (w_rules (fst wc) (s_id s)) s) wc)"

definition process_pending_activations :: "alarm_env \<Rightarrow> int \<Rightarrow> string list \<Rightarrow> alarm_world \<Rightarrow> alarm_world" where
  "process_pending_activations e t order w = upsert_alarms (fold (timer_one e t) order (w, []))"

definition operator_step ::
    "alarm_env \<Rightarrow> int \<Rightarrow> string \<Rightarrow> (alarm_state \<Rightarrow> alarm_state) \<Rightarrow> (alarm_state \<Rightarrow> json) \<Rightarrow> string \<Rightarrow> string \<Rightarrow> string \<Rightarrow> alarm_world \<Rightarrow> bool \<times> alarm_world" where
  "operator_step e t aid f value type actor note w =
     (case w_states w aid of None \<Rightarrow> (False, w)
      | Some s0 \<Rightarrow>
          let s = (f s0)\<lparr>s_last_change := t\<rparr>;
              w1 = w\<lparr>w_states := (w_states w)(aid \<mapsto> s), w_last_change := t\<rparr>;
              w2 = broadcast_state e t s (notify_event s type (log_event e t s type (value s) actor note w1))
          in (True, w2\<lparr>w_ua := w_ua w2 @ [s]\<rparr>))"

definition ack :: "alarm_env \<Rightarrow> int \<Rightarrow> string \<Rightarrow> string \<Rightarrow> string \<Rightarrow> alarm_world \<Rightarrow> bool \<times> alarm_world" where
  "ack e t aid = operator_step e t aid (\<lambda>s. s\<lparr>s_acked := True\<rparr>) s_last_value ''ack''"

definition shelve :: "alarm_env \<Rightarrow> int \<Rightarrow> string \<Rightarrow> int \<Rightarrow> string \<Rightarrow> string \<Rightarrow> alarm_world \<Rightarrow> bool \<times> alarm_world" where
  "shelve e t aid until =
     operator_step e t aid (\<lambda>s. s\<lparr>s_shelved_until := Some until\<rparr>) (\<lambda>s. JObj [(''until_ms'', JInt until)]) ''shelve''"

definition unshelve :: "alarm_env \<Rightarrow> int \<Rightarrow> string \<Rightarrow> string \<Rightarrow> string \<Rightarrow> alarm_world \<Rightarrow> bool \<times> alarm_world" where
  "unshelve e t aid = operator_step e t aid (\<lambda>s. s\<lparr>s_shelved_until := None\<rparr>) s_last_value ''unshelve''"

section \<open>Queries\<close>

definition should_continue_notification :: "int \<Rightarrow> string \<Rightarrow> string \<Rightarrow> alarm_world \<Rightarrow> bool" where
  "should_continue_notification t aid until w =
     (case w_states w aid of None \<Rightarrow> False
      | Some s \<Rightarrow>
          if \<not> s_enabled s \<or> \<not> s_site_enabled s \<or> is_shelved t s then False
          else if until \<in> {''returned'', ''manual''} then s_active s
          else s_active s \<and> \<not> s_acked s)"

definition get_active :: "int \<Rightarrow> string list \<Rightarrow> bool \<Rightarrow> alarm_world \<Rightarrow> json" where
  "get_active t order only_unacked w =
     JArr (map (alarm_state_to_json t)
       (filter (\<lambda>s. s_enabled s \<and> s_active s \<and> \<not> (only_unacked \<and> s_acked s)) (List.map_filter (w_states w) order)))"

definition counts :: "int \<Rightarrow> string list \<Rightarrow> alarm_world \<Rightarrow> nat \<times> nat \<times> nat \<times> nat" where
  "counts t order w =
     (let ss = List.map_filter (w_states w) order; n = (\<lambda>P. length (filter P ss))
      in (n s_active, n (\<lambda>s. s_active s \<and> \<not> s_acked s), n (is_shelved t), n (\<lambda>s. \<not> s_enabled s)))"

definition subscription_keys :: "string list \<Rightarrow> alarm_world \<Rightarrow> string list" where
  "subscription_keys order w = filter (\<lambda>k. w_by_key w k \<noteq> None) order"

end
