(* ===== verification/AlarmConfig.thy ===== *)
theory AlarmConfig
  imports AlarmEngine
begin

text \<open>
  The alarm server's configuration (opcbridge-alarms/src/main.cpp): rules read from the local
  \<open>alarms.json\<close> (\<open>load\_rules\_from\_file\<close>) or from the gateway (\<open>fetch\_rules\_from\_opcbridge\<close>), the
  sound, the repetition and the site switch of a rule resolved along group and site, and the
  swap into the engine, which keeps the live state of an alarm only in the second case. Parsing
  the file and the HTTP exchange are the caller's; \<open>Inl\<close> is the exception a load ends with. What is handed
  to the notification manager is recorded.
\<close>

datatype config_error = ConfigJson json_error | NotAnObject | NoRules

definition cfield :: "(json \<Rightarrow> json_error + 'a) \<Rightarrow> json \<Rightarrow> string \<Rightarrow> 'a \<Rightarrow> config_error + 'a" where
  "cfield conv j k d = (case jvalue conv j k d of Inl err \<Rightarrow> Inl (ConfigJson err) | Inr a \<Rightarrow> Inr a)"

definition json_string_or_empty :: "json \<Rightarrow> string \<Rightarrow> string" where
  "json_string_or_empty j k = (case jfind j k of Some (JStr s) \<Rightarrow> s | _ \<Rightarrow> [])"

text \<open>The elements of an array member, if the member is an array.\<close>

definition array_at :: "json \<Rightarrow> string \<Rightarrow> json list option" where
  "array_at j k = (case jfind j k of Some (JArr xs) \<Rightarrow> Some xs | _ \<Rightarrow> None)"

definition named :: "string \<Rightarrow> json list \<Rightarrow> json option" where
  "named name xs = find (\<lambda>g. is_object g \<and> json_string_or_empty g ''name'' = name) xs"

text \<open>The first group of the rule's name, and in it the first site of the rule's name.\<close>

definition group_of :: "json \<Rightarrow> json \<Rightarrow> json option" where
  "group_of config rule =
     (case array_at config ''groups'' of None \<Rightarrow> None | Some gs \<Rightarrow> named (json_string_or_empty rule ''group'') gs)"

definition site_of :: "json \<Rightarrow> json \<Rightarrow> json option" where
  "site_of g rule =
     (if json_string_or_empty rule ''site'' = [] then None
      else case array_at g ''sites'' of None \<Rightarrow> None | Some ss \<Rightarrow> named (json_string_or_empty rule ''site'') ss)"

text \<open>The objects a setting is looked up in, the later ones overriding.\<close>

definition scopes :: "json \<Rightarrow> json \<Rightarrow> json list" where
  "scopes config rule =
     (case group_of config rule of None \<Rightarrow> []
      | Some g \<Rightarrow> g # (case site_of g rule of None \<Rightarrow> [] | Some s \<Rightarrow> [s])) @ [rule]"

section \<open>Sound\<close>

record alarm_audio =
  au_file :: string
  au_path :: string
  au_speech :: string
  au_files :: "string list"
  au_paths :: "string list"
  au_speeches :: "string list"
  au_gap :: int
  au_mode :: string

definition new_audio :: alarm_audio where
  "new_audio = \<lparr>au_file = [], au_path = [], au_speech = [], au_files = [], au_paths = [], au_speeches = [],
     au_gap = - 1, au_mode = ''audio_then_speech''\<rparr>"

definition append_audio_file :: "string list \<Rightarrow> string \<Rightarrow> string list" where
  "append_audio_file files f = (if f = [] then files else files @ [f])"

definition join_path :: "string \<Rightarrow> string \<Rightarrow> string" where
  "join_path a b =
     (if a = [] then b else if b = [] then a else if hd b = CHR ''/'' then b
      else if last a = CHR ''/'' then a @ b else a @ ''/'' @ b)"

definition dirname_of :: "string \<Rightarrow> string" where
  "dirname_of p =
     (if CHR ''/'' \<notin> set p then ''.''
      else let d = butlast (rev (dropWhile (\<lambda>c. c \<noteq> CHR ''/'') (rev p))) in if d = [] then ''/'' else d)"

definition resolve_audio_path :: "string \<Rightarrow> string \<Rightarrow> string" where
  "resolve_audio_path dir p =
     (if p = [] then [] else if hd p = CHR ''/'' then p
      else if take 6 p = ''audio/'' then join_path dir p else join_path (join_path dir ''audio'') p)"

definition audio_modes :: "string set" where
  "audio_modes = {''audio_only'', ''speech_only'', ''audio_then_speech'', ''speech_then_audio''}"

fun string_elements :: "json list \<Rightarrow> string list" where
  "string_elements [] = []"
| "string_elements (JStr s # xs) = (if s = [] then string_elements xs else s # string_elements xs)"
| "string_elements (x # xs) = string_elements xs"

text \<open>One scope's settings over those collected so far.\<close>

definition apply_audio_scope :: "json \<Rightarrow> alarm_audio \<Rightarrow> alarm_audio" where
  "apply_audio_scope j a =
     (if \<not> is_object j then a
      else
        let a1 = (case jfind j ''audio_gap_ms'' of Some (JInt n) \<Rightarrow> a\<lparr>au_gap := max 0 (min 5000 (to_int32 n))\<rparr> | _ \<Rightarrow> a);
            a2 = (case jfind j ''audio_mode'' of Some (JStr m) \<Rightarrow> if m \<in> audio_modes then a1\<lparr>au_mode := m\<rparr> else a1 | _ \<Rightarrow> a1);
            f = json_string_or_empty j ''audio_file''; list = array_at j ''audio_files'';
            a3 = (if f = [] then a2
                  else a2\<lparr>au_file := f, au_files := (if list = None then append_audio_file (au_files a2) f else au_files a2)\<rparr>);
            a4 = (case list of None \<Rightarrow> a3
                  | Some xs \<Rightarrow> let fs = string_elements xs in
                      a3\<lparr>au_files := au_files a3 @ fs,
                         au_file := (if au_file a3 = [] \<and> fs \<noteq> [] then hd fs else au_file a3)\<rparr>);
            t = json_string_or_empty j ''speech_text'';
            a5 = (if t = [] then a4 else a4\<lparr>au_speech := t, au_speeches := append_audio_file (au_speeches a4) t\<rparr>)
        in (case array_at j ''speech_texts'' of None \<Rightarrow> a5
            | Some xs \<Rightarrow> let ts = string_elements xs in
                a5\<lparr>au_speeches := au_speeches a5 @ ts,
                   au_speech := (if au_speech a5 = [] \<and> ts \<noteq> [] then hd ts else au_speech a5)\<rparr>))"

text \<open>The configured path of each sound; a later entry of the same id replaces an earlier one.\<close>

fun audio_files_of :: "json list \<Rightarrow> string \<rightharpoonup> string" where
  "audio_files_of [] = Map.empty"
| "audio_files_of (f # fs) =
     (let fid = json_string_or_empty f ''id''; p = json_string_or_empty f ''path'' in
      if \<not> is_object f \<or> fid = [] \<or> audio_files_of fs fid \<noteq> None then audio_files_of fs
      else (audio_files_of fs)(fid \<mapsto> if p = [] then fid else p))"

definition default_audio :: "json \<Rightarrow> alarm_audio" where
  "default_audio audio =
     (let a1 = (case jfind audio ''default_file'' of
                  Some (JStr f) \<Rightarrow> new_audio\<lparr>au_file := f, au_files := append_audio_file [] f\<rparr> | _ \<Rightarrow> new_audio)
      in (case jfind audio ''speech_text'' of
            Some (JStr t) \<Rightarrow> a1\<lparr>au_speech := t, au_speeches := append_audio_file [] t\<rparr> | _ \<Rightarrow> a1))"

definition mode_filter :: "alarm_audio \<Rightarrow> alarm_audio" where
  "mode_filter a =
     (if au_mode a = ''audio_only'' then a\<lparr>au_speech := [], au_speeches := []\<rparr>
      else if au_mode a = ''speech_only'' then a\<lparr>au_file := [], au_path := [], au_files := [], au_paths := []\<rparr>
      else a)"

definition resolve_alarm_audio :: "json \<Rightarrow> json \<Rightarrow> string \<Rightarrow> alarm_audio" where
  "resolve_alarm_audio config rule dir =
     (let audio = (case jfind config ''audio'' of Some (JObj kvs) \<Rightarrow> JObj kvs | _ \<Rightarrow> JObj []);
          paths = (case array_at audio ''files'' of None \<Rightarrow> Map.empty | Some fs \<Rightarrow> audio_files_of fs);
          a = mode_filter (fold apply_audio_scope (scopes config rule) (default_audio audio));
          path = (\<lambda>f. resolve_audio_path dir (case paths f of None \<Rightarrow> f | Some p \<Rightarrow> p))
      in a\<lparr>au_path := (if au_file a = [] then au_path a else path (au_file a)),
           au_paths := au_paths a @ map path (au_files a)\<rparr>)"

section \<open>Site switch and repetition\<close>

definition resolve_alarm_site_enabled :: "json \<Rightarrow> json \<Rightarrow> bool" where
  "resolve_alarm_site_enabled config rule =
     (if json_string_or_empty rule ''group'' = [] \<or> json_string_or_empty rule ''site'' = [] then True
      else case group_of config rule of None \<Rightarrow> True
        | Some g \<Rightarrow> (case site_of g rule of None \<Rightarrow> True
            | Some s \<Rightarrow> (case jfind s ''alarms_enabled'' of Some (JBool b) \<Rightarrow> b | _ \<Rightarrow> True)))"

definition apply_repeat :: "json \<Rightarrow> bool \<times> int \<Rightarrow> bool \<times> int" where
  "apply_repeat j r =
     (case jfind j ''repeat_ms'' of
        Some (JInt n) \<Rightarrow> (True, to_int64 n)
      | Some (JFloat d) \<Rightarrow> (True, dbl_to_int64 d)
      | _ \<Rightarrow> r)"

definition resolve_alarm_repeat :: "json \<Rightarrow> json \<Rightarrow> bool \<times> int" where
  "resolve_alarm_repeat config rule =
     (case fold apply_repeat (scopes config rule) (False, 0) of (ov, ms) \<Rightarrow> (ov, max 0 ms))"

section \<open>Rules\<close>

definition value_conditions :: "string set" where
  "value_conditions = {''equals'', ''not_equals'', ''contains'', ''not_contains''}"

definition limit_conditions :: "string set" where
  "limit_conditions = {''high'', ''low''}"

definition members :: "json \<Rightarrow> string list \<Rightarrow> (string \<times> json) list" where
  "members j ks = List.map_filter (\<lambda>k. map_option (Pair k) (jfind j k)) ks"

text \<open>An alarm of the gateway's own schema as a rule. The two loaders differ in what stands in for a
  missing name, so it is an argument.\<close>

definition legacy_condition :: "json \<Rightarrow> string \<Rightarrow> json" where
  "legacy_condition a ty = JObj ((''type'', JStr ty) #
     (if ty \<in> value_conditions then
        (case jfind a ''value'' of Some v \<Rightarrow> [(''value'', v)]
         | None \<Rightarrow> (case jfind a ''equals_value'' of Some v \<Rightarrow> [(''value'', v)]
             | None \<Rightarrow> (case jfind a ''threshold'' of Some v \<Rightarrow> [(''value'', v)] | None \<Rightarrow> [])))
      else if ty \<in> limit_conditions then members a [''threshold'', ''hysteresis''] else []))"

definition legacy_rule :: "(json \<Rightarrow> config_error + string) \<Rightarrow> json \<Rightarrow> config_error + json" where
  "legacy_rule default_name a =
     rbind (cfield get_string a ''type'' []) (\<lambda>ty.
     rbind (cfield get_string a ''id'' []) (\<lambda>aid.
     rbind (default_name a) (\<lambda>dn.
     rbind (cfield get_string a ''name'' dn) (\<lambda>nm.
     rbind (cfield get_bool a ''enabled'' True) (\<lambda>enabled.
     rbind (cfield get_int a ''severity'' 500) (\<lambda>severity.
     rbind (cfield get_string a ''message'' []) (\<lambda>msg0.
     rbind (cfield get_string a ''message_on_active'' msg0) (\<lambda>msg_on.
     rbind (cfield get_string a ''message_on_return'' []) (\<lambda>msg_off.
     rbind (cfield get_string a ''group'' []) (\<lambda>grp.
     rbind (cfield get_string a ''site'' []) (\<lambda>site.
     rbind (cfield get_string a ''connection_id'' []) (\<lambda>conn.
     rbind (cfield get_string a ''tag'' []) (\<lambda>tag0.
     rbind (cfield get_string a ''tag_name'' tag0) (\<lambda>tag.
       Inr (JObj ([(''id'', JStr aid), (''name'', JStr nm), (''enabled'', JBool enabled), (''severity'', JInt severity),
         (''message_on_active'', JStr msg_on), (''message_on_return'', JStr msg_off), (''group'', JStr grp), (''site'', JStr site)] @
         members a [''repeat_ms'', ''delay_ms'', ''audio_file'', ''speech_text'', ''audio_mode'', ''audio_gap_ms'',
           ''audio_files'', ''speech_texts''] @
         [(''source'', JObj [(''connection_id'', JStr conn), (''tag'', JStr tag)]), (''condition'', legacy_condition a ty)]))))))))))))))))"

definition name_of_file :: "json \<Rightarrow> config_error + string" where
  "name_of_file a =
     rbind (cfield get_string a ''id'' []) (\<lambda>aid. cfield get_string a ''description'' aid)"

definition name_of_gateway :: "json \<Rightarrow> config_error + string" where
  "name_of_gateway a = cfield get_string a ''id'' []"

fun legacy_rules :: "(json \<Rightarrow> config_error + string) \<Rightarrow> json list \<Rightarrow> config_error + json list" where
  "legacy_rules dn [] = Inr []"
| "legacy_rules dn (a # as) =
     (if \<not> is_object a then legacy_rules dn as
      else rbind (legacy_rule dn a) (\<lambda>r. rbind (legacy_rules dn as) (\<lambda>rs. Inr (r # rs))))"

text \<open>A non-empty \<open>rules\<close> array goes first, then \<open>alarms\<close>, then an empty \<open>rules\<close>.\<close>

definition rules_array :: "(json \<Rightarrow> config_error + string) \<Rightarrow> json list option \<Rightarrow> json \<Rightarrow> config_error + json list" where
  "rules_array dn missing config =
     (case (array_at config ''rules'', array_at config ''alarms'') of
        (Some (r # rs), _) \<Rightarrow> Inr (r # rs)
      | (_, Some as) \<Rightarrow> legacy_rules dn as
      | (Some [], None) \<Rightarrow> Inr []
      | (None, None) \<Rightarrow> (case missing of None \<Rightarrow> Inl NoRules | Some xs \<Rightarrow> Inr xs))"

definition object_at :: "json \<Rightarrow> string \<Rightarrow> json option" where
  "object_at j k = (case jfind j k of Some (JObj kvs) \<Rightarrow> Some (JObj kvs) | _ \<Rightarrow> None)"

text \<open>Type, value, threshold and hysteresis of a condition.\<close>

definition read_condition :: "json \<Rightarrow> config_error + string \<times> json \<times> dbl \<times> dbl" where
  "read_condition it =
     (case object_at it ''condition'' of
        None \<Rightarrow> Inr ([], JNull, DFin 0, DFin 0)
      | Some c \<Rightarrow>
          rbind (cfield get_string c ''type'' ''equals'') (\<lambda>ty.
            if ty \<in> value_conditions then Inr (ty, case jfind c ''value'' of None \<Rightarrow> JNull | Some v \<Rightarrow> v, DFin 0, DFin 0)
            else if ty \<in> limit_conditions then
              rbind (cfield get_double c ''threshold'' (DFin 0)) (\<lambda>th.
              rbind (cfield get_double c ''hysteresis'' (DFin 0)) (\<lambda>h. Inr (ty, JNull, th, h)))
            else Inr (ty, JNull, DFin 0, DFin 0)))"

definition read_source :: "json \<Rightarrow> config_error + string \<times> string" where
  "read_source it =
     (case object_at it ''source'' of
        None \<Rightarrow> Inr ([], [])
      | Some s \<Rightarrow>
          rbind (cfield get_string s ''connection_id'' []) (\<lambda>conn.
          rbind (cfield get_string s ''tag'' []) (\<lambda>tag. Inr (conn, tag))))"

definition read_rule :: "json \<Rightarrow> string \<Rightarrow> json \<Rightarrow> config_error + alarm_rule" where
  "read_rule config dir it =
     rbind (cfield get_string it ''id'' []) (\<lambda>aid.
     rbind (cfield get_string it ''name'' aid) (\<lambda>nm.
     rbind (cfield get_string it ''group'' []) (\<lambda>grp.
     rbind (cfield get_string it ''site'' []) (\<lambda>site.
     rbind (cfield get_bool it ''enabled'' True) (\<lambda>enabled.
     rbind (cfield get_int it ''severity'' 500) (\<lambda>severity.
     rbind (cfield get_long_long it ''delay_ms'' 0) (\<lambda>delay.
     rbind (read_source it) (\<lambda>(conn, tag).
     rbind (read_condition it) (\<lambda>(ty, v, th, h).
     rbind (cfield get_string it ''message_on_active'' []) (\<lambda>msg_on.
     rbind (cfield get_string it ''message_on_return'' []) (\<lambda>msg_off.
     rbind (cfield get_string it ''notification_policy'' []) (\<lambda>policy.
       let a = resolve_alarm_audio config it dir; rep = resolve_alarm_repeat config it in
       Inr \<lparr>r_id = aid, r_name = nm, r_group = grp, r_site = site, r_enabled = enabled,
         r_site_enabled = resolve_alarm_site_enabled config it, r_severity = severity, r_connection = conn, r_tag = tag,
         condition_type = ty, condition_value = v, threshold = th, hysteresis = h, r_delay_ms = max 0 delay,
         r_message_on_active = msg_on, r_message_on_return = msg_off, r_audio_file = au_file a, r_audio_path = au_path a,
         r_speech_text = au_speech a, r_audio_files = au_files a, r_audio_paths = au_paths a, r_speech_texts = au_speeches a,
         r_audio_gap_ms = au_gap a, r_audio_mode = au_mode a, r_policy = policy,
         r_repeat_override = fst rep, r_repeat_ms = snd rep\<rparr>))))))))))))"

definition rule_usable :: "alarm_rule \<Rightarrow> bool" where
  "rule_usable r \<longleftrightarrow> r_id r \<noteq> [] \<and> r_connection r \<noteq> [] \<and> r_tag r \<noteq> []"

fun read_rules :: "json \<Rightarrow> string \<Rightarrow> json list \<Rightarrow> config_error + alarm_rule list" where
  "read_rules config dir [] = Inr []"
| "read_rules config dir (it # its) =
     (if \<not> is_object it then read_rules config dir its
      else rbind (read_rule config dir it) (\<lambda>r.
           rbind (read_rules config dir its) (\<lambda>rs. Inr (if rule_usable r then r # rs else rs))))"

section \<open>The engine's tables\<close>

definition initial_state :: "int \<Rightarrow> alarm_rule \<Rightarrow> alarm_state" where
  "initial_state global_delay r =
     \<lparr>s_id = r_id r, s_name = r_name r, s_group = r_group r, s_site = r_site r, s_severity = r_severity r,
      s_enabled = r_enabled r, s_site_enabled = r_site_enabled r, s_active = False, s_acked = False, s_initialized = False,
      s_armed = False, s_pending = False, s_pending_record = False, s_pending_since = 0,
      s_delay = max global_delay (r_delay_ms r), s_shelved_until = None, s_active_since = 0, s_last_change = 0,
      s_connection = r_connection r, s_tag = r_tag r, s_last_value = JNull, s_message = [],
      s_message_on_active = r_message_on_active r, s_message_on_return = r_message_on_return r,
      s_audio_file = r_audio_file r, s_audio_path = r_audio_path r, s_speech_text = r_speech_text r,
      s_audio_files = r_audio_files r, s_audio_paths = r_audio_paths r, s_speech_texts = r_speech_texts r,
      s_audio_gap_ms = r_audio_gap_ms r, s_audio_mode = r_audio_mode r, s_policy = r_policy r,
      s_repeat_override = r_repeat_override r, s_repeat_ms = r_repeat_ms r\<rparr>"

record alarm_tables =
  at_rules :: "string \<rightharpoonup> alarm_rule"
  at_states :: "string \<rightharpoonup> alarm_state"
  at_by_key :: "string \<rightharpoonup> string list"

definition add_rule :: "int \<Rightarrow> alarm_rule \<Rightarrow> alarm_tables \<Rightarrow> alarm_tables" where
  "add_rule global_delay r tb =
     (let key = tag_key (r_connection r) (r_tag r); ids = (case at_by_key tb key of None \<Rightarrow> [] | Some xs \<Rightarrow> xs)
      in tb\<lparr>at_rules := (at_rules tb)(r_id r \<mapsto> r), at_states := (at_states tb)(r_id r \<mapsto> initial_state global_delay r),
            at_by_key := (at_by_key tb)(key \<mapsto> ids @ [r_id r])\<rparr>)"

definition alarm_tables_of :: "int \<Rightarrow> alarm_rule list \<Rightarrow> alarm_tables" where
  "alarm_tables_of global_delay rs =
     fold (add_rule global_delay) rs \<lparr>at_rules = Map.empty, at_states = Map.empty, at_by_key = Map.empty\<rparr>"

definition swap_tables :: "alarm_tables \<Rightarrow> int \<Rightarrow> alarm_world \<Rightarrow> alarm_world" where
  "swap_tables tb global_delay w =
     w\<lparr>w_rules := at_rules tb, w_states := at_states tb, w_by_key := at_by_key tb, w_global_delay := global_delay\<rparr>"

definition sync_alarms :: "string list \<Rightarrow> alarm_world \<Rightarrow> alarm_world" where
  "sync_alarms order w = w\<lparr>w_ua := w_ua w @ List.map_filter (w_states w) order\<rparr>"

definition read_delay :: "json \<Rightarrow> config_error + int" where
  "read_delay config = rbind (cfield get_long_long config ''alarm_delay_ms'' 0) (\<lambda>d. Inr (max 0 d))"

text \<open>\<open>load\_rules\_from\_file\<close>. Once the rules array is found the notification manager is configured,
  even when a rule then ends the load. The tables are new: no live state survives.\<close>

definition load_rules_from_file :: "string \<Rightarrow> string list \<Rightarrow> json \<Rightarrow> alarm_world \<Rightarrow> (config_error + unit) \<times> alarm_world" where
  "load_rules_from_file path order config w =
     (if \<not> is_object config then (Inl NotAnObject, w)
      else case rbind (read_delay config) (\<lambda>d. rbind (rules_array name_of_file None config) (\<lambda>its. Inr (d, its))) of
          Inl err \<Rightarrow> (Inl err, w)
        | Inr (d, its) \<Rightarrow>
            let w1 = w\<lparr>w_configured := w_configured w @ [config]\<rparr> in
            (case read_rules config (dirname_of path) its of
               Inl err \<Rightarrow> (Inl err, w1)
             | Inr rs \<Rightarrow> (Inr (), sync_alarms order (swap_tables (alarm_tables_of d rs) d w1))))"

section \<open>Rules from the gateway\<close>

text \<open>What is carried over from the alarm's state before the reload.\<close>

definition carry_over :: "alarm_state \<Rightarrow> alarm_state \<Rightarrow> alarm_state" where
  "carry_over prev s =
     s\<lparr>s_active := s_active prev, s_acked := s_acked prev, s_initialized := s_initialized prev, s_armed := s_armed prev,
       s_active_since := s_active_since prev, s_last_change := s_last_change prev, s_last_value := s_last_value prev,
       s_message := s_message prev, s_shelved_until := s_shelved_until prev, s_pending := s_pending prev,
       s_pending_record := s_pending_record prev, s_pending_since := s_pending_since prev\<rparr>"

definition carry_over_all :: "(string \<rightharpoonup> alarm_state) \<Rightarrow> alarm_tables \<Rightarrow> alarm_tables" where
  "carry_over_all old tb =
     tb\<lparr>at_states := (\<lambda>aid. case at_states tb aid of None \<Rightarrow> None
        | Some s \<Rightarrow> (case old aid of None \<Rightarrow> Some s | Some prev \<Rightarrow> Some (carry_over prev s)))\<rparr>"

text \<open>The response of the gateway, \<open>None\<close> when it did not answer with a JSON document and status 200.\<close>

definition unwrap_config :: "json \<Rightarrow> json" where
  "unwrap_config j =
     (case object_at j ''json'' of Some inner \<Rightarrow> if contains j ''rules'' \<or> contains j ''alarms'' then j else inner | None \<Rightarrow> j)"

datatype fetch_result = FetchFailed | FetchThrew | Unchanged | Reloaded

text \<open>The configuration out of the response with its modification time; a member of the wrong type throws.\<close>

definition gateway_config :: "json option \<Rightarrow> fetch_result + json \<times> int" where
  "gateway_config response =
     (case response of None \<Rightarrow> Inl FetchFailed
      | Some body \<Rightarrow>
          if \<not> is_object body then Inl FetchThrew
          else (case jvalue get_bool body ''ok'' False of
            Inl err \<Rightarrow> Inl FetchThrew
          | Inr False \<Rightarrow> (case jvalue get_string body ''error'' [] of Inl err \<Rightarrow> Inl FetchThrew | Inr msg \<Rightarrow> Inl FetchFailed)
          | Inr True \<Rightarrow>
              (case jfind body ''json'' of None \<Rightarrow> Inl FetchFailed
               | Some config \<Rightarrow> Inr (config, case jfind body ''mtime_ms'' of Some (JInt n) \<Rightarrow> to_int64 n | _ \<Rightarrow> - 1))))"

definition fetch_rules_from_opcbridge ::
    "alarm_env \<Rightarrow> string \<Rightarrow> string list \<Rightarrow> json option \<Rightarrow> alarm_world \<Rightarrow> fetch_result \<times> alarm_world" where
  "fetch_rules_from_opcbridge e dir order response w =
     (case gateway_config response of Inl r \<Rightarrow> (r, w)
      | Inr (config0, mtime) \<Rightarrow>
          if w_config_mtime w \<noteq> - 1 \<and> mtime \<noteq> - 1 \<and> mtime = w_config_mtime w then (Unchanged, w)
          else if \<not> is_object config0 then (FetchFailed, w)
          else
            let config = unwrap_config config0; hash = e_dump e config in
            if w_config_hash w \<noteq> [] \<and> w_config_hash w = hash then (Unchanged, w)
            else
              let w1 = w\<lparr>w_configured := w_configured w @ [config]\<rparr> in
              (case rbind (read_delay config) (\<lambda>d. rbind (rules_array name_of_gateway (Some []) config) (\<lambda>its.
                      rbind (read_rules config dir its) (\<lambda>rs. Inr (d, rs)))) of
                 Inl err \<Rightarrow> (FetchFailed, w1)
               | Inr (d, rs) \<Rightarrow>
                   (Reloaded, sync_alarms order
                      ((swap_tables (carry_over_all (w_states w1) (alarm_tables_of d rs)) d w1)
                         \<lparr>w_config_mtime := mtime, w_config_hash := hash\<rparr>))))"

end
