(* ===== verification/AlarmMachine.thy ===== *)
theory AlarmMachine
  imports AlarmConfig
begin

text \<open>
  The engine as a product of independent alarms: what a call does to one alarm depends on its
  rule and its own state only, and the events it logs are those of that alarm's machine. The
  well-formedness of the tables this needs is what loading rules with different ids gives.
\<close>

section \<open>Calls\<close>

datatype alarm_op =
    TagUpdate string string json json bool
  | Timer "string list"
  | Ack string string string
  | Shelve string int string string
  | Unshelve string string string

fun perform :: "alarm_env \<Rightarrow> int \<times> alarm_op \<Rightarrow> alarm_world \<Rightarrow> alarm_world" where
  "perform e (t, TagUpdate conn tag value quality record_event) w = apply_tag_update e t conn tag value quality record_event w"
| "perform e (t, Timer order) w = process_pending_activations e t order w"
| "perform e (t, Ack aid actor note) w = snd (ack e t aid actor note w)"
| "perform e (t, Shelve aid until actor note) w = snd (shelve e t aid until actor note w)"
| "perform e (t, Unshelve aid actor note) w = snd (unshelve e t aid actor note w)"

definition rule_key :: "alarm_rule \<Rightarrow> string" where
  "rule_key r = tag_key (r_connection r) (r_tag r)"

definition engine_wf :: "alarm_world \<Rightarrow> bool" where
  "engine_wf w \<longleftrightarrow>
     dom (w_states w) = dom (w_rules w) \<and> (\<forall>aid s. w_states w aid = Some s \<longrightarrow> s_id s = aid) \<and>
     (\<forall>key. distinct (alarms_of w key)) \<and>
     (\<forall>key aid. aid \<in> set (alarms_of w key) \<longleftrightarrow> (\<exists>r. w_rules w aid = Some r \<and> rule_key r = key))"

text \<open>The timer walks all alarms, each once.\<close>

fun op_ok :: "alarm_world \<Rightarrow> int \<times> alarm_op \<Rightarrow> bool" where
  "op_ok w (t, Timer order) \<longleftrightarrow> distinct order \<and> set order = dom (w_states w)"
| "op_ok w _ \<longleftrightarrow> True"

section \<open>One alarm on its own\<close>

definition state_event :: "int \<Rightarrow> alarm_state \<Rightarrow> string \<Rightarrow> json \<Rightarrow> string \<Rightarrow> string \<Rightarrow> alarm_event" where
  "state_event t s type value actor note =
     \<lparr>ae_id = [], ae_ts = t, ae_alarm = s_id s, ae_type = type, ae_severity = s_severity s, ae_group = s_group s,
      ae_site = s_site s, ae_connection = s_connection s, ae_tag = s_tag s, ae_value = value, ae_message = s_message s,
      ae_actor = actor, ae_note = note\<rparr>"

definition announced :: "int \<Rightarrow> alarm_state \<times> announcement \<Rightarrow> alarm_event list" where
  "announced t r = (case r of (s, WithEvent type) \<Rightarrow> [state_event t s type (s_last_value s) [] []] | _ \<Rightarrow> [])"

fun alarm_sem :: "alarm_env \<Rightarrow> int \<times> alarm_op \<Rightarrow> alarm_rule \<Rightarrow> alarm_state \<Rightarrow> alarm_state \<times> alarm_event list" where
  "alarm_sem e (t, TagUpdate conn tag value quality record_event) r s =
     (if tag_key conn tag \<noteq> rule_key r then (s, [])
      else if normalize_quality quality = Some 0 then (s\<lparr>s_pending := False, s_pending_record := False, s_pending_since := 0\<rparr>, [])
      else let q = update_alarm e t value record_event r s in (fst q, announced t q))"
| "alarm_sem e (t, Timer order) r s = (let q = timer_alarm t (Some r) s in (fst q, announced t q))"
| "alarm_sem e (t, Ack aid actor note) r s =
     (if s_id s \<noteq> aid then (s, [])
      else let s' = s\<lparr>s_acked := True, s_last_change := t\<rparr> in (s', [state_event t s' ''ack'' (s_last_value s') actor note]))"
| "alarm_sem e (t, Shelve aid until actor note) r s =
     (if s_id s \<noteq> aid then (s, [])
      else let s' = s\<lparr>s_shelved_until := Some until, s_last_change := t\<rparr>
        in (s', [state_event t s' ''shelve'' (JObj [(''until_ms'', JInt until)]) actor note]))"
| "alarm_sem e (t, Unshelve aid actor note) r s =
     (if s_id s \<noteq> aid then (s, [])
      else let s' = s\<lparr>s_shelved_until := None, s_last_change := t\<rparr> in (s', [state_event t s' ''unshelve'' (s_last_value s') actor note]))"

text \<open>What the log holds of one alarm; the random ids do not matter.\<close>

definition events_of :: "string \<Rightarrow> alarm_world \<Rightarrow> alarm_event list" where
  "events_of aid w = map (\<lambda>ev. ev\<lparr>ae_id := []\<rparr>) (filter (\<lambda>ev. ae_alarm ev = aid) (w_log w))"

section \<open>The parts a call leaves alone\<close>

named_theorems alarm_frames \<open>fields of the engine that its building blocks keep\<close>

lemma broadcast_frames [alarm_frames]:
  "w_rules (broadcast e j w) = w_rules w" "w_states (broadcast e j w) = w_states w"
  "w_by_key (broadcast e j w) = w_by_key w" "w_log (broadcast e j w) = w_log w"
  by (simp_all add: broadcast_def)

lemma log_event_frames [alarm_frames]:
  "w_rules (log_event e t s k v a n w) = w_rules w" "w_states (log_event e t s k v a n w) = w_states w"
  "w_by_key (log_event e t s k v a n w) = w_by_key w"
  "w_log (log_event e t s k v a n w) = w_log w @ [new_event e t s k v a n w]"
  by (simp_all add: log_event_def Let_def alarm_frames)

lemma announce_frames [alarm_frames]:
  "w_rules (broadcast_state e t s w) = w_rules w" "w_states (broadcast_state e t s w) = w_states w"
  "w_by_key (broadcast_state e t s w) = w_by_key w" "w_log (broadcast_state e t s w) = w_log w"
  "w_rules (notify_event s k w) = w_rules w" "w_states (notify_event s k w) = w_states w"
  "w_by_key (notify_event s k w) = w_by_key w" "w_log (notify_event s k w) = w_log w"
  by (simp_all add: broadcast_state_def notify_event_def alarm_frames)

lemma new_event_of:
  "ae_alarm (new_event e t s k v a n w) = s_id s" "(new_event e t s k v a n w)\<lparr>ae_id := []\<rparr> = state_event t s k v a n"
  by (simp_all add: new_event_def state_event_def)

lemma commit_frames [alarm_frames]:
  "w_rules (fst (commit e t aid r wc)) = w_rules (fst wc)" "w_by_key (fst (commit e t aid r wc)) = w_by_key (fst wc)"
  "w_states (fst (commit e t aid r wc)) = (w_states (fst wc))(aid \<mapsto> fst r)"
  by (auto simp: commit_def Let_def alarm_frames split: prod.splits announcement.splits)

lemma commit_events [alarm_frames]:
  "events_of x (fst (commit e t aid r wc)) = events_of x (fst wc) @ (if s_id (fst r) = x then announced t r else [])"
  by (auto simp: commit_def Let_def events_of_def alarm_frames announced_def new_event_of split: prod.splits announcement.splits)

section \<open>A walk over distinct alarms\<close>

definition commit_each ::
    "alarm_env \<Rightarrow> int \<Rightarrow> (string \<Rightarrow> alarm_state \<Rightarrow> (alarm_state \<times> announcement) option) \<Rightarrow> string \<Rightarrow>
     alarm_world \<times> alarm_state list \<Rightarrow> alarm_world \<times> alarm_state list" where
  "commit_each e t g aid wc =
     (case w_states (fst wc) aid of None \<Rightarrow> wc
      | Some s \<Rightarrow> (case g aid s of None \<Rightarrow> wc | Some r \<Rightarrow> commit e t aid r wc))"

text \<open>What the walk makes of the alarm \<open>x\<close>.\<close>

definition walked :: "(string \<Rightarrow> alarm_state \<Rightarrow> (alarm_state \<times> announcement) option) \<Rightarrow> string list \<Rightarrow> string \<Rightarrow> alarm_state \<Rightarrow>
    (alarm_state \<times> announcement) option" where
  "walked g ids x s = (if x \<in> set ids then g x s else None)"

lemma commit_each_frames [alarm_frames]:
  "w_rules (fst (commit_each e t g aid wc)) = w_rules (fst wc)" "w_by_key (fst (commit_each e t g aid wc)) = w_by_key (fst wc)"
  by (simp_all add: commit_each_def alarm_frames split: option.splits)

lemma walk_frames [alarm_frames]:
  "w_rules (fst (fold (commit_each e t g) ids wc)) = w_rules (fst wc)"
  "w_by_key (fst (fold (commit_each e t g) ids wc)) = w_by_key (fst wc)"
  by (induction ids arbitrary: wc) (simp_all add: alarm_frames)

lemma walk_states:
  assumes "distinct ids"
  shows "w_states (fst (fold (commit_each e t g) ids wc)) x =
    (case w_states (fst wc) x of None \<Rightarrow> None
     | Some s \<Rightarrow> (case walked g ids x s of None \<Rightarrow> Some s | Some r \<Rightarrow> Some (fst r)))"
  using assms
proof (induction ids arbitrary: wc)
  case (Cons aid ids)
  have "w_states (fst (commit_each e t g aid wc)) x =
    (if x = aid then (case w_states (fst wc) x of None \<Rightarrow> None
       | Some s \<Rightarrow> (case g x s of None \<Rightarrow> Some s | Some r \<Rightarrow> Some (fst r))) else w_states (fst wc) x)"
    by (simp add: commit_each_def alarm_frames split: option.splits)
  then show ?case using Cons by (auto simp: walked_def split: option.splits)
qed (simp add: walked_def split: option.splits)

definition ids_ok :: "alarm_world \<Rightarrow> bool" where
  "ids_ok w \<longleftrightarrow> (\<forall>aid s. w_states w aid = Some s \<longrightarrow> s_id s = aid)"

definition keeps_id :: "(string \<Rightarrow> alarm_state \<Rightarrow> (alarm_state \<times> announcement) option) \<Rightarrow> bool" where
  "keeps_id g \<longleftrightarrow> (\<forall>aid s r. g aid s = Some r \<longrightarrow> s_id (fst r) = s_id s)"

lemma commit_each_ids_ok: "ids_ok (fst wc) \<Longrightarrow> keeps_id g \<Longrightarrow> ids_ok (fst (commit_each e t g aid wc))"
  by (auto simp: ids_ok_def keeps_id_def commit_each_def alarm_frames split: option.splits)

lemma commit_each_events:
  assumes "ids_ok (fst wc)" "keeps_id g"
  shows "events_of x (fst (commit_each e t g aid wc)) = events_of x (fst wc) @
    (if x = aid then (case w_states (fst wc) x of None \<Rightarrow> [] | Some s \<Rightarrow> (case g x s of None \<Rightarrow> [] | Some r \<Rightarrow> announced t r)) else [])"
proof (cases "w_states (fst wc) aid")
  case (Some s)
  then have "s_id s = aid" using assms(1) by (simp add: ids_ok_def)
  moreover have "s_id (fst r) = s_id s" if "g aid s = Some r" for r using assms(2) that unfolding keeps_id_def by blast
  ultimately show ?thesis using Some by (cases "g aid s") (auto simp: commit_each_def alarm_frames)
qed (simp add: commit_each_def)

lemma walk_events:
  assumes "distinct ids" "ids_ok (fst wc)" "keeps_id g"
  shows "events_of x (fst (fold (commit_each e t g) ids wc)) = events_of x (fst wc) @
    (case w_states (fst wc) x of None \<Rightarrow> []
     | Some s \<Rightarrow> (case walked g ids x s of None \<Rightarrow> [] | Some r \<Rightarrow> announced t r))"
  using assms
proof (induction ids arbitrary: wc)
  case (Cons aid ids)
  have "x \<noteq> aid \<Longrightarrow> w_states (fst (commit_each e t g aid wc)) x = w_states (fst wc) x"
    by (simp add: commit_each_def alarm_frames split: option.splits)
  then show ?case
    using Cons commit_each_ids_ok [OF Cons.prems(2,3)] commit_each_events [OF Cons.prems(2,3), of x e t aid]
    by (auto simp: walked_def split: option.splits)
qed (simp add: walked_def split: option.splits)

section \<open>Each call is a walk\<close>

lemma update_alarm_id: "s_id (fst (update_alarm e t v rec r s)) = s_id s"
  by (simp add: update_alarm_def settle_alarm_def raise_alarm_def Let_def)

lemma update_alarm_idD: "update_alarm e t v rec r s = (s', a) \<Longrightarrow> s_id s' = s_id s"
  by (metis fst_conv update_alarm_id)

lemma timer_alarm_id: "s_id (fst (timer_alarm t r s)) = s_id s"
  by (simp add: timer_alarm_def Let_def split: option.splits)

lemma update_is_walk:
  assumes "w_rules (fst wc) = rs"
  shows "fold (update_one e t v rec) ids wc =
    fold (commit_each e t (\<lambda>aid s. map_option (\<lambda>r. update_alarm e t v rec r s) (rs aid))) ids wc"
  using assms
proof (induction ids arbitrary: wc)
  case (Cons aid ids)
  have "update_one e t v rec aid wc = commit_each e t (\<lambda>aid s. map_option (\<lambda>r. update_alarm e t v rec r s) (rs aid)) aid wc"
    using Cons.prems by (auto simp: update_one_def commit_each_def split: option.splits)
  then show ?case using Cons by (simp add: alarm_frames)
qed simp

lemma timer_is_walk:
  assumes "w_rules (fst wc) = rs"
  shows "fold (timer_one e t) ids wc = fold (commit_each e t (\<lambda>aid s. Some (timer_alarm t (rs (s_id s)) s))) ids wc"
  using assms
proof (induction ids arbitrary: wc)
  case (Cons aid ids)
  have "timer_one e t aid wc = commit_each e t (\<lambda>aid s. Some (timer_alarm t (rs (s_id s)) s)) aid wc"
    using Cons.prems by (auto simp: timer_one_def commit_each_def split: option.splits)
  then show ?case using Cons by (simp add: alarm_frames)
qed simp

lemma upsert_frames [alarm_frames]:
  "w_rules (upsert_alarms wc) = w_rules (fst wc)" "w_states (upsert_alarms wc) = w_states (fst wc)"
  "w_by_key (upsert_alarms wc) = w_by_key (fst wc)" "w_log (upsert_alarms wc) = w_log (fst wc)"
  by (simp_all add: upsert_alarms_def split: prod.splits)

lemma upsert_events [alarm_frames]: "events_of x (upsert_alarms wc) = events_of x (fst wc)"
  by (simp add: events_of_def alarm_frames)

lemma drop_pending_frames [alarm_frames]:
  "w_rules (fold drop_pending ids w) = w_rules w" "w_by_key (fold drop_pending ids w) = w_by_key w"
  "w_log (fold drop_pending ids w) = w_log w"
  by (induction ids arbitrary: w) (simp_all add: drop_pending_def split: option.splits)

lemma drop_pending_states:
  "w_states (fold drop_pending ids w) x =
     (if x \<in> set ids then map_option (\<lambda>s. s\<lparr>s_pending := False, s_pending_record := False, s_pending_since := 0\<rparr>) (w_states w x)
      else w_states w x)"
proof (induction ids arbitrary: w)
  case (Cons aid ids)
  then show ?case by (cases "w_states w aid"; cases "w_states w x") (auto simp: drop_pending_def)
qed simp

lemma operator_frames:
  fixes t :: int
  assumes "w_states w aid = Some s" "s_id s = aid" "s_id (f s) = aid"
  defines "s' \<equiv> (f s)\<lparr>s_last_change := t\<rparr>"
  shows "w_rules (snd (operator_step e t aid f v k actor nt w)) = w_rules w"
    "w_by_key (snd (operator_step e t aid f v k actor nt w)) = w_by_key w"
    "w_states (snd (operator_step e t aid f v k actor nt w)) = (w_states w)(aid \<mapsto> s')"
    "events_of x (snd (operator_step e t aid f v k actor nt w)) =
       events_of x w @ (if x = aid then [state_event t s' k (v s') actor nt] else [])"
  using assms by (auto simp: operator_step_def Let_def events_of_def alarm_frames new_event_of)

lemma operator_one:
  assumes "ids_ok w" "w_states w x = Some s" "\<And>s. s_id (f s) = s_id s"
  shows "w_states (snd (operator_step e t aid f v k actor nt w)) x = Some (if x = aid then (f s)\<lparr>s_last_change := t\<rparr> else s) \<and>
    events_of x (snd (operator_step e t aid f v k actor nt w)) = events_of x w @
      (if x = aid then [state_event t ((f s)\<lparr>s_last_change := t\<rparr>) k (v ((f s)\<lparr>s_last_change := t\<rparr>)) actor nt] else [])"
proof (cases "w_states w aid")
  case None
  then have "x \<noteq> aid" using assms(2) by auto
  then show ?thesis using None assms(2) by (simp add: operator_step_def)
next
  case (Some s1)
  then have "s_id s1 = aid" using assms(1) by (simp add: ids_ok_def)
  then show ?thesis using operator_frames [OF Some _, of f] Some assms(2,3) by auto
qed

text \<open>One call, seen from one alarm.\<close>

lemma perform_one:
  assumes wf: "engine_wf w" and ok: "op_ok w op" and s: "w_states w x = Some s" and r: "w_rules w x = Some r"
  shows "w_states (perform e op w) x = Some (fst (alarm_sem e op r s)) \<and>
    events_of x (perform e op w) = events_of x w @ snd (alarm_sem e op r s)"
proof -
  obtain t c where op: "op = (t, c)" by (cases op)
  have ids: "ids_ok w" and sx: "s_id s = x" using wf s by (auto simp: engine_wf_def ids_ok_def)
  show ?thesis
  proof (cases c)
    case (TagUpdate conn tag v q rec)
    let ?w = "w\<lparr>w_last_update := t\<rparr>"
    let ?ids = "alarms_of ?w (tag_key conn tag)"
    let ?g = "\<lambda>aid s. map_option (\<lambda>r. update_alarm e t v rec r s) (w_rules w aid)"
    have same: "alarms_of ?w = alarms_of w" "events_of x ?w = events_of x w" by (auto simp: alarms_of_def events_of_def)
    have mem: "x \<in> set ?ids \<longleftrightarrow> tag_key conn tag = rule_key r" using wf r by (auto simp: engine_wf_def same)
    have g: "keeps_id ?g" by (auto simp: keeps_id_def dest: update_alarm_idD)
    have d: "distinct ?ids" using wf by (simp add: engine_wf_def same)
    have i: "ids_ok (fst (?w, [] :: alarm_state list))" using ids by (simp add: ids_ok_def)
    show ?thesis
    proof (cases "normalize_quality q = Some 0")
      case True
      have "events_of x (fold drop_pending ids ?w) = events_of x w" for ids
        by (simp add: events_of_def alarm_frames)
      then show ?thesis using True s mem
        by (simp add: op TagUpdate apply_tag_update_def Let_def drop_pending_states)
    next
      case False
      have p: "perform e op w = upsert_alarms (fold (commit_each e t ?g) ?ids (?w, []))"
        using False update_is_walk [of "(?w, [])" "w_rules w" e t v rec ?ids] by (simp add: op TagUpdate apply_tag_update_def Let_def)
      show ?thesis unfolding p
        using walk_states [OF d, of e t ?g "(?w, [])" x] walk_events [OF d i g, of x e t] s r mem False
        by (auto simp: op TagUpdate alarm_frames walked_def same Let_def)
    qed
  next
    case (Timer order)
    let ?g = "\<lambda>aid s. Some (timer_alarm t (w_rules w (s_id s)) s)"
    have d: "distinct order" "x \<in> set order" using ok s by (auto simp: op Timer)
    have g: "keeps_id ?g" by (simp add: keeps_id_def) (metis fst_conv timer_alarm_id)
    have p: "perform e op w = upsert_alarms (fold (commit_each e t ?g) order (w, []))"
      using timer_is_walk [of "(w, [])" "w_rules w" e t order] by (simp add: op Timer process_pending_activations_def)
    show ?thesis unfolding p
      using walk_states [OF d(1), of e t ?g "(w, [])" x] walk_events [OF d(1) _ g, of "(w, [])" x e t] ids s r sx d(2)
      by (simp add: op Timer alarm_frames walked_def Let_def)
  next
    case (Ack aid actor nt)
  then show ?thesis using operator_one [OF ids s] sx by (simp add: op ack_def Let_def)
next
  case (Shelve aid until actor nt)
  then show ?thesis using operator_one [OF ids s] sx by (simp add: op shelve_def Let_def)
next
  case (Unshelve aid actor nt)
  then show ?thesis using operator_one [OF ids s] sx by (simp add: op unshelve_def Let_def)
qed
qed

section \<open>Histories\<close>

definition run_engine :: "alarm_env \<Rightarrow> (int \<times> alarm_op) list \<Rightarrow> alarm_world \<Rightarrow> alarm_world" where
  "run_engine e ops w = fold (perform e) ops w"

fun run_alarm :: "alarm_env \<Rightarrow> (int \<times> alarm_op) list \<Rightarrow> alarm_rule \<Rightarrow> alarm_state \<Rightarrow> alarm_state \<times> alarm_event list" where
  "run_alarm e [] r s = (s, [])"
| "run_alarm e (op # ops) r s =
     (case alarm_sem e op r s of (s1, ev1) \<Rightarrow> case run_alarm e ops r s1 of (s2, ev2) \<Rightarrow> (s2, ev1 @ ev2))"

declare run_alarm.simps(2) [simp del]

lemma run_alarm_Cons [simp]:
  "fst (run_alarm e (op # ops) r s) = fst (run_alarm e ops r (fst (alarm_sem e op r s)))"
  "snd (run_alarm e (op # ops) r s) = snd (alarm_sem e op r s) @ snd (run_alarm e ops r (fst (alarm_sem e op r s)))"
  by (simp_all add: run_alarm.simps(2) split: prod.splits)

lemma run_alarm_append:
  "fst (run_alarm e (ops @ ops') r s) = fst (run_alarm e ops' r (fst (run_alarm e ops r s)))"
  "snd (run_alarm e (ops @ ops') r s) = snd (run_alarm e ops r s) @ snd (run_alarm e ops' r (fst (run_alarm e ops r s)))"
  by (induction ops arbitrary: s) simp_all

lemma operator_tables [alarm_frames]:
  "w_rules (snd (operator_step e t aid f v k actor nt w)) = w_rules w"
  "w_by_key (snd (operator_step e t aid f v k actor nt w)) = w_by_key w"
  by (simp_all add: operator_step_def Let_def alarm_frames split: option.splits)

lemma perform_tables: "w_rules (perform e op w) = w_rules w" "w_by_key (perform e op w) = w_by_key w"
  by (induction e op w rule: perform.induct)
    (simp_all add: apply_tag_update_def process_pending_activations_def ack_def shelve_def unshelve_def Let_def alarm_frames
      update_is_walk [OF refl] timer_is_walk [OF refl])

lemma operator_none: "w_states w x = None \<Longrightarrow> w_states (snd (operator_step e t aid f v k actor nt w)) x = None"
  by (auto simp: operator_step_def Let_def alarm_frames split: option.splits)

lemma walk_none: "w_states (fst wc) x = None \<Longrightarrow> w_states (fst (fold (commit_each e t g) ids wc)) x = None"
proof (induction ids arbitrary: wc)
  case (Cons aid ids)
  have "w_states (fst (commit_each e t g aid wc)) x = None"
    using Cons.prems by (auto simp: commit_each_def alarm_frames split: option.splits)
  then show ?case using Cons.IH by simp
qed simp

lemma perform_none: "w_states w x = None \<Longrightarrow> w_states (perform e op w) x = None"
  by (induction e op w rule: perform.induct)
    (simp_all add: apply_tag_update_def process_pending_activations_def ack_def shelve_def unshelve_def Let_def alarm_frames
      update_is_walk [OF refl] timer_is_walk [OF refl] walk_none operator_none drop_pending_states)

lemma alarm_sem_id: "s_id (fst (alarm_sem e op r s)) = s_id s"
  by (induction e op r s rule: alarm_sem.induct) (simp_all add: update_alarm_id timer_alarm_id Let_def)

lemma perform_wf:
  assumes "engine_wf w" "op_ok w op"
  shows "engine_wf (perform e op w)" "dom (w_states (perform e op w)) = dom (w_states w)"
proof -
  have d: "dom (w_states w) = dom (w_rules w)" and i: "\<And>aid s. w_states w aid = Some s \<Longrightarrow> s_id s = aid"
    using assms(1) by (auto simp: engine_wf_def)
  have st: "w_states (perform e op w) x = (case (w_states w x, w_rules w x) of
      (Some s, Some r) \<Rightarrow> Some (fst (alarm_sem e op r s)) | _ \<Rightarrow> None)" for x
    using perform_one [OF assms, of x] perform_none [of w x e op] d by (cases "w_states w x"; cases "w_rules w x") auto
  show dom: "dom (w_states (perform e op w)) = dom (w_states w)"
  proof (rule set_eqI)
    fix x show "x \<in> dom (w_states (perform e op w)) \<longleftrightarrow> x \<in> dom (w_states w)"
      using st [of x] d by (cases "w_states w x"; cases "w_rules w x") auto
  qed
  have "s_id s = aid" if "w_states (perform e op w) aid = Some s" for aid s
    using that st [of aid] i [of aid] by (auto simp: alarm_sem_id split: option.splits)
  then show "engine_wf (perform e op w)"
    using assms(1) dom by (simp add: engine_wf_def perform_tables alarms_of_def)
qed

lemma op_ok_cong: "dom (w_states w') = dom (w_states w) \<Longrightarrow> op_ok w' op = op_ok w op"
  by (induction w op rule: op_ok.induct) simp_all

lemma run_engine_one:
  assumes "engine_wf w" "list_all (op_ok w) ops" "w_states w x = Some s" "w_rules w x = Some r"
  shows "engine_wf (run_engine e ops w) \<and> w_rules (run_engine e ops w) = w_rules w \<and>
    dom (w_states (run_engine e ops w)) = dom (w_states w) \<and>
    w_states (run_engine e ops w) x = Some (fst (run_alarm e ops r s)) \<and>
    events_of x (run_engine e ops w) = events_of x w @ snd (run_alarm e ops r s)"
  using assms
proof (induction ops arbitrary: w s)
  case (Cons op ops)
  have ok: "op_ok w op" using Cons.prems by simp
  note one = perform_one [OF Cons.prems(1) ok Cons.prems(3,4)] and wf = perform_wf [OF Cons.prems(1) ok, of e]
  have "list_all (op_ok (perform e op w)) ops"
    using Cons.prems(2) op_ok_cong [OF wf(2)] by (simp add: list_all_iff)
  then show ?case
    using Cons.IH [OF wf(1)] one Cons.prems(4) wf(2)
    by (auto simp: run_engine_def perform_tables split: prod.splits)
qed (simp add: run_engine_def)

section \<open>Loading gives well-formed tables\<close>

lemma tables_of_fold:
  fixes d :: int
  assumes "distinct (map r_id rs)" "\<forall>r\<in>set rs. at_rules tb (r_id r) = None"
    and "\<forall>key. distinct (case at_by_key tb key of None \<Rightarrow> [] | Some ids \<Rightarrow> ids)"
    and "\<forall>key aid. aid \<in> set (case at_by_key tb key of None \<Rightarrow> [] | Some ids \<Rightarrow> ids) \<longleftrightarrow>
      (\<exists>r. at_rules tb aid = Some r \<and> rule_key r = key)"
    and "dom (at_states tb) = dom (at_rules tb)" "\<forall>aid s. at_states tb aid = Some s \<longrightarrow> s_id s = aid"
  defines "out \<equiv> fold (add_rule d) rs tb"
  shows "(\<forall>key. distinct (case at_by_key out key of None \<Rightarrow> [] | Some ids \<Rightarrow> ids)) \<and>
    (\<forall>key aid. aid \<in> set (case at_by_key out key of None \<Rightarrow> [] | Some ids \<Rightarrow> ids) \<longleftrightarrow>
      (\<exists>r. at_rules out aid = Some r \<and> rule_key r = key)) \<and>
    dom (at_states out) = dom (at_rules out) \<and> (\<forall>aid s. at_states out aid = Some s \<longrightarrow> s_id s = aid) \<and>
    (\<forall>r\<in>set rs. at_rules out (r_id r) = Some r \<and> at_states out (r_id r) = Some (initial_state d r)) \<and>
    (\<forall>aid. aid \<notin> r_id ` set rs \<longrightarrow> at_rules out aid = at_rules tb aid \<and> at_states out aid = at_states tb aid)"
  using assms(1-6) unfolding out_def
proof (induction rs arbitrary: tb)
  case (Cons r rs)
  let ?ids = "\<lambda>tb key. case at_by_key tb key of None \<Rightarrow> [] | Some ids \<Rightarrow> ids"
  let ?tb = "add_rule d r tb"
  have parts: "at_rules ?tb = (at_rules tb)(r_id r \<mapsto> r)" "at_states ?tb = (at_states tb)(r_id r \<mapsto> initial_state d r)"
    "\<And>key. ?ids ?tb key = (if key = rule_key r then ?ids tb key @ [r_id r] else ?ids tb key)"
    by (auto simp: add_rule_def Let_def rule_key_def)
  have new: "at_rules tb (r_id r) = None" "\<And>key. r_id r \<notin> set (?ids tb key)" using Cons.prems(2,4) by auto
  have a: "distinct (map r_id rs)" "\<forall>q\<in>set rs. at_rules ?tb (r_id q) = None"
    using Cons.prems(1,2) by (auto simp: parts image_iff)
  have b: "\<forall>key. distinct (?ids ?tb key)" using Cons.prems(3) new by (simp add: parts)
  have c: "\<forall>key aid. aid \<in> set (?ids ?tb key) \<longleftrightarrow> (\<exists>q. at_rules ?tb aid = Some q \<and> rule_key q = key)"
    using Cons.prems(4) new by (auto simp: parts)
  have d': "dom (at_states ?tb) = dom (at_rules ?tb)" "\<forall>aid s. at_states ?tb aid = Some s \<longrightarrow> s_id s = aid"
    using Cons.prems(5,6) by (simp_all add: parts initial_state_def)
  have out: "r_id r \<notin> r_id ` set rs" using Cons.prems(1) by auto
  show ?case using Cons.IH [OF a b c d'] out by (auto simp: parts(1,2))
qed auto

lemma loaded_engine:
  fixes d :: int and w :: alarm_world
  assumes "distinct (map r_id rs)"
  defines "w' \<equiv> swap_tables (alarm_tables_of d rs) d w"
  shows "engine_wf w'" "r \<in> set rs \<Longrightarrow> w_rules w' (r_id r) = Some r \<and> w_states w' (r_id r) = Some (initial_state d r)"
    "dom (w_states w') = r_id ` set rs" "w_log w' = w_log w"
proof -
  note f = tables_of_fold [OF assms(1), of "\<lparr>at_rules = Map.empty, at_states = Map.empty, at_by_key = Map.empty\<rparr>" d]
  show "engine_wf w'" "r \<in> set rs \<Longrightarrow> w_rules w' (r_id r) = Some r \<and> w_states w' (r_id r) = Some (initial_state d r)"
    "w_log w' = w_log w"
    using f by (simp_all add: w'_def swap_tables_def engine_wf_def alarms_of_def alarm_tables_of_def)
  show "dom (w_states w') = r_id ` set rs"
    using f by (force simp: w'_def swap_tables_def alarm_tables_of_def)
qed

text \<open>
  C4. The alarms of an engine do not interfere. For an engine loaded with rules of different ids, whatever
  updates, timer runs and operator calls follow, each alarm is in the state its own machine reaches
  by itself on these calls, and the events logged of it are those of its machine, in order: a
  tag with many alarms, a duplicate update or an operator's call on one alarm changes no other.
\<close>

theorem engine_is_product_of_alarms:
  fixes d :: int and w :: alarm_world
  assumes "distinct (map r_id rs)" "r \<in> set rs"
  defines "w0 \<equiv> swap_tables (alarm_tables_of d rs) d w"
  assumes "list_all (op_ok w0) ops"
  shows "w_states (run_engine e ops w0) (r_id r) = Some (fst (run_alarm e ops r (initial_state d r))) \<and>
    events_of (r_id r) (run_engine e ops w0) = events_of (r_id r) w @ snd (run_alarm e ops r (initial_state d r))"
proof -
  note l = loaded_engine [OF assms(1), where d = d and w = w, folded w0_def]
  have "events_of (r_id r) w0 = events_of (r_id r) w" by (simp add: events_of_def l(4))
  then show ?thesis using run_engine_one [OF l(1) assms(4), of "r_id r" _ r e] l(2) [OF assms(2)] by auto
qed

section \<open>A sample engine\<close>

definition sample_env :: alarm_env where
  "sample_env = \<lparr>e_dump = (\<lambda>j. []), e_id = (\<lambda>n. []), e_stored = (\<lambda>ev. True), e_ws = True\<rparr>"

definition sample_rule :: alarm_rule where
  "sample_rule = \<lparr>r_id = ''hot'', r_name = ''Hot'', r_group = [], r_site = [], r_enabled = True, r_site_enabled = True,
     r_severity = 500, r_connection = ''plc1'', r_tag = ''Temp'', condition_type = ''high'', condition_value = JNull,
     threshold = DFin 80, hysteresis = DFin 5, r_delay_ms = 1000, r_message_on_active = [], r_message_on_return = [],
     r_audio_file = [], r_audio_path = [], r_speech_text = [], r_audio_files = [], r_audio_paths = [], r_speech_texts = [],
     r_audio_gap_ms = - 1, r_audio_mode = ''audio_then_speech'', r_policy = [], r_repeat_override = False, r_repeat_ms = 0\<rparr>"

definition empty_world :: alarm_world where
  "empty_world = \<lparr>w_rules = Map.empty, w_states = Map.empty, w_by_key = Map.empty, w_global_delay = 0, w_last_update = 0,
     w_last_change = 0, w_log = [], w_notified = [], w_sent = [], w_ua = [], w_configured = [], w_config_mtime = - 1,
     w_config_hash = []\<rparr>"

definition sample_engine :: alarm_world where
  "sample_engine = swap_tables (alarm_tables_of 0 [sample_rule]) 0 empty_world"

lemma sample_engine_ids: "dom (w_states sample_engine) = {''hot''}"
  using loaded_engine(3) [of "[sample_rule]" 0 empty_world] by (simp add: sample_engine_def sample_rule_def)

theorem engine_is_product_of_alarms_witness:
  "let ops = [(5, TagUpdate ''plc1'' ''Temp'' (JFloat (DFin 90)) JNull True), (1005, Timer [''hot''])] in
   w_states (run_engine sample_env ops sample_engine) ''hot'' =
     Some (fst (run_alarm sample_env ops sample_rule (initial_state 0 sample_rule)))"
proof -
  note d = sample_engine_ids
  show ?thesis
    using engine_is_product_of_alarms [of "[sample_rule]" sample_rule 0 empty_world
        "[(5, TagUpdate ''plc1'' ''Temp'' (JFloat (DFin 90)) JNull True), (1005, Timer [''hot''])]" sample_env] d
    by (simp add: sample_engine_def [symmetric]) (simp add: sample_rule_def)
qed

lemma sample_engine_one:
  assumes "list_all (op_ok sample_engine) ops"
  shows "w_states (run_engine sample_env ops sample_engine) ''hot'' =
      Some (fst (run_alarm sample_env ops sample_rule (initial_state 0 sample_rule)))"
    "events_of ''hot'' (run_engine sample_env ops sample_engine) =
      snd (run_alarm sample_env ops sample_rule (initial_state 0 sample_rule))"
proof -
  have d: "distinct (map r_id [sample_rule])" and r: "sample_rule \<in> set [sample_rule]" and i: "r_id sample_rule = ''hot''"
    by (simp_all add: sample_rule_def)
  note l = loaded_engine [OF d, where d = 0 and w = empty_world, folded sample_engine_def]
  have "events_of ''hot'' sample_engine = []" by (simp add: events_of_def l(4)) (simp add: empty_world_def)
  then show "w_states (run_engine sample_env ops sample_engine) ''hot'' =
      Some (fst (run_alarm sample_env ops sample_rule (initial_state 0 sample_rule)))"
    "events_of ''hot'' (run_engine sample_env ops sample_engine) =
      snd (run_alarm sample_env ops sample_rule (initial_state 0 sample_rule))"
    using run_engine_one [OF l(1) assms, of "''hot''" _ sample_rule sample_env] l(2) [OF r] i by auto
qed

end
