(* ===== verification/AlarmBehaviour.thy ===== *)
theory AlarmBehaviour
  imports AlarmMachine
begin

text \<open>
  What the alarm server promises of an alarm: a delayed alarm is raised only when its condition has lasted, a
  return is announced only after an announced activation, and a value inside the hysteresis
  band changes nothing. Each is proved of the single alarm and carried to the engine by the
  product theorem of the previous theory.
\<close>

named_theorems alarm_steps \<open>an alarm's step unfolded\<close>

lemmas [alarm_steps] = update_alarm_def settle_alarm_def timer_alarm_def raise_alarm_def state_event_def announced_def Let_def

section \<open>A delayed alarm\<close>

text \<open>The call is an update of the alarm's tag.\<close>

fun concerns :: "alarm_rule \<Rightarrow> int \<times> alarm_op \<Rightarrow> bool" where
  "concerns r (t, TagUpdate conn tag v q rec) \<longleftrightarrow> tag_key conn tag = rule_key r"
| "concerns r _ \<longleftrightarrow> False"

text \<open>The call does not show the condition to have gone: it is no update of the tag, or one of good quality
  with a value that meets it.\<close>

fun condition_holds :: "alarm_env \<Rightarrow> alarm_rule \<Rightarrow> int \<times> alarm_op \<Rightarrow> bool" where
  "condition_holds e r (t, TagUpdate conn tag v q rec) \<longleftrightarrow>
     tag_key conn tag = rule_key r \<longrightarrow> normalize_quality q \<noteq> Some 0 \<and> condition_met e r False v"
| "condition_holds e r _ \<longleftrightarrow> True"

text \<open>The condition has lasted from time \<open>t0\<close>, the time of an update that met it, to the end of the history.\<close>

definition lasted_since :: "alarm_env \<Rightarrow> alarm_rule \<Rightarrow> (int \<times> alarm_op) list \<Rightarrow> int \<Rightarrow> bool" where
  "lasted_since e r ops t0 \<longleftrightarrow>
     (\<exists>pre op post. ops = pre @ op # post \<and> fst op = t0 \<and> concerns r op \<and> list_all (condition_holds e r) (op # post))"

definition pending_ok :: "alarm_env \<Rightarrow> alarm_rule \<Rightarrow> (int \<times> alarm_op) list \<Rightarrow> alarm_state \<Rightarrow> bool" where
  "pending_ok e r ops s \<longleftrightarrow>
     s_pending s \<longrightarrow> \<not> s_active s \<and> s_initialized s \<and> 0 < s_delay s \<and> lasted_since e r ops (s_pending_since s)"

lemma lasted_more: "lasted_since e r ops t0 \<Longrightarrow> condition_holds e r op \<Longrightarrow> lasted_since e r (ops @ [op]) t0"
proof -
  assume "lasted_since e r ops t0" and h: "condition_holds e r op"
  then obtain pre o1 post where "ops = pre @ o1 # post" "fst o1 = t0" "concerns r o1" "list_all (condition_holds e r) (o1 # post)"
    unfolding lasted_since_def by blast
  then show ?thesis unfolding lasted_since_def using h by (intro exI [of _ pre] exI [of _ o1] exI [of _ "post @ [op]"]) simp
qed

lemma lasted_new: "concerns r op \<Longrightarrow> condition_holds e r op \<Longrightarrow> lasted_since e r (ops @ [op]) (fst op)"
  unfolding lasted_since_def by (intro exI [of _ ops] exI [of _ op] exI [of _ "[]"]) simp

lemma pending_ok_step: "pending_ok e r ops s \<Longrightarrow> pending_ok e r (ops @ [op]) (fst (alarm_sem e op r s))"
proof (induction e op r s rule: alarm_sem.induct)
  case (1 e t conn tag v q rec r s)
  let ?op = "(t, TagUpdate conn tag v q rec)"
  show ?case
  proof (cases "tag_key conn tag = rule_key r \<and> normalize_quality q \<noteq> Some 0")
    case False
    then show ?thesis using 1 lasted_more [of e r ops _ ?op] by (auto simp: pending_ok_def)
  next
    case True
    have met: "condition_met e r False v \<Longrightarrow> condition_holds e r ?op" using True by simp
    show ?thesis
      using 1 True lasted_more [OF _ met] lasted_new [OF _ met, of ops]
      by (auto simp: pending_ok_def alarm_steps split: if_splits)
  qed
next
  case (2 e t order r s)
  then show ?case using lasted_more [of e r ops _ "(t, Timer order)"]
    by (auto simp: pending_ok_def alarm_steps)
qed (auto simp: pending_ok_def Let_def intro: lasted_more)

lemma pending_ok_run: "pending_ok e r pre s \<Longrightarrow> pending_ok e r (pre @ ops) (fst (run_alarm e ops r s))"
proof (induction ops arbitrary: pre s)
  case (Cons op ops)
  then show ?case using Cons.IH [OF pending_ok_step [OF Cons.prems, of op]] by simp
qed simp

lemma alarm_sem_delay: "s_delay (fst (alarm_sem e op r s)) = s_delay s"
  by (induction e op r s rule: alarm_sem.induct) (simp_all add: alarm_steps)

lemma run_alarm_delay: "s_delay (fst (run_alarm e ops r s)) = s_delay s"
  by (induction ops arbitrary: s) (simp_all add: alarm_sem_delay)

text \<open>A call that raises an alarm with a delay is a run of the timer, and the alarm has waited.\<close>

lemma delayed_activation:
  assumes "0 < s_delay s" "\<not> s_active s" "s_active (fst (alarm_sem e (t, c) r s))"
  shows "(\<exists>order. c = Timer order) \<and> s_pending s \<and> s_delay s \<le> t - s_pending_since s \<and>
    r_enabled r \<and> r_site_enabled r \<and> \<not> is_shelved t s"
  using assms by (cases c) (auto simp: alarm_steps split: if_splits)

text \<open>
  C5. An alarm with a delay is raised only by the timer, and only when its condition has lasted: in any
  history from a fresh load, when a call at time t makes the alarm active, there is an update of
  its tag at least the delay earlier that met the condition, every later update of the tag was
  of good quality and met it too, and the alarm is enabled and not shelved.
\<close>

theorem delayed_alarm_needs_lasting_condition:
  fixes d :: int and w :: alarm_world
  assumes "distinct (map r_id rs)" "r \<in> set rs" "0 < max d (r_delay_ms r)"
  defines "w0 \<equiv> swap_tables (alarm_tables_of d rs) d w"
  assumes "list_all (op_ok w0) (ops @ [(t, c)])"
    and "w_states (run_engine e ops w0) (r_id r) = Some s" "\<not> s_active s"
    and "w_states (run_engine e (ops @ [(t, c)]) w0) (r_id r) = Some s'" "s_active s'"
  shows "(\<exists>order. c = Timer order) \<and> r_enabled r \<and> r_site_enabled r \<and> \<not> is_shelved t s \<and>
    (\<exists>t0. t0 + max d (r_delay_ms r) \<le> t \<and> lasted_since e r ops t0)"
proof -
  note l = loaded_engine [OF assms(1), where d = d and w = w, folded w0_def]
  have ok: "list_all (op_ok w0) ops" using assms(5) by simp
  note st = l(2) [OF assms(2)]
  have s: "s = fst (run_alarm e ops r (initial_state d r))"
    using run_engine_one [OF l(1) ok, of "r_id r" _ r e] st assms(6) by auto
  have s': "s' = fst (alarm_sem e (t, c) r s)"
    using run_engine_one [OF l(1) assms(5), of "r_id r" _ r e] st assms(8) s
    by (auto simp: run_alarm_append)
  have delay: "s_delay s = max d (r_delay_ms r)" by (simp add: s run_alarm_delay initial_state_def)
  have "pending_ok e r ops s"
    using pending_ok_run [of e r "[]" "initial_state d r" ops] by (simp add: s pending_ok_def initial_state_def)
  then show ?thesis
    using delayed_activation [of s e t c r] delay assms(3,7,9) s' by (force simp: pending_ok_def)
qed

text \<open>An alarm pending since 5 that the timer raises at 1005.\<close>

definition pending_history :: "(int \<times> alarm_op) list" where
  "pending_history = [(5, TagUpdate ''plc1'' ''Temp'' (JFloat (DFin 90)) JNull True)]"

lemma pending_history_ok: "list_all (op_ok sample_engine) (pending_history @ [(1005, Timer [''hot''])])"
  by (simp add: pending_history_def sample_engine_ids)

lemmas sample_steps = sample_rule_def sample_env_def initial_state_def rule_key_def tag_key_def normalize_quality_def
  condition_met_def coerce_number_def is_shelved_def shown_message_def alarm_steps

theorem delayed_alarm_needs_lasting_condition_witness:
  "\<exists>t0. t0 + 1000 \<le> 1005 \<and> lasted_since sample_env sample_rule pending_history t0"
proof -
  have d: "distinct (map r_id [sample_rule])" and r: "sample_rule \<in> set [sample_rule]" by simp_all
  have delay: "max 0 (r_delay_ms sample_rule) = 1000" and i: "r_id sample_rule = ''hot''" by (simp_all add: sample_rule_def)
  have w: "swap_tables (alarm_tables_of 0 [sample_rule]) 0 empty_world = sample_engine" by (simp add: sample_engine_def)
  have h: "list_all (op_ok sample_engine) pending_history" using pending_history_ok by simp
  let ?s = "fst (run_alarm sample_env pending_history sample_rule (initial_state 0 sample_rule))"
  let ?s' = "fst (run_alarm sample_env (pending_history @ [(1005, Timer [''hot''])]) sample_rule (initial_state 0 sample_rule))"
  have a: "\<not> s_active ?s" "s_active ?s'"
    by (simp_all add: pending_history_def sample_steps)
  show ?thesis
    using delayed_alarm_needs_lasting_condition [OF d r, where d = 0 and w = empty_world and ops = pending_history and t = 1005
        and c = "Timer [''hot'']" and e = sample_env and s = ?s and s' = ?s', unfolded w i delay]
      pending_history_ok sample_engine_one(1) [OF h] sample_engine_one(1) [OF pending_history_ok] a
    by auto
qed

section \<open>Returns follow activations\<close>

fun returns_paired :: "bool \<Rightarrow> string list \<Rightarrow> bool" where
  "returns_paired active_seen [] \<longleftrightarrow> True"
| "returns_paired active_seen (k # ks) \<longleftrightarrow>
     (if k = ''active'' then returns_paired True ks
      else if k = ''return'' then active_seen \<and> returns_paired False ks
      else returns_paired active_seen ks)"

text \<open>An armed alarm has announced its activation and no return since.\<close>

lemma update_announces:
  assumes "s_armed s \<Longrightarrow> s_active s" "update_alarm e t v rec r s = (s', a)"
  shows "a \<in> {Quiet, StateOnly} \<and> (s_armed s' \<longrightarrow> s_active s' \<and> s_armed s) \<or> a = WithEvent ''active'' \<and> s_active s' \<or>
    a = WithEvent ''return'' \<and> s_armed s \<and> \<not> s_armed s'"
  using assms by (auto simp: alarm_steps split: if_splits)

lemma timer_announces:
  assumes "s_armed s \<Longrightarrow> s_active s" "timer_alarm t (Some r) s = (s', a)"
  shows "a \<in> {Quiet, StateOnly} \<and> (s_armed s' \<longrightarrow> s_active s' \<and> s_armed s) \<or> a = WithEvent ''active'' \<and> s_active s'"
  using assms by (auto simp: alarm_steps split: if_splits)

lemma alarm_announces:
  assumes "s_armed s \<Longrightarrow> s_active s"
  defines "q \<equiv> \<lambda>e op r. alarm_sem e op r s"
  shows "(\<forall>ev\<in>set (snd (q e op r)). ae_type ev \<notin> {''active'', ''return''}) \<and>
      (s_armed (fst (q e op r)) \<longrightarrow> s_active (fst (q e op r)) \<and> s_armed s) \<or>
    map ae_type (snd (q e op r)) = [''active''] \<and> s_active (fst (q e op r)) \<or>
    map ae_type (snd (q e op r)) = [''return''] \<and> s_armed s \<and> \<not> s_armed (fst (q e op r))"
proof (cases op)
  case (Pair t c)
  show ?thesis
  proof (cases c)
    case (TagUpdate conn tag v qu rec)
    obtain s' a where u: "update_alarm e t v rec r s = (s', a)" by (cases "update_alarm e t v rec r s")
    show ?thesis
      using update_announces [OF assms(1) u] assms(1)
      by (cases a) (auto simp: q_def Pair TagUpdate u Let_def announced_def state_event_def)
  next
    case (Timer order)
    obtain s' a where u: "timer_alarm t (Some r) s = (s', a)" by (cases "timer_alarm t (Some r) s")
    show ?thesis
      using timer_announces [OF assms(1) u] assms(1)
      by (cases a) (auto simp: q_def Pair Timer u Let_def announced_def state_event_def)
  qed (use assms(1) in \<open>auto simp: q_def Pair Let_def state_event_def\<close>)
qed

lemma returns_paired_other:
  "\<forall>k\<in>set ks. k \<notin> {''active'', ''return''} \<Longrightarrow> returns_paired seen (ks @ ks') = returns_paired seen ks'"
  by (induction ks) auto

lemma returns_paired_run:
  assumes "s_armed s \<Longrightarrow> s_active s \<and> seen"
  shows "returns_paired seen (map ae_type (snd (run_alarm e ops r s)))"
  using assms
proof (induction ops arbitrary: s seen)
  case (Cons op ops)
  let ?s = "fst (alarm_sem e op r s)" and ?ks = "map ae_type (snd (alarm_sem e op r s))"
  consider "\<forall>k\<in>set ?ks. k \<notin> {''active'', ''return''}" "s_armed ?s \<longrightarrow> s_active ?s \<and> s_armed s"
    | "?ks = [''active'']" "s_active ?s" | "?ks = [''return'']" "s_armed s" "\<not> s_armed ?s"
    using alarm_announces [of s e op r] Cons.prems by auto
  then show ?case
  proof cases
    case 1
    then show ?thesis using Cons.IH [of ?s seen] Cons.prems returns_paired_other [of ?ks] by simp
  next
    case 2
    then show ?thesis using Cons.IH [of ?s True] by simp
  next
    case 3
    then show ?thesis using Cons.IH [of ?s False] Cons.prems by simp
  qed
qed simp

text \<open>
  A return is never announced without an activation. In the log of any history from a fresh load, every
  return of an alarm follows an activation of it with no other return in between: alarms that
  became active silently, as the state found at startup, also return silently.
\<close>

theorem returns_follow_activations:
  fixes d :: int and w :: alarm_world
  assumes "distinct (map r_id rs)" "r \<in> set rs" "w_log w = []"
  defines "w0 \<equiv> swap_tables (alarm_tables_of d rs) d w"
  assumes "list_all (op_ok w0) ops"
  shows "returns_paired False (map ae_type (events_of (r_id r) (run_engine e ops w0)))"
proof -
  note l = loaded_engine [OF assms(1), where d = d and w = w, folded w0_def]
  have "events_of (r_id r) w0 = []" by (simp add: events_of_def l(4) assms(3))
  then have "events_of (r_id r) (run_engine e ops w0) = snd (run_alarm e ops r (initial_state d r))"
    using run_engine_one [OF l(1) assms(5), of "r_id r" _ r e] l(2) [OF assms(2)] by auto
  then show ?thesis using returns_paired_run [of "initial_state d r" False e ops r] by (simp add: initial_state_def)
qed

theorem returns_follow_activations_witness:
  "returns_paired False (map ae_type (events_of ''hot'' (run_engine sample_env (pending_history @ [(1005, Timer [''hot''])]) sample_engine)))"
  using returns_follow_activations [of "[sample_rule]" sample_rule empty_world 0 "pending_history @ [(1005, Timer [''hot''])]" sample_env]
    pending_history_ok
  by (simp add: sample_engine_def [symmetric]) (simp add: empty_world_def sample_rule_def)

section \<open>The hysteresis band\<close>

text \<open>A call that neither shelves nor shows a value at or beyond the limits.\<close>

fun in_band :: "alarm_rule \<Rightarrow> int \<times> alarm_op \<Rightarrow> bool" where
  "in_band r (t, TagUpdate conn tag v q rec) \<longleftrightarrow>
     tag_key conn tag = rule_key r \<and> normalize_quality q \<noteq> Some 0 \<longrightarrow>
       (case coerce_number v of None \<Rightarrow> False
        | Some x \<Rightarrow> if condition_type r = ''high'' then dlt (dsub (threshold r) (hysteresis r)) x \<and> dlt x (threshold r)
                   else dlt (threshold r) x \<and> dlt x (dadd (threshold r) (hysteresis r)))"
| "in_band r (t, Shelve aid until actor nt) \<longleftrightarrow> aid \<noteq> r_id r"
| "in_band r _ \<longleftrightarrow> True"

lemma band_condition:
  assumes "condition_type r = ''high'' \<or> condition_type r = ''low''" "coerce_number v = Some x"
    and "if condition_type r = ''high'' then dlt (dsub (threshold r) (hysteresis r)) x \<and> dlt x (threshold r)
      else dlt (threshold r) x \<and> dlt x (dadd (threshold r) (hysteresis r))"
  shows "condition_met e r act v \<longleftrightarrow> act"
proof -
  have no: "dlt a b \<Longrightarrow> \<not> dle b a" for a b
    by (cases a; cases b) (auto simp: dle_def)
  show ?thesis using assms no by (auto simp: condition_met_def split: if_splits)
qed

lemma band_step:
  fixes e :: alarm_env
  assumes "condition_type r = ''high'' \<or> condition_type r = ''low''" "r_enabled r" "r_site_enabled r" "s_id s = r_id r"
    and "\<not> s_pending s" "s_shelved_until s = None" "in_band r op"
  defines "s' \<equiv> fst (alarm_sem e op r s)"
  shows "s_active s' = s_active s \<and> \<not> s_pending s' \<and> s_shelved_until s' = None \<and>
    (\<forall>ev\<in>set (snd (alarm_sem e op r s)). ae_type ev \<notin> {''active'', ''return''})"
proof (cases op)
  case (Pair t c)
  show ?thesis
  proof (cases "\<exists>conn tag v q rec. c = TagUpdate conn tag v q rec \<and> tag_key conn tag = rule_key r \<and> normalize_quality q \<noteq> Some 0")
    case True
    then obtain conn tag v q rec where c: "c = TagUpdate conn tag v q rec" "tag_key conn tag = rule_key r" "normalize_quality q \<noteq> Some 0"
      by blast
    then obtain x where x: "coerce_number v = Some x"
      "if condition_type r = ''high'' then dlt (dsub (threshold r) (hysteresis r)) x \<and> dlt x (threshold r)
       else dlt (threshold r) x \<and> dlt x (dadd (threshold r) (hysteresis r))"
      using assms(7) Pair by (auto split: option.splits)
    have "condition_met e r act v \<longleftrightarrow> act" for act by (rule band_condition [OF assms(1) x])
    then show ?thesis
      using assms(2-6) c by (auto simp: s'_def Pair alarm_steps is_shelved_def)
  next
    case False
    then show ?thesis using assms(4-7) by (cases c) (auto simp: s'_def Pair alarm_steps)
  qed
qed

lemma band_run:
  assumes "condition_type r = ''high'' \<or> condition_type r = ''low''" "r_enabled r" "r_site_enabled r" "s_id s = r_id r"
    and "\<not> s_pending s" "s_shelved_until s = None" "list_all (in_band r) ops"
  shows "s_active (fst (run_alarm e ops r s)) = s_active s \<and>
    (\<forall>ev\<in>set (snd (run_alarm e ops r s)). ae_type ev \<notin> {''active'', ''return''})"
  using assms(4-7)
proof (induction ops arbitrary: s)
  case (Cons op ops)
  have op: "in_band r op" "list_all (in_band r) ops" using Cons.prems(4) by simp_all
  have b: "s_active (fst (alarm_sem e op r s)) = s_active s" "\<not> s_pending (fst (alarm_sem e op r s))"
    "s_shelved_until (fst (alarm_sem e op r s)) = None" "s_id (fst (alarm_sem e op r s)) = r_id r"
    "\<forall>ev\<in>set (snd (alarm_sem e op r s)). ae_type ev \<notin> {''active'', ''return''}"
    using band_step [OF assms(1-3) Cons.prems(1-3) op(1), of e] Cons.prems(1) by (simp_all add: alarm_sem_id)
  show ?case using Cons.IH [OF b(4) b(2) b(3) op(2)] b(1) b(5) by auto
qed simp

text \<open>
  A value inside the hysteresis band changes nothing. While every good reading of an enabled high
  (or low) alarm lies strictly between its threshold and the threshold less (plus) the hysteresis, the
  alarm, if it is neither pending nor shelved, stays as it was, active or not, and no activation or
  return of it is logged: a noisy value does not make it chatter.
\<close>

theorem band_values_change_nothing:
  assumes "engine_wf w" "list_all (op_ok w) ops" "w_rules w aid = Some r" "w_states w aid = Some s" "r_id r = aid"
    and "condition_type r = ''high'' \<or> condition_type r = ''low''" "r_enabled r" "r_site_enabled r"
    and "\<not> s_pending s" "s_shelved_until s = None" "list_all (in_band r) ops"
  shows "\<exists>s' new. w_states (run_engine e ops w) aid = Some s' \<and> s_active s' = s_active s \<and>
    events_of aid (run_engine e ops w) = events_of aid w @ new \<and> (\<forall>ev\<in>set new. ae_type ev \<notin> {''active'', ''return''})"
proof -
  have sid: "s_id s = r_id r" using assms(1,4,5) by (auto simp: engine_wf_def)
  show ?thesis
    using run_engine_one [OF assms(1,2,4,3), of e] band_run [OF assms(6-8) sid assms(9-11), of e] by blast
qed

theorem band_values_change_nothing_witness:
  "\<exists>s'. w_states (run_engine sample_env [(5, TagUpdate ''plc1'' ''Temp'' (JFloat (DFin 78)) JNull True)] sample_engine) ''hot'' = Some s' \<and>
     \<not> s_active s'"
proof -
  let ?ops = "[(5, TagUpdate ''plc1'' ''Temp'' (JFloat (DFin 78)) JNull True)]"
  have d: "distinct (map r_id [sample_rule])" and r: "sample_rule \<in> set [sample_rule]" and i: "r_id sample_rule = ''hot''"
    by (simp_all add: sample_rule_def)
  note l = loaded_engine [OF d, where d = 0 and w = empty_world, folded sample_engine_def]
  have "mk_dbl 75 = DFin 75" using mk_dbl_of_int [of 75] by simp
  then have band: "list_all (in_band sample_rule) ?ops"
    by (simp add: sample_rule_def rule_key_def tag_key_def normalize_quality_def coerce_number_def dsub_def)
  show ?thesis
    using band_values_change_nothing [OF l(1), of ?ops "''hot''" sample_rule "initial_state 0 sample_rule" sample_env]
      l(2) [OF r] i band
    by (auto simp: sample_rule_def initial_state_def)
qed

end
