(* ===== verification/AlarmHistory.thy ===== *)
theory AlarmHistory
  imports AlarmBehaviour
begin

text \<open>
  The alarm history (opcbridge-alarms/src/main.cpp): the rows the database keeps of logged events, the
  query that reads them back and \<open>restore\_state\_from\_db\<close>, which replays them over freshly loaded
  alarms. SQLite is outside: it returns the rows it stored, by time, rows of one millisecond in the order they
  were stored. A value is stored as its JSON text and parsed again.
\<close>

section \<open>Rows\<close>

definition db_rows :: "alarm_env \<Rightarrow> alarm_world \<Rightarrow> alarm_event list" where
  "db_rows e w = filter (e_stored e) (w_log w)"

definition fetch_events_since :: "int \<Rightarrow> int \<Rightarrow> alarm_event list \<Rightarrow> alarm_event list" where
  "fetch_events_since since limit rows =
     take (nat (min 50000 (max 1 limit))) (sort_key ae_ts (filter (\<lambda>ev. since \<le> ae_ts ev) rows))"

section \<open>Replay\<close>

text \<open>\<open>Inl\<close>: a shelving whose time is no number ends the program with an exception.\<close>

definition restore_event :: "alarm_event \<Rightarrow> alarm_state \<Rightarrow> json_error + alarm_state" where
  "restore_event ev s0 =
     (let s = s0\<lparr>s_initialized := True, s_last_change := ae_ts ev, s_last_value := ae_value ev,
            s_message := (if ae_message ev = [] then s_message s0 else ae_message ev)\<rparr>;
          k = ae_type ev
      in if k = ''active'' then Inr (s\<lparr>s_active := True, s_acked := False, s_armed := True, s_active_since := ae_ts ev\<rparr>)
         else if k \<in> {''return'', ''reset'', ''clear''} then Inr (s\<lparr>s_active := False, s_armed := False, s_active_since := 0\<rparr>)
         else if k = ''ack'' then Inr (s\<lparr>s_acked := True\<rparr>)
         else if k = ''unack'' then Inr (s\<lparr>s_acked := False\<rparr>)
         else if k = ''shelve'' then
           rbind (if is_object (ae_value ev) then jvalue get_long_long (ae_value ev) ''until_ms'' 0 else Inr 0) (\<lambda>until.
             Inr (if 0 < until then s\<lparr>s_shelved_until := Some until\<rparr> else s))
         else if k = ''unshelve'' then Inr (s\<lparr>s_shelved_until := None\<rparr>)
         else Inr s)"

definition usable_row :: "alarm_event \<Rightarrow> bool" where
  "usable_row ev \<longleftrightarrow> ae_alarm ev \<noteq> [] \<and> ae_type ev \<noteq> [] \<and> 0 < ae_ts ev"

fun replay :: "alarm_event list \<Rightarrow> (string \<rightharpoonup> alarm_state) \<times> int \<Rightarrow> json_error + (string \<rightharpoonup> alarm_state) \<times> int" where
  "replay [] st = Inr st"
| "replay (ev # evs) (states, lc) =
     (if \<not> usable_row ev then replay evs (states, lc)
      else case states (ae_alarm ev) of None \<Rightarrow> replay evs (states, lc)
        | Some s \<Rightarrow> rbind (restore_event ev s) (\<lambda>s'. replay evs (states(ae_alarm ev \<mapsto> s'), max lc (ae_ts ev))))"

definition restore_state_from_db :: "alarm_env \<Rightarrow> int \<Rightarrow> string list \<Rightarrow> alarm_world \<Rightarrow> json_error + alarm_world" where
  "restore_state_from_db e since order w =
     (case fetch_events_since since 50000 (db_rows e w) of
        [] \<Rightarrow> Inr w
      | ev # evs \<Rightarrow>
          rbind (replay (ev # evs) (w_states w, w_last_change w)) (\<lambda>(states, lc).
            Inr (sync_alarms order (w\<lparr>w_states := states, w_last_change := lc\<rparr>))))"

section \<open>Replay, alarm by alarm\<close>

fun replay_one :: "alarm_event list \<Rightarrow> alarm_state \<Rightarrow> json_error + alarm_state" where
  "replay_one [] s = Inr s"
| "replay_one (ev # evs) s = rbind (restore_event ev s) (replay_one evs)"

lemma restore_event_id: "restore_event (ev\<lparr>ae_id := x\<rparr>) s = restore_event ev s"
  by (cases ev) (simp add: restore_event_def Let_def cong: if_cong)

text \<open>The replay of rows that do not fail gives each alarm the replay of its own rows.\<close>

lemma replay_each:
  assumes "\<And>ev. ev \<in> set evs \<Longrightarrow> states (ae_alarm ev) \<noteq> None \<Longrightarrow> usable_row ev"
    and "\<And>aid s. states aid = Some s \<Longrightarrow> \<exists>s'. replay_one (filter (\<lambda>ev. ae_alarm ev = aid) evs) s = Inr s'"
  shows "\<exists>states' lc'. replay evs (states, lc) = Inr (states', lc') \<and>
    (\<forall>aid. states' aid = (case states aid of None \<Rightarrow> None
       | Some s \<Rightarrow> (case replay_one (filter (\<lambda>ev. ae_alarm ev = aid) evs) s of Inl err \<Rightarrow> None | Inr s' \<Rightarrow> Some s')))"
  using assms
proof (induction evs arbitrary: states lc)
  case Nil
  then show ?case by (auto split: option.splits)
next
  case (Cons ev evs)
  let ?own = "\<lambda>aid. filter (\<lambda>ev. ae_alarm ev = aid) evs"
  show ?case
  proof (cases "states (ae_alarm ev)")
    case None
    have h: "\<exists>s'. replay_one (?own aid) s = Inr s'" if "states aid = Some s" for aid s
      using Cons.prems(2) [OF that] None that by (auto split: if_splits)
    have u: "\<And>ev. ev \<in> set evs \<Longrightarrow> states (ae_alarm ev) \<noteq> None \<Longrightarrow> usable_row ev" using Cons.prems(1) by simp
    obtain states' lc' where r: "replay evs (states, lc) = Inr (states', lc')"
      and st: "\<And>aid. states' aid = (case states aid of None \<Rightarrow> None
         | Some s \<Rightarrow> (case replay_one (?own aid) s of Inl err \<Rightarrow> None | Inr s' \<Rightarrow> Some s'))"
      using Cons.IH [OF u h, where lc = lc] by blast
    show ?thesis using r st None by (auto split: option.splits)
  next
    case (Some s)
    obtain s1 where s1: "restore_event ev s = Inr s1"
      using Cons.prems(2) [OF Some] by (auto simp: rbind_Inr)
    have h: "\<exists>s'. replay_one (?own aid) q = Inr s'" if "(states(ae_alarm ev \<mapsto> s1)) aid = Some q" for aid q
      using Cons.prems(2) [of aid] that Some s1 by (auto split: if_splits)
    have u: "\<And>q. q \<in> set evs \<Longrightarrow> (states(ae_alarm ev \<mapsto> s1)) (ae_alarm q) \<noteq> None \<Longrightarrow> usable_row q"
      using Cons.prems(1) Some by (auto split: if_splits)
    have own: "usable_row ev" using Cons.prems(1) Some by simp
    obtain states' lc' where r: "replay evs (states(ae_alarm ev \<mapsto> s1), max lc (ae_ts ev)) = Inr (states', lc')"
      and st: "\<And>aid. states' aid = (case (states(ae_alarm ev \<mapsto> s1)) aid of None \<Rightarrow> None
         | Some s \<Rightarrow> (case replay_one (?own aid) s of Inl err \<Rightarrow> None | Inr s' \<Rightarrow> Some s'))"
      using Cons.IH [OF u h, where lc = "max lc (ae_ts ev)"] by blast
    show ?thesis using r st Some s1 own by (auto split: option.splits)
  qed
qed

section \<open>The log is in time order\<close>

definition logs_at :: "int \<Rightarrow> alarm_world \<Rightarrow> alarm_world \<Rightarrow> bool" where
  "logs_at t w w' \<longleftrightarrow> (\<exists>new. w_log w' = w_log w @ new \<and> (\<forall>ev\<in>set new. ae_ts ev = t))"

lemma logs_at_refl: "w_log w' = w_log w \<Longrightarrow> logs_at t w w'"
  by (simp add: logs_at_def)

lemma logs_at_trans: "logs_at t w w' \<Longrightarrow> logs_at t w' w'' \<Longrightarrow> logs_at t w w''"
  by (auto simp: logs_at_def)

lemma commit_logs: "logs_at t (fst wc) (fst (commit e t aid r wc))"
  by (auto simp: logs_at_def commit_def Let_def alarm_frames new_event_def split: prod.splits announcement.splits)

lemma walk_logs: "logs_at t (fst wc) (fst (fold (commit_each e t g) ids wc))"
proof (induction ids arbitrary: wc)
  case (Cons aid ids)
  have "logs_at t (fst wc) (fst (commit_each e t g aid wc))"
    by (auto simp: commit_each_def commit_logs logs_at_refl split: option.splits)
  then show ?case using Cons logs_at_trans by fastforce
qed (simp add: logs_at_refl)

lemma operator_logs: "logs_at t w (snd (operator_step e t aid f v k actor nt w))"
  by (auto simp: logs_at_def operator_step_def Let_def alarm_frames new_event_def split: option.splits)

lemma perform_logs: "logs_at (fst op) w (perform e op w)"
proof (cases op)
  case (Pair t c)
  show ?thesis
  proof (cases c)
    case (TagUpdate conn tag v q rec)
    have "logs_at t w (fst (fold (commit_each e t g) ids (w\<lparr>w_last_update := t\<rparr>, [])))" for g ids
      using walk_logs [of t "(w\<lparr>w_last_update := t\<rparr>, [])" e g ids] by (simp add: logs_at_def)
    then show ?thesis
      by (auto simp: Pair TagUpdate apply_tag_update_def Let_def update_is_walk [OF refl] logs_at_def alarm_frames)
  next
    case (Timer order)
    show ?thesis using walk_logs [of t "(w, [])"]
      by (simp add: Pair Timer process_pending_activations_def timer_is_walk [OF refl] logs_at_def alarm_frames)
  qed (simp_all add: Pair ack_def shelve_def unshelve_def operator_logs)
qed

lemma run_log_sorted:
  assumes "sorted (map ae_ts (w_log w))" "\<forall>ev\<in>set (w_log w). lo \<le> ae_ts ev \<and> ae_ts ev \<le> tb"
    and "sorted (tb # map fst ops)" "lo \<le> tb"
  shows "sorted (map ae_ts (w_log (run_engine e ops w))) \<and> (\<forall>ev\<in>set (w_log (run_engine e ops w)). lo \<le> ae_ts ev)"
  using assms
proof (induction ops arbitrary: w tb)
  case (Cons op ops)
  obtain new where new: "w_log (perform e op w) = w_log w @ new" "\<forall>ev\<in>set new. ae_ts ev = fst op"
    using perform_logs [of op w e] by (auto simp: logs_at_def)
  have le: "tb \<le> fst op" and s': "sorted (fst op # map fst ops)" using Cons.prems(3) by auto
  have "sorted (map ae_ts new)" using new(2) by (induction new) auto
  then have s: "sorted (map ae_ts (w_log (perform e op w)))"
    using Cons.prems(1,2) new le by (force simp: sorted_append)
  have b: "\<forall>ev\<in>set (w_log (perform e op w)). lo \<le> ae_ts ev \<and> ae_ts ev \<le> fst op"
    using Cons.prems(2,4) new le by fastforce
  show ?case using Cons.IH [OF s b s'] Cons.prems(4) le by (simp add: run_engine_def)
qed (simp add: run_engine_def)

section \<open>What a restart keeps\<close>

definition alarm_core :: "alarm_state \<Rightarrow> bool \<times> bool \<times> bool \<times> int option \<times> int \<times> int" where
  "alarm_core s = (s_active s, s_acked s, s_armed s, s_shelved_until s, s_active_since s, s_last_change s)"

text \<open>A call as it is when the alarm server runs undisturbed: updates are recorded, and a shelving ends at
  a time that is a positive \<open>int64\_t\<close>.\<close>

fun recorded :: "int \<times> alarm_op \<Rightarrow> bool" where
  "recorded (t, TagUpdate conn tag v q rec) \<longleftrightarrow> rec"
| "recorded (t, Shelve aid until actor nt) \<longleftrightarrow> 0 < until \<and> until < 2 ^ 63"
| "recorded _ \<longleftrightarrow> True"

definition live_ok :: "alarm_state \<Rightarrow> bool" where
  "live_ok s \<longleftrightarrow> s_armed s = s_active s \<and> (s_pending s \<longrightarrow> s_pending_record s)"

lemma alarm_coreD:
  "alarm_core s = alarm_core q \<Longrightarrow> s_active s = s_active q \<and> s_acked s = s_acked q \<and> s_armed s = s_armed q \<and>
     s_shelved_until s = s_shelved_until q \<and> s_active_since s = s_active_since q \<and> s_last_change s = s_last_change q"
  by (simp add: alarm_core_def)

lemmas replay_steps = restore_event_def state_event_def announced_def alarm_core_def live_ok_def Let_def

lemma settle_replays:
  assumes "live_ok s" "settle_alarm t True r should s = (s', a)"
  shows "live_ok s' \<and> (a = Quiet \<and> alarm_core s' = alarm_core s \<or>
     a = WithEvent ''active'' \<and> alarm_core s' = (True, False, True, s_shelved_until s, t, t) \<or>
     a = WithEvent ''return'' \<and> alarm_core s' = (False, s_acked s, False, s_shelved_until s, 0, t))"
proof -
  have l: "s_armed s = s_active s" "s_pending s \<longrightarrow> s_pending_record s" using assms(1) by (simp_all add: live_ok_def)
  show ?thesis
    using l assms(2) unfolding settle_alarm_def raise_alarm_def alarm_core_def live_ok_def
    by (cases should; cases "s_active s"; cases "s_pending s"; cases "s_initialized s"; cases "0 < s_delay s"; simp; clarsimp?)
qed

lemma update_replays:
  assumes "live_ok s" "r_site_enabled r" "update_alarm e t v True r s = (s', a)"
  shows "live_ok s' \<and> (a = Quiet \<and> alarm_core s' = alarm_core s \<or>
     a = WithEvent ''active'' \<and> alarm_core s' = (True, False, True, s_shelved_until s, t, t) \<or>
     a = WithEvent ''return'' \<and> alarm_core s' = (False, s_acked s, False, s_shelved_until s, 0, t))"
proof -
  obtain should s2 where u: "settle_alarm t True r should s2 = (s', a)"
    and s2: "live_ok s2" "alarm_core s2 = alarm_core s" "s_shelved_until s2 = s_shelved_until s" "s_acked s2 = s_acked s"
  proof (rule that)
    let ?s = "s\<lparr>s_last_value := v, s_site_enabled := True\<rparr>"
    let ?can = "r_enabled r \<and> \<not> is_shelved t ?s"
    let ?s2 = "if ?can then ?s else ?s\<lparr>s_pending := False, s_pending_since := 0\<rparr>"
    show "settle_alarm t True r (?can \<and> condition_met e r (s_active ?s2) v) ?s2 = (s', a)"
      using assms(2,3) by (simp only: update_alarm_def Let_def) simp
    show "live_ok ?s2" "alarm_core ?s2 = alarm_core s" "s_shelved_until ?s2 = s_shelved_until s" "s_acked ?s2 = s_acked s"
      using assms(1) by (simp_all add: live_ok_def alarm_core_def)
  qed
  show ?thesis using settle_replays [OF s2(1) u] s2(2-4) by simp
qed

lemma timer_replays:
  assumes "live_ok s" "timer_alarm t (Some r) s = (s', a)"
  shows "live_ok s' \<and> (a = Quiet \<and> alarm_core s' = alarm_core s \<or>
     a = WithEvent ''active'' \<and> alarm_core s' = (True, False, True, s_shelved_until s, t, t))"
  using assms by (auto simp: timer_alarm_def alarm_core_def live_ok_def Let_def split: if_splits)

lemma sem_replays:
  assumes "live_ok s" "r_site_enabled r" "recorded op" "alarm_core q = alarm_core s"
  shows "live_ok (fst (alarm_sem e op r s)) \<and>
    (\<exists>q'. replay_one (snd (alarm_sem e op r s)) q = Inr q' \<and> alarm_core q' = alarm_core (fst (alarm_sem e op r s)))"
proof (cases op)
  case (Pair t c)
  note q = alarm_coreD [OF assms(4)]
  show ?thesis
  proof (cases c)
    case (TagUpdate conn tag v qu rec)
    obtain s' a where u: "update_alarm e t v True r s = (s', a)" by (cases "update_alarm e t v True r s")
    show ?thesis
      using update_replays [OF assms(1,2) u] assms q
      by (auto simp: Pair TagUpdate u replay_steps)
  next
    case (Timer order)
    obtain s' a where u: "timer_alarm t (Some r) s = (s', a)" by (cases "timer_alarm t (Some r) s")
    show ?thesis
      using timer_replays [OF assms(1) u] assms q
      by (auto simp: Pair Timer u replay_steps)
  next
    case (Shelve aid until actor nt)
    have "0 < until \<Longrightarrow> until < 2 ^ 63 \<Longrightarrow> to_int64 until = until" by (rule to_int64_id) auto
    then show ?thesis using assms q by (auto simp: Pair Shelve replay_steps jvalue_def)
  qed (use assms q in \<open>auto simp: Pair replay_steps\<close>)
qed

lemma replay_one_append: "replay_one (xs @ ys) s = rbind (replay_one xs s) (replay_one ys)"
  by (induction xs arbitrary: s) (auto simp: rbind_def split: sum.splits)

lemma run_replays:
  assumes "live_ok s" "r_site_enabled r" "list_all recorded ops" "alarm_core q = alarm_core s"
  shows "\<exists>q'. replay_one (snd (run_alarm e ops r s)) q = Inr q' \<and> alarm_core q' = alarm_core (fst (run_alarm e ops r s))"
  using assms(1,3,4)
proof (induction ops arbitrary: s q)
  case (Cons op ops)
  obtain q1 where q1: "replay_one (snd (alarm_sem e op r s)) q = Inr q1" "alarm_core q1 = alarm_core (fst (alarm_sem e op r s))"
    and ok: "live_ok (fst (alarm_sem e op r s))"
    using sem_replays [OF Cons.prems(1) assms(2) _ Cons.prems(3), of op e] Cons.prems(2) by auto
  show ?case using Cons.IH [OF ok _ q1(2)] Cons.prems(2) q1(1) by (simp add: replay_one_append)
qed simp

lemma update_types: "update_alarm e t v rec r s = (s', WithEvent k) \<Longrightarrow> k \<noteq> []"
  by (auto simp: update_alarm_def settle_alarm_def Let_def split: if_splits)

lemma sem_rows: "ev \<in> set (snd (alarm_sem e op r s)) \<Longrightarrow> ae_type ev \<noteq> [] \<and> ae_ts ev = fst op"
proof (cases op)
  case (Pair t c)
  assume ev: "ev \<in> set (snd (alarm_sem e op r s))"
  show ?thesis
  proof (cases c)
    case (TagUpdate conn tag v q rec)
    then show ?thesis using ev update_types [of e t v rec r s]
      by (cases "update_alarm e t v rec r s") (auto simp: Pair Let_def announced_def state_event_def split: if_splits announcement.splits)
  next
    case (Timer order)
    then show ?thesis using ev by (auto simp: Pair Let_def announced_def state_event_def timer_alarm_def split: if_splits)
  qed (use ev in \<open>auto simp: Pair Let_def state_event_def split: if_splits\<close>)
qed

lemma run_rows: "ev \<in> set (snd (run_alarm e ops r s)) \<Longrightarrow> ae_type ev \<noteq> [] \<and> ae_ts ev \<in> fst ` set ops"
proof (induction ops arbitrary: s)
  case (Cons op ops)
  then show ?case using sem_rows [of ev e op r s] by auto
qed simp

lemma replay_one_ids: "replay_one (map (\<lambda>ev. ev\<lparr>ae_id := []\<rparr>) evs) s = replay_one evs s"
  by (induction evs arbitrary: s) (auto simp: restore_event_id rbind_def split: sum.splits)


definition alarm_night :: "(int \<times> alarm_op) list" where
  "alarm_night = [(5, TagUpdate ''plc1'' ''Temp'' (JFloat (DFin 90)) JNull True), (1005, Timer [''hot'']),
     (1100, Ack ''hot'' ''op'' [])]"

lemma alarm_night_log: "length (w_log (run_engine sample_env alarm_night sample_engine)) = 2"
  by (simp add: alarm_night_def sample_engine_def empty_world_def swap_tables_def alarm_tables_of_def add_rule_def
      apply_tag_update_def process_pending_activations_def ack_def operator_step_def update_one_def timer_one_def
      alarms_of_def run_engine_def commit_def upsert_alarms_def Let_def alarm_frames sample_steps)


end
