(* ===== verification/FlowMath.thy ===== *)
theory FlowMath
  imports Floats
begin

text \<open>
  The expressions of a compute node (\<open>MathExpression\<close> of opcbridge-flow/opcbridge\_flow.cpp): the recursive
  descent that evaluates while it reads. The position is the text still unread; an error
  message ends with the position counted from 1. \<open>sqrt\<close> and \<open>pow\<close> are the C library's. The
  recursion counts fuel, of which six steps for each character are enough; the stack of the
  program is not modelled.
\<close>

section \<open>Arithmetic\<close>

record math_lib =
  m_sqrt :: "dbl \<Rightarrow> dbl"
  m_pow :: "dbl \<Rightarrow> dbl \<Rightarrow> dbl"

text \<open>A library for the examples, which call neither function.\<close>

definition sample_math :: math_lib where
  "sample_math = \<lparr>m_sqrt = (\<lambda>d. d), m_pow = (\<lambda>a b. a)\<rparr>"

fun dfloor :: "dbl \<Rightarrow> dbl" where
  "dfloor (DFin a) = DFin (of_int (floor a))"
| "dfloor d = d"

fun dround :: "dbl \<Rightarrow> dbl" where
  "dround (DFin a) = DFin (of_int (round_away a))"
| "dround d = d"

text \<open>\<open>std::fmod\<close> is exact: the remainder of the division truncated towards zero.\<close>

fun dfmod :: "dbl \<Rightarrow> dbl \<Rightarrow> dbl" where
  "dfmod (DFin a) (DFin b) =
     (if b = 0 then DNaN else DFin (a - b * of_int (if 0 \<le> a / b then floor (a / b) else ceiling (a / b))))"
| "dfmod (DFin a) (DInf n) = DFin a"
| "dfmod _ _ = DNaN"

definition dmin_of :: "dbl list \<Rightarrow> dbl" where
  "dmin_of xs = foldl (\<lambda>m x. if dlt x m then x else m) (hd xs) (tl xs)"

definition dmax_of :: "dbl list \<Rightarrow> dbl" where
  "dmax_of xs = foldl (\<lambda>m x. if dlt m x then x else m) (hd xs) (tl xs)"

definition math_function :: "math_lib \<Rightarrow> string \<Rightarrow> dbl list \<Rightarrow> string + dbl" where
  "math_function L name a =
     (if name = ''abs'' \<and> length a = 1 then Inr (dabs (a ! 0))
      else if name = ''sqrt'' \<and> length a = 1 then
        (if dlt (a ! 0) (DFin 0) then Inl ''sqrt requires a nonnegative value'' else Inr (m_sqrt L (a ! 0)))
      else if name = ''floor'' \<and> length a = 1 then Inr (dfloor (a ! 0))
      else if name = ''ceil'' \<and> length a = 1 then Inr (dceil (a ! 0))
      else if name = ''pow'' \<and> length a = 2 then Inr (m_pow L (a ! 0) (a ! 1))
      else if name = ''clamp'' \<and> length a = 3 then Inr (dmax (a ! 1) (dmin (a ! 2) (a ! 0)))
      else if name = ''round'' \<and> (length a = 1 \<or> length a = 2) then
        (let scale = (if length a = 2 then m_pow L (DFin 10) (a ! 1) else DFin 1)
         in Inr (ddiv (dround (dmul (a ! 0) scale)) scale))
      else if name = ''min'' \<and> a \<noteq> [] then Inr (dmin_of a)
      else if name = ''max'' \<and> a \<noteq> [] then Inr (dmax_of a)
      else Inl (''unknown function or wrong number of arguments for '' @ [CHR 39] @ name @ [CHR 39]))"

section \<open>The evaluator\<close>

datatype 'a parse = Starved | Failed string | Parsed 'a string

fun pbind :: "'a parse \<Rightarrow> ('a \<Rightarrow> string \<Rightarrow> 'b parse) \<Rightarrow> 'b parse" where
  "pbind Starved f = Starved"
| "pbind (Failed m) f = Failed m"
| "pbind (Parsed v s) f = f v s"

definition skip :: "string \<Rightarrow> string" where
  "skip s = dropWhile is_space s"

definition id_char :: "char \<Rightarrow> bool" where
  "id_char c \<longleftrightarrow> is_alnum c \<or> c = CHR ''_''"

definition math_fail :: "nat \<Rightarrow> string \<Rightarrow> string \<Rightarrow> 'a parse" where
  "math_fail N message s =
     Failed (''Math expression: '' @ message @ '' at position '' @ show_nat (N - length s + 1))"

definition read_number :: "string \<Rightarrow> dbl parse" where
  "read_number s = (case stod s of Inr (v, rest) \<Rightarrow> Parsed v rest | Inl e \<Rightarrow> Failed ''stod'')"

definition call_function :: "math_lib \<Rightarrow> nat \<Rightarrow> string \<Rightarrow> dbl list \<Rightarrow> string \<Rightarrow> dbl parse" where
  "call_function L N name args s =
     (case math_function L name args of Inl m \<Rightarrow> math_fail N m s | Inr v \<Rightarrow> Parsed v s)"

definition variable :: "nat \<Rightarrow> (string \<rightharpoonup> dbl) \<Rightarrow> string \<Rightarrow> string \<Rightarrow> dbl parse" where
  "variable N V name s =
     (case V name of None \<Rightarrow> math_fail N (''unknown input '' @ [CHR 39] @ name @ [CHR 39]) s | Some v \<Rightarrow> Parsed v s)"

definition close_paren :: "nat \<Rightarrow> dbl \<Rightarrow> string \<Rightarrow> dbl parse" where
  "close_paren N v s0 =
     (let s = skip s0 in
      case s of [] \<Rightarrow> math_fail N ''missing )'' s
      | c # s1 \<Rightarrow> if c = CHR '')'' then Parsed v s1 else math_fail N ''missing )'' s)"

text \<open>What a primary begins with, and the text after it.\<close>

datatype primary = Parenthesis string | Number string | Nothing string | Input string string | Function string string

definition read_primary :: "string \<Rightarrow> primary" where
  "read_primary s0 =
     (let s = skip s0; name = takeWhile id_char s; s2 = skip (dropWhile id_char s) in
      if s \<noteq> [] \<and> hd s = CHR ''('' then Parenthesis (tl s)
      else if s \<noteq> [] \<and> (is_digit (hd s) \<or> hd s = CHR ''.'') then Number s
      else if name = [] then Nothing s
      else if s2 \<noteq> [] \<and> hd s2 = CHR ''('' then Function name (skip (tl s2))
      else Input name s2)"

function (sequential) mexpr and mexpr_more and mterm and mterm_more and munary and mprimary and margs where
  "mexpr L N V 0 s = Starved"
| "mexpr L N V (Suc n) s = pbind (mterm L N V n s) (\<lambda>v s. mexpr_more L N V n v s)"
| "mexpr_more L N V 0 v s0 = Starved"
| "mexpr_more L N V (Suc n) v s0 =
     (let s = skip s0 in
      case s of [] \<Rightarrow> Parsed v s
      | c # s1 \<Rightarrow>
          if c = CHR ''+'' then pbind (mterm L N V n s1) (\<lambda>t s. mexpr_more L N V n (dadd v t) s)
          else if c = CHR ''-'' then pbind (mterm L N V n s1) (\<lambda>t s. mexpr_more L N V n (dsub v t) s)
          else Parsed v s)"
| "mterm L N V 0 s = Starved"
| "mterm L N V (Suc n) s = pbind (munary L N V n s) (\<lambda>v s. mterm_more L N V n v s)"
| "mterm_more L N V 0 v s0 = Starved"
| "mterm_more L N V (Suc n) v s0 =
     (let s = skip s0 in
      case s of [] \<Rightarrow> Parsed v s
      | c # s1 \<Rightarrow>
          if c = CHR ''*'' then pbind (munary L N V n s1) (\<lambda>t s. mterm_more L N V n (dmul v t) s)
          else if c = CHR ''/'' then
            pbind (munary L N V n s1) (\<lambda>t s.
              if deq t (DFin 0) then math_fail N ''division by zero'' s else mterm_more L N V n (ddiv v t) s)
          else if c = CHR ''%'' then
            pbind (munary L N V n s1) (\<lambda>t s.
              if deq t (DFin 0) then math_fail N ''division by zero'' s else mterm_more L N V n (dfmod v t) s)
          else Parsed v s)"
| "munary L N V 0 s0 = Starved"
| "munary L N V (Suc n) s0 =
     (let s = skip s0 in
      case s of [] \<Rightarrow> mprimary L N V n s
      | c # s1 \<Rightarrow>
          if c = CHR ''+'' then munary L N V n s1
          else if c = CHR ''-'' then pbind (munary L N V n s1) (\<lambda>v s. Parsed (dneg v) s)
          else mprimary L N V n s)"
| "mprimary L N V 0 s0 = Starved"
| "mprimary L N V (Suc n) s0 =
     (case read_primary s0 of
        Parenthesis s \<Rightarrow> pbind (mexpr L N V n s) (close_paren N)
      | Number s \<Rightarrow> read_number s
      | Nothing s \<Rightarrow> math_fail N ''expected a number, input, or function'' s
      | Input name s \<Rightarrow> variable N V name s
      | Function name s \<Rightarrow>
          if s \<noteq> [] \<and> hd s = CHR '')'' then call_function L N name [] (tl s)
          else pbind (margs L N V n s) (call_function L N name))"
| "margs L N V 0 s0 = Starved"
| "margs L N V (Suc n) s0 =
     pbind (mexpr L N V n s0) (\<lambda>v s4.
       let s = skip s4 in
       if s \<noteq> [] \<and> hd s = CHR '','' then pbind (margs L N V n (tl s)) (\<lambda>vs s. Parsed (v # vs) s)
       else if s \<noteq> [] \<and> hd s = CHR '')'' then Parsed [v] (tl s)
       else math_fail N ''missing ) after function'' s)"
  by pat_completeness auto
termination
  by (relation "measure (case_sum (case_sum (\<lambda>(L, N, V, n, s). n) (case_sum (\<lambda>(L, N, V, n, v, s). n) (\<lambda>(L, N, V, n, s). n)))
     (case_sum (case_sum (\<lambda>(L, N, V, n, v, s). n) (\<lambda>(L, N, V, n, s). n)) (case_sum (\<lambda>(L, N, V, n, s). n) (\<lambda>(L, N, V, n, s). n))))")
    (simp_all only: wf_measure in_measure sum.case prod.case lessI)

definition enough_fuel :: "string \<Rightarrow> nat" where
  "enough_fuel s = 6 * length s + 4"

definition evaluate :: "math_lib \<Rightarrow> (string \<rightharpoonup> dbl) \<Rightarrow> string \<Rightarrow> string + dbl" where
  "evaluate L V s =
     (let N = length s in
      case pbind (mexpr L N V (enough_fuel s) s) (\<lambda>v s1.
          let s2 = skip s1 in
          if s2 \<noteq> [] then math_fail N ''unexpected text'' s2
          else if \<not> is_finite v then math_fail N ''result is not finite'' s2
          else Parsed v s2) of
        Starved \<Rightarrow> Inl ''out of fuel''
      | Failed m \<Rightarrow> Inl m
      | Parsed v s2 \<Rightarrow> Inr v)"

section \<open>The fuel is enough\<close>

lemma skip_length [simp]: "length (skip s) \<le> length s"
  by (simp add: skip_def length_dropWhile_le)

lemma pbind_Parsed: "pbind r f = Parsed v s \<longleftrightarrow> (\<exists>w t. r = Parsed w t \<and> f w t = Parsed v s)"
  by (cases r) auto

lemma pbind_Starved: "pbind r f = Starved \<longleftrightarrow> r = Starved \<or> (\<exists>w t. r = Parsed w t \<and> f w t = Starved)"
  by (cases r) auto

lemma math_fail_simps [simp]: "math_fail N m s \<noteq> Starved" "math_fail N m s \<noteq> Parsed v t"
  by (simp_all add: math_fail_def)

lemma exponent_length: "length (snd (read_exponent l s)) \<le> length s"
proof (cases s)
  case (Cons c cs)
  have "length (snd (split_sign cs)) \<le> length cs" by (cases cs) auto
  then have "length (dropWhile is_digit (snd (split_sign cs))) \<le> length cs"
    by (meson length_dropWhile_le order_trans)
  then show ?thesis using Cons by (auto simp: read_exponent_def split: prod.splits)
qed (simp add: read_exponent_def)

lemma after_dot_length: "length (snd (after_dot P s)) + length (fst (after_dot P s)) \<le> length s"
proof (cases s)
  case (Cons c cs)
  have "length (takeWhile P cs) + length (dropWhile P cs) = length cs"
    by (metis length_append takeWhile_dropWhile_id)
  then show ?thesis using Cons by (auto simp: after_dot_def)
qed (simp add: after_dot_def)

lemma mantissa_length:
  assumes "takeWhile P s \<noteq> [] \<or> fst (after_dot P (dropWhile P s)) \<noteq> []"
  shows "length (snd (read_exponent l (snd (after_dot P (dropWhile P s))))) < length s"
proof -
  let ?a = "after_dot P (dropWhile P s)"
  have "length (takeWhile P s) + length (dropWhile P s) = length s"
    by (metis length_append takeWhile_dropWhile_id)
  moreover have "length (snd (read_exponent l (snd ?a))) \<le> length (snd ?a)" by (rule exponent_length)
  moreover have "length (snd ?a) + length (fst ?a) \<le> length (dropWhile P s)" by (rule after_dot_length)
  moreover have "0 < length (takeWhile P s) + length (fst ?a)" using assms by auto
  ultimately show ?thesis by linarith
qed

lemma read_magnitude_length: "read_magnitude s = Some (x, rest) \<Longrightarrow> length rest < length s"
proof -
  assume a: "read_magnitude s = Some (x, rest)"
  have ne: "s \<noteq> []" using a by (auto simp: read_magnitude_def read_decimal_def to_lower_copy_def after_dot_def)
  have low: "length (to_lower_copy s) = length s" by (simp add: to_lower_copy_def)
  have nan: "length (nan_payload t) \<le> length t" for t
  proof (cases t)
    case (Cons c cs)
    have "length (dropWhile (\<lambda>c. is_alnum c \<or> c = CHR ''_'') cs) \<le> length cs" by (rule length_dropWhile_le)
    then show ?thesis using Cons by (auto simp: nan_payload_def split: list.splits)
  qed (simp add: nan_payload_def)
  have dec: "read_decimal t = Some (y, r) \<Longrightarrow> length r < length t" for t y r
    using mantissa_length [of is_digit t "CHR ''e''"] by (auto simp: read_decimal_def Let_def split: prod.splits if_splits)
  have hex: "read_hexadecimal t = Some (y, r) \<Longrightarrow> length r < length t" for t y r
    using mantissa_length [of is_hex t "CHR ''p''"] by (auto simp: read_hexadecimal_def Let_def split: prod.splits if_splits)
  show ?thesis
    using a ne nan [of "drop 3 s", THEN order_le_less_trans] dec [of s] hex [of "drop 2 s"]
    by (auto simp: read_magnitude_def Let_def split: if_splits option.splits)
qed

lemma stod_length: "stod s = Inr (v, rest) \<Longrightarrow> length rest < length s"
proof -
  assume a: "stod s = Inr (v, rest)"
  obtain neg s1 where sp: "split_sign (dropWhile is_space s) = (neg, s1)" by fastforce
  have "length (snd (split_sign t)) \<le> length t" for t by (cases t) auto
  then have "length s1 \<le> length (dropWhile is_space s)" using sp by (metis snd_conv)
  also have "\<dots> \<le> length s" by (rule length_dropWhile_le)
  finally have "length s1 \<le> length s" .
  moreover have "\<exists>x. read_magnitude s1 = Some (x, rest)"
    using a sp by (auto simp: stod_def strto_float_def Let_def split: option.splits strtod_value.splits dbl.splits if_splits)
  ultimately show ?thesis using read_magnitude_length by (metis order_less_le_trans)
qed

lemma skip_shorter: "skip s = c # s1 \<Longrightarrow> length s1 < length s"
  using skip_length [of s] by simp

lemma skip_tl_shorter: "skip s \<noteq> [] \<Longrightarrow> length (tl (skip s)) < length s"
  using skip_length [of s] by (cases "skip s") simp_all

lemma primary_shorter:
  "read_primary s0 = Parenthesis s \<Longrightarrow> length s < length s0"
  "read_primary s0 = Number s \<Longrightarrow> length s \<le> length s0"
  "read_primary s0 = Input name s \<Longrightarrow> length s < length s0"
  "read_primary s0 = Function name s \<Longrightarrow> length s + 1 < length s0"
proof -
  have "length (takeWhile id_char (skip s0)) + length (dropWhile id_char (skip s0)) = length (skip s0)"
    by (metis length_append takeWhile_dropWhile_id)
  then have a: "length (skip (dropWhile id_char (skip s0))) + length (takeWhile id_char (skip s0)) \<le> length s0"
    using skip_length [of s0] skip_length [of "dropWhile id_char (skip s0)"] by linarith
  have b: "length (skip (tl t)) < length t" if "t \<noteq> []" for t :: string
    using that le_imp_less_Suc [OF skip_length [of "tl t"]] by (cases t) auto
  have c: "0 < length t" if "t \<noteq> []" for t :: string using that by simp
  show "read_primary s0 = Parenthesis s \<Longrightarrow> length s < length s0"
    using skip_tl_shorter by (auto simp: read_primary_def Let_def split: if_splits)
  show "read_primary s0 = Number s \<Longrightarrow> length s \<le> length s0"
    by (auto simp: read_primary_def Let_def split: if_splits)
  show "read_primary s0 = Input name s \<Longrightarrow> length s < length s0"
    using add_less_le_mono [OF c a] a c [of "takeWhile id_char (skip s0)"]
    by (cases "takeWhile id_char (skip s0)") (auto simp: read_primary_def Let_def split: if_splits)
  show "read_primary s0 = Function name s \<Longrightarrow> length s + 1 < length s0"
    using a b [of "skip (dropWhile id_char (skip s0))"]
    by (cases "takeWhile id_char (skip s0)") (auto simp: read_primary_def Let_def split: if_splits)
qed

lemma read_number_shorter: "read_number s = Parsed v s' \<Longrightarrow> length s' < length s"
  using stod_length by (auto simp: read_number_def split: sum.splits prod.splits)

lemma leaf_shorter:
  "close_paren N v s = Parsed w s' \<Longrightarrow> length s' < length s"
  "call_function L N name args s = Parsed w s' \<Longrightarrow> s' = s"
  "variable N V name s = Parsed w s' \<Longrightarrow> s' = s"
  using skip_shorter [of s]
  by (auto simp: close_paren_def call_function_def variable_def Let_def split: list.splits if_splits sum.splits option.splits)

lemma parse_shorter:
  "mexpr L N V n s = Parsed v s' \<Longrightarrow> length s' < length s"
  "mexpr_more L N V n u s = Parsed v s' \<Longrightarrow> length s' \<le> length s"
  "mterm L N V n s = Parsed v s' \<Longrightarrow> length s' < length s"
  "mterm_more L N V n u s = Parsed v s' \<Longrightarrow> length s' \<le> length s"
  "munary L N V n s = Parsed v s' \<Longrightarrow> length s' < length s"
  "mprimary L N V n s = Parsed v s' \<Longrightarrow> length s' < length s"
  "margs L N V n s = Parsed vs s' \<Longrightarrow> length s' < length s"
proof (induction L N V n s and L N V n u s and L N V n s and L N V n u s and L N V n s and L N V n s and L N V n s
    arbitrary: v s' and v s' and v s' and v s' and v s' and v s' and vs s'
    rule: mexpr_mexpr_more_mterm_mterm_more_munary_mprimary_margs.induct)
  case (2 L N V n s)
  then show ?case by (fastforce simp: pbind_Parsed)
next
  case (4 L N V n v s0)
  then show ?case using skip_shorter [of s0] skip_length [of s0]
    by (fastforce simp: pbind_Parsed Let_def split: list.splits if_splits)
next
  case (6 L N V n s)
  then show ?case by (fastforce simp: pbind_Parsed)
next
  case (8 L N V n v s0)
  then show ?case using skip_shorter [of s0] skip_length [of s0]
    by (fastforce simp: pbind_Parsed Let_def split: list.splits if_splits)
next
  case (10 L N V n s0)
  then show ?case using skip_shorter [of s0] skip_length [of s0]
    by (fastforce simp: pbind_Parsed Let_def split: list.splits if_splits)
next
  case (12 L N V n s0)
  show ?case
  proof (cases "read_primary s0")
    case (Parenthesis s)
    then obtain w t where e: "mexpr L N V n s = Parsed w t" "close_paren N w t = Parsed v s'"
      using "12.prems" by (auto simp: pbind_Parsed)
    show ?thesis using "12.IH"(1) [OF Parenthesis e(1)] leaf_shorter(1) [OF e(2)] primary_shorter(1) [OF Parenthesis] by linarith
  next
    case (Function name s)
    show ?thesis
    proof (cases "s \<noteq> [] \<and> hd s = CHR '')''")
      case True
      then have "s' = tl s" using "12.prems" Function leaf_shorter(2) by simp
      then show ?thesis using primary_shorter(4) [OF Function] by simp
    next
      case False
      then obtain ws t where e: "margs L N V n s = Parsed ws t" "call_function L N name ws t = Parsed v s'"
        using "12.prems" Function by (auto simp: pbind_Parsed)
      show ?thesis using "12.IH"(2) [OF Function False e(1)] leaf_shorter(2) [OF e(2)] primary_shorter(4) [OF Function] by simp
    qed
  qed (use "12.prems" primary_shorter leaf_shorter read_number_shorter order_less_le_trans in fastforce)+
next
  case (14 L N V n s0)
  obtain w t where e: "mexpr L N V n s0 = Parsed w t" using "14.prems" by (auto simp: pbind_Parsed)
  have t: "length t < length s0" using "14.IH"(1) [OF e] .
  show ?case
  proof (cases "skip t \<noteq> [] \<and> hd (skip t) = CHR '',''")
    case True
    then obtain ws where "margs L N V n (tl (skip t)) = Parsed ws s'" using "14.prems" e by (auto simp: pbind_Parsed)
    then have "length s' < length (tl (skip t))" using "14.IH"(2) [OF refl True] by blast
    then show ?thesis using skip_tl_shorter [of t] True t by linarith
  next
    case False
    then have "skip t \<noteq> []" "s' = tl (skip t)" using "14.prems" e by (auto simp: Let_def split: if_splits)
    then show ?thesis using skip_tl_shorter [of t] t by simp
  qed
qed simp_all

lemma leaf_fed [simp]:
  "close_paren N v s \<noteq> Starved" "call_function L N name args s \<noteq> Starved" "variable N V name s \<noteq> Starved" "read_number s \<noteq> Starved"
  by (auto simp: close_paren_def call_function_def variable_def read_number_def Let_def split: list.splits sum.splits option.splits prod.splits)

lemma pbind_fed:
  "r \<noteq> Starved \<Longrightarrow> (\<And>v t. r = Parsed v t \<Longrightarrow> f v t \<noteq> Starved) \<Longrightarrow> pbind r f \<noteq> Starved"
  by (cases r) auto

lemma parse_fed:
  "6 * length s + 4 \<le> n \<Longrightarrow> mexpr L N V n s \<noteq> Starved"
  "6 * length s + 1 \<le> n \<Longrightarrow> mexpr_more L N V n u s \<noteq> Starved"
  "6 * length s + 3 \<le> n \<Longrightarrow> mterm L N V n s \<noteq> Starved"
  "6 * length s + 1 \<le> n \<Longrightarrow> mterm_more L N V n u s \<noteq> Starved"
  "6 * length s + 2 \<le> n \<Longrightarrow> munary L N V n s \<noteq> Starved"
  "6 * length s + 1 \<le> n \<Longrightarrow> mprimary L N V n s \<noteq> Starved"
  "6 * length s + 5 \<le> n \<Longrightarrow> margs L N V n s \<noteq> Starved"
proof (induction L N V n s and L N V n u s and L N V n s and L N V n u s and L N V n s and L N V n s and L N V n s
    rule: mexpr_mexpr_more_mterm_mterm_more_munary_mprimary_margs.induct)
  case (2 L N V n s)
  have "mexpr_more L N V n v t \<noteq> Starved" if "mterm L N V n s = Parsed v t" for v t
    using "2.IH"(2) [of t v] "2.prems" parse_shorter(3) [OF that] by simp
  then show ?case using "2.IH"(1) "2.prems" by (auto simp: pbind_Starved)
next
  case (4 L N V n v s0)
  have m: "6 * length t + 1 \<le> n" if "skip s0 = c # s1" "mterm L N V n s1 = Parsed w t" for c s1 w t
    using that skip_shorter [of s0] parse_shorter(3) [of L N V n s1] "4.prems" by fastforce
  show ?case
  proof (cases "skip s0")
    case (Cons c s1)
    have "6 * length s1 + 3 \<le> n" using skip_shorter [OF Cons] "4.prems" by linarith
    then show ?thesis using "4.IH" Cons m [OF Cons] by (auto simp: pbind_Starved)
  qed simp
next
  case (6 L N V n s)
  have "mterm_more L N V n v t \<noteq> Starved" if "munary L N V n s = Parsed v t" for v t
    using "6.IH"(2) [of t v] "6.prems" parse_shorter(5) [OF that] by simp
  then show ?case using "6.IH"(1) "6.prems" by (auto simp: pbind_Starved)
next
  case (8 L N V n v s0)
  have m: "6 * length t + 1 \<le> n" if "skip s0 = c # s1" "munary L N V n s1 = Parsed w t" for c s1 w t
    using that skip_shorter [of s0] parse_shorter(5) [of L N V n s1] "8.prems" by fastforce
  show ?case
  proof (cases "skip s0")
    case (Cons c s1)
    have "6 * length s1 + 3 \<le> n" using skip_shorter [OF Cons] "8.prems" by linarith
    then show ?thesis using "8.IH" Cons m [OF Cons] by (auto simp: pbind_Starved)
  qed simp
next
  case (10 L N V n s0)
  show ?case
  proof (cases "skip s0")
    case Nil
    then show ?thesis using "10.IH"(1) [OF refl Nil] "10.prems" by simp
  next
    case (Cons c s1)
    have "6 * length s1 + 2 \<le> n" "6 * length (skip s0) + 1 \<le> n"
      using skip_shorter [OF Cons] skip_length [of s0] "10.prems" by linarith+
    then show ?thesis using "10.IH"(2-) Cons by (auto simp: pbind_Starved)
  qed
next
  case (12 L N V n s0)
  show ?case
  proof (cases "read_primary s0")
    case (Parenthesis s)
    have "6 * length s + 4 \<le> n" using "12.prems" primary_shorter(1) [OF Parenthesis] by linarith
    then show ?thesis using "12.IH"(1) Parenthesis by (auto simp: pbind_Starved)
  next
    case (Function name s)
    have "6 * length s + 5 \<le> n" using "12.prems" primary_shorter(4) [OF Function] by linarith
    then show ?thesis using "12.IH"(2) Function by (auto simp: pbind_Starved)
  qed simp_all
next
  case (14 L N V n s0)
  have b: "margs L N V n (tl (skip t)) \<noteq> Starved"
    if c: "mexpr L N V n s0 = Parsed w t" "skip t \<noteq> [] \<and> hd (skip t) = CHR '',''" for w t
  proof -
    have "length t < length s0" using parse_shorter(1) [OF c(1)] .
    then have "6 * length (tl (skip t)) + 5 \<le> n" using "14.prems" skip_tl_shorter [of t] c(2) by linarith
    then show ?thesis using "14.IH"(2) [OF refl c(2)] by blast
  qed
  have "mexpr L N V n s0 \<noteq> Starved" using "14.IH"(1) "14.prems" by simp
  then show ?case using b by (auto simp: Let_def pbind_Starved)
qed simp_all

lemma pbind_same:
  "pbind r f \<noteq> Starved \<Longrightarrow> (r \<noteq> Starved \<Longrightarrow> r' = r) \<Longrightarrow>
   (\<And>v t. r = Parsed v t \<Longrightarrow> f v t \<noteq> Starved \<Longrightarrow> f' v t = f v t) \<Longrightarrow> pbind r' f' = pbind r f"
  by (cases r) auto

text \<open>More fuel changes nothing.\<close>

lemma parse_more_fuel:
  "mexpr L N V n s \<noteq> Starved \<Longrightarrow> n \<le> m \<Longrightarrow> mexpr L N V m s = mexpr L N V n s"
  "mexpr_more L N V n u s \<noteq> Starved \<Longrightarrow> n \<le> m \<Longrightarrow> mexpr_more L N V m u s = mexpr_more L N V n u s"
  "mterm L N V n s \<noteq> Starved \<Longrightarrow> n \<le> m \<Longrightarrow> mterm L N V m s = mterm L N V n s"
  "mterm_more L N V n u s \<noteq> Starved \<Longrightarrow> n \<le> m \<Longrightarrow> mterm_more L N V m u s = mterm_more L N V n u s"
  "munary L N V n s \<noteq> Starved \<Longrightarrow> n \<le> m \<Longrightarrow> munary L N V m s = munary L N V n s"
  "mprimary L N V n s \<noteq> Starved \<Longrightarrow> n \<le> m \<Longrightarrow> mprimary L N V m s = mprimary L N V n s"
  "margs L N V n s \<noteq> Starved \<Longrightarrow> n \<le> m \<Longrightarrow> margs L N V m s = margs L N V n s"
proof (induction L N V n s and L N V n u s and L N V n s and L N V n u s and L N V n s and L N V n s and L N V n s
    arbitrary: m and m and m and m and m and m and m
    rule: mexpr_mexpr_more_mterm_mterm_more_munary_mprimary_margs.induct)
  case (2 L N V n s)
  obtain m' where m: "m = Suc m'" "n \<le> m'" using "2.prems"(2) by (cases m) auto
  show ?case using "2.prems"(1) unfolding m(1) mexpr.simps
    by (rule pbind_same) (use "2.IH"(1) [OF _ m(2)] "2.IH"(2) [OF _ m(2)] in blast)+
next
  case (4 L N V n v s0)
  obtain m' where m: "m = Suc m'" "n \<le> m'" using "4.prems"(2) by (cases m) auto
  show ?case
  proof (cases "skip s0")
    case (Cons c s1)
    note ih = "4.IH"(1) [OF refl Cons _ _ m(2)] "4.IH"(2) [OF refl Cons _ _ m(2)] "4.IH"(3) [OF refl Cons _ _ _ m(2)] "4.IH"(4) [OF refl Cons _ _ _ m(2)]
    show ?thesis using ih "4.prems"(1) m Cons by (auto simp: Let_def intro!: pbind_same)
  qed (simp add: m)
next
  case (6 L N V n s)
  obtain m' where m: "m = Suc m'" "n \<le> m'" using "6.prems"(2) by (cases m) auto
  show ?case using "6.prems"(1) unfolding m(1) mterm.simps
    by (rule pbind_same) (use "6.IH"(1) [OF _ m(2)] "6.IH"(2) [OF _ m(2)] in blast)+
next
  case (8 L N V n v s0)
  obtain m' where m: "m = Suc m'" "n \<le> m'" using "8.prems"(2) by (cases m) auto
  show ?case
  proof (cases "skip s0")
    case (Cons c s1)
    note ih = "8.IH"(1) [OF refl Cons _ _ m(2)] "8.IH"(2) [OF refl Cons _ _ m(2)] "8.IH"(3) [OF refl Cons _ _ _ m(2)] "8.IH"(4) [OF refl Cons _ _ _ _ m(2)]
      "8.IH"(5) [OF refl Cons _ _ _ _ m(2)] "8.IH"(6) [OF refl Cons _ _ _ _ _ m(2)]
    show ?thesis using ih "8.prems"(1) m Cons by (auto simp: Let_def intro!: pbind_same)
  qed (simp add: m)
next
  case (10 L N V n s0)
  obtain m' where m: "m = Suc m'" "n \<le> m'" using "10.prems"(2) by (cases m) auto
  show ?case
  proof (cases "skip s0")
    case Nil
    then show ?thesis using "10.IH"(1) [OF refl Nil _ m(2)] "10.prems"(1) m by simp
  next
    case (Cons c s1)
    note ih = "10.IH"(2) [OF refl Cons _ _ m(2)] "10.IH"(3) [OF refl Cons _ _ _ m(2)] "10.IH"(4) [OF refl Cons _ _ _ m(2)]
    show ?thesis using ih "10.prems"(1) m Cons by (auto simp: Let_def intro!: pbind_same)
  qed
next
  case (12 L N V n s0)
  obtain m' where m: "m = Suc m'" "n \<le> m'" using "12.prems"(2) by (cases m) auto
  show ?case using "12.IH"(1) [OF _ _ m(2)] "12.IH"(2) [OF _ _ _ m(2)] "12.prems"(1) m
    by (cases "read_primary s0") (auto intro!: pbind_same)
next
  case (14 L N V n s0)
  obtain m' where m: "m = Suc m'" "n \<le> m'" using "14.prems"(2) by (cases m) auto
  show ?case using "14.IH"(1) [OF _ m(2)] "14.IH"(2) [OF refl _ _ m(2)] "14.prems"(1) m
    by (auto simp: Let_def split: if_splits intro!: pbind_same)
qed simp_all

lemma enough_fuel_decides:
  "enough_fuel s \<le> n \<Longrightarrow> mexpr L N V n s = mexpr L N V (enough_fuel s) s"
  using parse_more_fuel(1) parse_fed(1) by (simp add: enough_fuel_def)

end
