(* ===== verification/FlowGrammar.thy ===== *)
theory FlowGrammar
  imports FlowMath
begin

text \<open>
  What the evaluator of a compute node computes: a grammar of expressions with their values, the text of
  an expression, and the equality of the two. Nothing here is code of the program but the grammar that
  \<open>MathExpression\<close> of opcbridge-flow/opcbridge\_flow.cpp follows.
\<close>

section \<open>The grammar the evaluator implements\<close>

text \<open>
  Sums of terms, to the left; terms of signed factors, to the left; signs; numbers, inputs, calls and
  parentheses. \<open>None\<close>: the expression has no value.
\<close>

datatype mx = XTerm mt | XAdd mx mt | XSub mx mt
and mt = TUnary mu | TMul mt mu | TDiv mt mu | TMod mt mu
and mu = UPos mu | UNeg mu | UPrim mp
and mp = PParen mx | PNum string "string option" | PVar string | PCall string "mx list"

definition number_text :: "string \<Rightarrow> string option \<Rightarrow> string" where
  "number_text w f = w @ (case f of None \<Rightarrow> [] | Some ds \<Rightarrow> CHR ''.'' # ds)"

definition both :: "(dbl \<Rightarrow> dbl \<Rightarrow> dbl option) \<Rightarrow> dbl option \<Rightarrow> dbl option \<Rightarrow> dbl option" where
  "both f a b = (case (a, b) of (Some x, Some y) \<Rightarrow> f x y | _ \<Rightarrow> None)"

definition nonzero :: "(dbl \<Rightarrow> dbl \<Rightarrow> dbl) \<Rightarrow> dbl \<Rightarrow> dbl \<Rightarrow> dbl option" where
  "nonzero f x y = (if deq y (DFin 0) then None else Some (f x y))"

primrec val_x and val_t and val_u and val_p where
  "val_x L V (XTerm t) = val_t L V t"
| "val_x L V (XAdd x t) = both (\<lambda>a b. Some (dadd a b)) (val_x L V x) (val_t L V t)"
| "val_x L V (XSub x t) = both (\<lambda>a b. Some (dsub a b)) (val_x L V x) (val_t L V t)"
| "val_t L V (TUnary u) = val_u L V u"
| "val_t L V (TMul t u) = both (\<lambda>a b. Some (dmul a b)) (val_t L V t) (val_u L V u)"
| "val_t L V (TDiv t u) = both (nonzero ddiv) (val_t L V t) (val_u L V u)"
| "val_t L V (TMod t u) = both (nonzero dfmod) (val_t L V t) (val_u L V u)"
| "val_u L V (UPos u) = val_u L V u"
| "val_u L V (UNeg u) = map_option dneg (val_u L V u)"
| "val_u L V (UPrim p) = val_p L V p"
| "val_p L V (PParen x) = val_x L V x"
| "val_p L V (PNum w f) = (case stod (number_text w f) of Inr (v, rest) \<Rightarrow> Some v | Inl e \<Rightarrow> None)"
| "val_p L V (PVar name) = V name"
| "val_p L V (PCall f xs) =
     (case those (map (val_x L V) xs) of None \<Rightarrow> None
      | Some vs \<Rightarrow> (case math_function L f vs of Inl m \<Rightarrow> None | Inr v \<Rightarrow> Some v))"

text \<open>The text of an expression, with the blanks \<open>b\<close> before every token.\<close>

fun commas :: "string \<Rightarrow> string list \<Rightarrow> string" where
  "commas b [] = []"
| "commas b [s] = s"
| "commas b (s # t # ss) = s @ b @ '','' @ commas b (t # ss)"

primrec text_x and text_t and text_u and text_p where
  "text_x b (XTerm t) = text_t b t"
| "text_x b (XAdd x t) = text_x b x @ b @ ''+'' @ text_t b t"
| "text_x b (XSub x t) = text_x b x @ b @ ''-'' @ text_t b t"
| "text_t b (TUnary u) = text_u b u"
| "text_t b (TMul t u) = text_t b t @ b @ ''*'' @ text_u b u"
| "text_t b (TDiv t u) = text_t b t @ b @ ''/'' @ text_u b u"
| "text_t b (TMod t u) = text_t b t @ b @ ''%'' @ text_u b u"
| "text_u b (UPos u) = b @ ''+'' @ text_u b u"
| "text_u b (UNeg u) = b @ ''-'' @ text_u b u"
| "text_u b (UPrim p) = text_p b p"
| "text_p b (PParen x) = b @ ''('' @ text_x b x @ b @ '')''"
| "text_p b (PNum w f) = b @ number_text w f"
| "text_p b (PVar name) = b @ name"
| "text_p b (PCall f xs) = b @ f @ b @ ''('' @ commas b (map (text_x b) xs) @ b @ '')''"

definition name_ok :: "string \<Rightarrow> bool" where
  "name_ok name \<longleftrightarrow> name \<noteq> [] \<and> list_all id_char name \<and> \<not> is_digit (hd name)"

definition number_ok :: "string \<Rightarrow> string option \<Rightarrow> bool" where
  "number_ok w f \<longleftrightarrow> list_all is_digit w \<and> (case f of None \<Rightarrow> w \<noteq> [] | Some ds \<Rightarrow> list_all is_digit ds \<and> (w \<noteq> [] \<or> ds \<noteq> []))"

primrec ok_x and ok_t and ok_u and ok_p where
  "ok_x (XTerm t) \<longleftrightarrow> ok_t t"
| "ok_x (XAdd x t) \<longleftrightarrow> ok_x x \<and> ok_t t"
| "ok_x (XSub x t) \<longleftrightarrow> ok_x x \<and> ok_t t"
| "ok_t (TUnary u) \<longleftrightarrow> ok_u u"
| "ok_t (TMul t u) \<longleftrightarrow> ok_t t \<and> ok_u u"
| "ok_t (TDiv t u) \<longleftrightarrow> ok_t t \<and> ok_u u"
| "ok_t (TMod t u) \<longleftrightarrow> ok_t t \<and> ok_u u"
| "ok_u (UPos u) \<longleftrightarrow> ok_u u"
| "ok_u (UNeg u) \<longleftrightarrow> ok_u u"
| "ok_u (UPrim p) \<longleftrightarrow> ok_p p"
| "ok_p (PParen x) \<longleftrightarrow> ok_x x"
| "ok_p (PNum w f) \<longleftrightarrow> number_ok w f"
| "ok_p (PVar name) \<longleftrightarrow> name_ok name"
| "ok_p (PCall f xs) \<longleftrightarrow> name_ok f \<and> list_all ok_x xs"

section \<open>Reading tokens\<close>

text \<open>What may follow an operand: blanks, then an operator, a comma, a closing parenthesis or the end.\<close>

definition follows :: "string \<Rightarrow> string \<Rightarrow> bool" where
  "follows cs s \<longleftrightarrow> skip s = [] \<or> hd (skip s) \<in> set cs"

abbreviation stops :: "string \<Rightarrow> bool" where
  "stops \<equiv> follows ''),+-*/%''"

abbreviation ends_sum :: "string \<Rightarrow> bool" where
  "ends_sum \<equiv> follows ''),''"

lemma skip_blanks [simp]: "list_all is_space b \<Longrightarrow> skip (b @ s) = skip s"
  by (induction b) (auto simp: skip_def)

lemma skip_skip [simp]: "skip (skip s) = skip s"
  by (simp add: skip_def)

lemma skip_Cons [simp]: "\<not> is_space c \<Longrightarrow> skip (c # s) = c # s"
  by (simp add: skip_def)

lemma skip_Nil [simp]: "skip [] = []"
  by (simp add: skip_def)

lemma stops_head:
  assumes "stops s" "s \<noteq> []"
  shows "is_space (hd s) \<or> hd s \<in> set ''),+-*/%''"
  using assms by (cases s) (auto simp: follows_def skip_def split: if_splits)

lemma operator_chars: "c \<in> set ''),+-*/%'' \<Longrightarrow> \<not> is_space c \<and> \<not> id_char c \<and> \<not> is_digit c \<and> c \<noteq> CHR ''('' \<and> c \<noteq> CHR ''.''"
  by (auto simp: id_char_def char_simps)

lemma space_chars: "is_space c \<Longrightarrow> \<not> id_char c \<and> \<not> is_digit c \<and> c \<noteq> CHR ''.''"
  by (auto simp: id_char_def char_simps)

lemma stops_no_name: "stops s \<Longrightarrow> s \<noteq> [] \<Longrightarrow> \<not> id_char (hd s) \<and> \<not> is_digit (hd s) \<and> hd s \<noteq> CHR ''.''"
  using stops_head operator_chars space_chars by blast

lemma takeWhile_name:
  assumes "list_all P name" "s = [] \<or> \<not> P (hd s)"
  shows "takeWhile P (name @ s) = name" "dropWhile P (name @ s) = s"
  using assms by (induction name; cases s; simp)+

lemma read_name:
  assumes "name_ok name" "list_all is_space b" "stops s"
  shows "read_primary (b @ name @ s) = Input name (skip s)"
proof -
  obtain c cs where n: "name = c # cs" "id_char c" "\<not> is_digit c"
    using assms(1) by (cases name) (auto simp: name_ok_def)
  have c: "\<not> is_space c" "c \<noteq> CHR ''(''" "c \<noteq> CHR ''.''" using n(2) space_chars by (auto simp: id_char_def char_simps)
  have all: "list_all id_char name" using assms(1) by (simp add: name_ok_def)
  have t: "takeWhile id_char (name @ s) = name" "dropWhile id_char (name @ s) = s"
    using takeWhile_name [OF all] stops_no_name [OF assms(3)] by blast+
  have "\<not> (skip s \<noteq> [] \<and> hd (skip s) = CHR ''('')" using assms(3) operator_chars by (auto simp: follows_def)
  then show ?thesis using assms(2) n c t by (auto simp: read_primary_def Let_def)
qed

lemma read_call:
  assumes "name_ok name" "list_all is_space b" "list_all is_space b'"
  shows "read_primary (b @ name @ b' @ CHR ''('' # s) = Function name (skip s)"
proof -
  obtain c cs where n: "name = c # cs" "id_char c" "\<not> is_digit c"
    using assms(1) by (cases name) (auto simp: name_ok_def)
  have c: "\<not> is_space c" "c \<noteq> CHR ''(''" "c \<noteq> CHR ''.''" using n(2) space_chars by (auto simp: id_char_def char_simps)
  have all: "list_all id_char name" using assms(1) by (simp add: name_ok_def)
  have "\<not> id_char (hd (b' @ CHR ''('' # s))"
    using assms(3) space_chars by (cases b') (auto simp: id_char_def char_simps)
  then have t: "takeWhile id_char (name @ b' @ CHR ''('' # s) = name" "dropWhile id_char (name @ b' @ CHR ''('' # s) = b' @ CHR ''('' # s"
    using takeWhile_name [OF all] by blast+
  have "\<not> is_space (CHR ''('')" by (simp add: char_simps)
  then show ?thesis using assms(2,3) n c t by (auto simp: read_primary_def Let_def)
qed

lemma read_parenthesis: "list_all is_space b \<Longrightarrow> read_primary (b @ CHR ''('' # s) = Parenthesis s"
  by (simp add: read_primary_def Let_def char_simps)

text \<open>A number is read up to where it ends.\<close>

lemma number_split:
  assumes "number_ok w f" "s = [] \<or> \<not> is_digit (hd s) \<and> hd s \<noteq> CHR ''.''"
  shows "takeWhile is_digit (number_text w f @ s) = w"
    and "after_dot is_digit (dropWhile is_digit (number_text w f @ s)) = (case f of None \<Rightarrow> [] | Some ds \<Rightarrow> ds, s)"
proof -
  have dot: "\<not> is_digit (CHR ''.'')" by (simp add: char_simps)
  let ?r = "(case f of None \<Rightarrow> [] | Some ds \<Rightarrow> CHR ''.'' # ds) @ s"
  have w: "list_all is_digit w" using assms(1) by (simp add: number_ok_def)
  have "?r = [] \<or> \<not> is_digit (hd ?r)" using assms(2) dot by (auto split: option.splits)
  then have t: "takeWhile is_digit (w @ ?r) = w" "dropWhile is_digit (w @ ?r) = ?r" using takeWhile_name [OF w] by blast+
  then show "takeWhile is_digit (number_text w f @ s) = w" by (simp add: number_text_def)
  have "after_dot is_digit ?r = (case f of None \<Rightarrow> [] | Some ds \<Rightarrow> ds, s)"
  proof (cases f)
    case None
    then show ?thesis using assms(2) by (cases s) (auto simp: after_dot_def)
  next
    case (Some ds)
    then have "list_all is_digit ds" using assms(1) by (simp add: number_ok_def)
    then show ?thesis using takeWhile_name [of is_digit ds s] assms(2) Some by (auto simp: after_dot_def)
  qed
  then show "after_dot is_digit (dropWhile is_digit (number_text w f @ s)) = (case f of None \<Rightarrow> [] | Some ds \<Rightarrow> ds, s)"
    using t by (simp add: number_text_def)
qed

lemma no_exponent: "s = [] \<or> to_lower (hd s) \<noteq> l \<Longrightarrow> read_exponent l s = (0, s)"
  by (cases s) (auto simp: read_exponent_def)

lemma stops_not_letter: "stops s \<Longrightarrow> s = [] \<or> (to_lower (hd s) \<noteq> CHR ''e'' \<and> to_lower (hd s) \<noteq> CHR ''x'')"
  using stops_head [of s] by (cases s) (auto simp: char_simps)

lemma number_head:
  assumes "number_ok w f"
  obtains c cs where "number_text w f = c # cs" "is_digit c \<or> c = CHR ''.''" "list_all (\<lambda>c. is_digit c \<or> c = CHR ''.'') cs"
proof -
  have "list_all (\<lambda>c. is_digit c \<or> c = CHR ''.'') (number_text w f)" "number_text w f \<noteq> []"
    using assms by (auto simp: number_ok_def number_text_def list_all_iff split: option.splits)
  then show thesis using that by (cases "number_text w f") auto
qed

lemma digit_or_dot: "is_digit c \<or> c = CHR ''.'' \<Longrightarrow> to_lower c = c \<and> \<not> is_space c \<and> c \<noteq> CHR ''-'' \<and> c \<noteq> CHR ''+'' \<and>
    c \<noteq> CHR ''i'' \<and> c \<noteq> CHR ''n'' \<and> c \<noteq> CHR ''x''"
  by (auto simp: char_simps)

lemma read_decimal_number:
  assumes "number_ok w f" "stops s"
  shows "\<exists>x. \<forall>t. stops t \<longrightarrow> read_decimal (number_text w f @ t) = Some (x, t)"
proof -
  let ?ds = "case f of None \<Rightarrow> [] | Some ds \<Rightarrow> ds"
  have "\<not> (w = [] \<and> ?ds = [])" using assms(1) by (auto simp: number_ok_def split: option.splits)
  then have "read_decimal (number_text w f @ t) = Some (of_int (digits_value (w @ ?ds)) * 10 powi (0 - int (length ?ds)), t)"
    if "stops t" for t
  proof -
    have "t = [] \<or> \<not> is_digit (hd t) \<and> hd t \<noteq> CHR ''.''" using stops_no_name [OF that] by blast
    note sp = number_split [OF assms(1) this]
    have "read_exponent (CHR ''e'') t = (0, t)" using stops_not_letter [OF that] by (intro no_exponent) blast
    then show ?thesis using sp \<open>\<not> (w = [] \<and> ?ds = [])\<close> by (simp add: read_decimal_def)
  qed
  then show ?thesis by blast
qed

lemma read_magnitude_number:
  assumes "number_ok w f" "stops s"
  shows "read_magnitude (number_text w f @ s) = (case read_decimal (number_text w f @ s) of None \<Rightarrow> None | Some (x, rest) \<Rightarrow> Some (Exact x, rest))"
proof -
  obtain c cs where n: "number_text w f = c # cs" "is_digit c \<or> c = CHR ''.''" "list_all (\<lambda>c. is_digit c \<or> c = CHR ''.'') cs"
    using number_head [OF assms(1)] .
  have c: "to_lower c = c" "c \<noteq> CHR ''i''" "c \<noteq> CHR ''n''" using digit_or_dot [OF n(2)] by simp_all
  have x: "take 2 (to_lower_copy (c # cs @ s)) \<noteq> ''0x''"
  proof (cases cs)
    case Nil
    then show ?thesis using stops_not_letter [OF assms(2)] by (cases s) (auto simp: to_lower_copy_def)
  next
    case (Cons d ds)
    then show ?thesis using digit_or_dot [of d] n(3) by (simp add: to_lower_copy_def)
  qed
  have i: "take 8 (to_lower_copy (c # cs @ s)) \<noteq> ''infinity''" "take 3 (to_lower_copy (c # cs @ s)) \<noteq> ''inf''"
      "take 3 (to_lower_copy (c # cs @ s)) \<noteq> ''nan''"
    using c by (simp_all add: to_lower_copy_def)
  show ?thesis unfolding read_magnitude_def Let_def n(1) append_Cons using i x by (simp only: if_False option.case)
qed

lemma stod_number:
  assumes "number_ok w f" "stops s"
  shows "stod (number_text w f @ s) = (case stod (number_text w f) of Inl e \<Rightarrow> Inl e | Inr (v, r) \<Rightarrow> Inr (v, s))"
proof -
  obtain x where x: "read_decimal (number_text w f @ t) = Some (x, t)" if "stops t" for t
    using read_decimal_number [OF assms] by blast
  obtain c cs where n: "number_text w f = c # cs" "is_digit c \<or> c = CHR ''.''"
    using number_head [OF assms(1)] by metis
  have sg: "split_sign (dropWhile is_space (number_text w f @ t)) = (False, number_text w f @ t)" for t
    using digit_or_dot [OF n(2)] by (simp add: n(1))
  have m: "read_magnitude (number_text w f @ t) = Some (Exact x, t)" if "stops t" for t
    using read_magnitude_number [OF assms(1) that] x [OF that] by simp
  have "stops []" by (simp add: follows_def)
  from m [OF assms(2)] m [OF this] sg [of s] sg [of "[]"] show ?thesis
    by (simp add: stod_def strto_float_def Let_def split: dbl.splits)
qed

lemma read_number_text:
  assumes "number_ok w f" "list_all is_space b" "stops s"
  shows "read_primary (b @ number_text w f @ s) = Number (number_text w f @ s)"
proof -
  obtain c cs where n: "number_text w f = c # cs" "is_digit c \<or> c = CHR ''.''"
    using number_head [OF assms(1)] by metis
  have "c \<noteq> CHR ''(''" using n(2) by (auto simp: char_simps)
  then show ?thesis using digit_or_dot [OF n(2)] n assms(2) by (auto simp: read_primary_def Let_def)
qed

section \<open>What enough fuel gives\<close>

definition reaches :: "(nat \<Rightarrow> 'a parse) \<Rightarrow> 'a parse \<Rightarrow> bool" where
  "reaches f r \<longleftrightarrow> (\<exists>n. \<forall>m\<ge>n. f m = r)"

lemma reaches_const: "reaches (\<lambda>n. r) r"
  by (simp add: reaches_def)

lemma reaches_Suc: "reaches (\<lambda>n. f (Suc n)) r \<Longrightarrow> reaches f r"
  unfolding reaches_def by (metis Suc_le_D Suc_le_mono)

lemma reaches_bind:
  assumes "reaches f (Parsed v s)" "reaches (\<lambda>n. g n v s) r"
  shows "reaches (\<lambda>n. pbind (f n) (g n)) r"
proof -
  obtain n1 n2 where n: "\<forall>m\<ge>n1. f m = Parsed v s" "\<forall>m\<ge>n2. g m v s = r" using assms by (auto simp: reaches_def)
  have "\<forall>m\<ge>max n1 n2. pbind (f m) (g m) = r" using n by simp
  then show ?thesis unfolding reaches_def by blast
qed

lemma reaches_bind_fails: "reaches f (Failed m) \<Longrightarrow> reaches (\<lambda>n. pbind (f n) (g n)) (Failed m)"
  by (force simp: reaches_def)

definition fails :: "(nat \<Rightarrow> 'a parse) \<Rightarrow> bool" where
  "fails f \<longleftrightarrow> (\<exists>m. reaches f (Failed m))"

lemma fails_bind: "fails f \<Longrightarrow> fails (\<lambda>n. pbind (f n) (g n))"
  using reaches_bind_fails by (auto simp: fails_def)

lemma fails_after: "reaches f (Parsed v s) \<Longrightarrow> fails (\<lambda>n. g n v s) \<Longrightarrow> fails (\<lambda>n. pbind (f n) (g n))"
  unfolding fails_def using reaches_bind [of f v s g] by blast

lemma fails_Suc: "fails (\<lambda>n. f (Suc n)) \<Longrightarrow> fails f"
  using reaches_Suc by (auto simp: fails_def)

lemma fails_math: "fails (\<lambda>n. math_fail N m s)"
  using reaches_const by (auto simp: fails_def math_fail_def)

section \<open>The evaluator follows the grammar\<close>

definition sum_read :: "math_lib \<Rightarrow> nat \<Rightarrow> (string \<rightharpoonup> dbl) \<Rightarrow> string \<Rightarrow> mx \<Rightarrow> string \<Rightarrow> bool" where
  "sum_read L N V b x s \<longleftrightarrow> (case val_x L V x of
      None \<Rightarrow> fails (\<lambda>n. mexpr L N V n (text_x b x @ s))
    | Some v \<Rightarrow> \<forall>r. reaches (\<lambda>n. mexpr_more L N V n v s) r \<longrightarrow> reaches (\<lambda>n. mexpr L N V n (text_x b x @ s)) r)"

definition term_read :: "math_lib \<Rightarrow> nat \<Rightarrow> (string \<rightharpoonup> dbl) \<Rightarrow> string \<Rightarrow> mt \<Rightarrow> string \<Rightarrow> bool" where
  "term_read L N V b t s \<longleftrightarrow> (case val_t L V t of
      None \<Rightarrow> fails (\<lambda>n. mterm L N V n (text_t b t @ s))
    | Some v \<Rightarrow> \<forall>r. reaches (\<lambda>n. mterm_more L N V n v s) r \<longrightarrow> reaches (\<lambda>n. mterm L N V n (text_t b t @ s)) r)"

definition operand_read :: "(nat \<Rightarrow> dbl parse) \<Rightarrow> dbl option \<Rightarrow> string \<Rightarrow> bool" where
  "operand_read f val s \<longleftrightarrow> (case val of None \<Rightarrow> fails f | Some v \<Rightarrow> \<exists>t. skip t = skip s \<and> reaches f (Parsed v t))"

lemma follows_weaken: "follows cs s \<Longrightarrow> set cs \<subseteq> set ds \<Longrightarrow> follows ds s"
  by (auto simp: follows_def)

lemma follows_Cons: "list_all is_space b \<Longrightarrow> \<not> is_space c \<Longrightarrow> c \<in> set cs \<Longrightarrow> follows cs (b @ c # s)"
  by (simp add: follows_def)

lemma operators_no_space [simp]:
  "\<not> is_space (CHR ''+'')" "\<not> is_space (CHR ''-'')" "\<not> is_space (CHR ''*'')" "\<not> is_space (CHR ''/'')" "\<not> is_space (CHR ''%'')"
  "\<not> is_space (CHR ''('')" "\<not> is_space (CHR '')'')" "\<not> is_space (CHR '','')"
  by (simp_all add: char_simps)

text \<open>After a term nothing is left for the loop of factors, after a sum nothing for the loop of terms.\<close>

lemma more_stops:
  "follows ''),+-'' s \<Longrightarrow> reaches (\<lambda>n. mterm_more L N V n v s) (Parsed v (skip s))"
  "ends_sum s \<Longrightarrow> reaches (\<lambda>n. mexpr_more L N V n v s) (Parsed v (skip s))"
proof -
  assume "follows ''),+-'' s"
  then have "mterm_more L N V (Suc n) v s = Parsed v (skip s)" for n
    by (cases "skip s") (auto simp: follows_def)
  then show "reaches (\<lambda>n. mterm_more L N V n v s) (Parsed v (skip s))" by - (rule reaches_Suc, simp only: reaches_const)
next
  assume "ends_sum s"
  then have "mexpr_more L N V (Suc n) v s = Parsed v (skip s)" for n
    by (cases "skip s") (auto simp: follows_def)
  then show "reaches (\<lambda>n. mexpr_more L N V n v s) (Parsed v (skip s))" by - (rule reaches_Suc, simp only: reaches_const)
qed

lemma more_skip: "mexpr_more L N V n v (skip s) = mexpr_more L N V n v s" "mterm_more L N V n v (skip s) = mterm_more L N V n v s"
  by (cases n; simp)+

lemma more_skip_eq: "skip t = skip s \<Longrightarrow> mexpr_more L N V n v t = mexpr_more L N V n v s"
  "skip t = skip s \<Longrightarrow> mterm_more L N V n v t = mterm_more L N V n v s"
  using more_skip by metis+

lemma term_ends:
  assumes "term_read L N V b t s" "follows ''),+-'' s"
  shows "operand_read (\<lambda>n. mterm L N V n (text_t b t @ s)) (val_t L V t) s"
proof (cases "val_t L V t")
  case (Some v)
  then have "reaches (\<lambda>n. mterm L N V n (text_t b t @ s)) (Parsed v (skip s))"
    using assms(1) more_stops(1) [OF assms(2)] by (simp add: term_read_def)
  then show ?thesis unfolding operand_read_def Some option.case by (intro exI conjI) (rule skip_skip)
qed (use assms in \<open>simp add: term_read_def operand_read_def\<close>)

lemma sum_ends:
  assumes "sum_read L N V b x s" "ends_sum s"
  shows "operand_read (\<lambda>n. mexpr L N V n (text_x b x @ s)) (val_x L V x) s"
proof (cases "val_x L V x")
  case (Some v)
  then have "reaches (\<lambda>n. mexpr L N V n (text_x b x @ s)) (Parsed v (skip s))"
    using assms(1) more_stops(2) [OF assms(2)] by (simp add: sum_read_def)
  then show ?thesis unfolding operand_read_def Some option.case by (intro exI conjI) (rule skip_skip)
qed (use assms in \<open>simp add: sum_read_def operand_read_def\<close>)

text \<open>An operand, then the loop it leads into.\<close>

lemma operand_then:
  assumes "operand_read f (Some v) s" "\<And>t. skip t = skip s \<Longrightarrow> reaches (\<lambda>n. g n v t) r"
  shows "reaches (\<lambda>n. pbind (f n) (g n)) r"
proof -
  obtain t where "skip t = skip s" "reaches f (Parsed v t)" using assms(1) by (auto simp: operand_read_def)
  then show ?thesis using reaches_bind [of f v t g r] assms(2) [of t] by simp
qed

lemma operand_then_fails:
  assumes "operand_read f val s" "\<And>t v. val = Some v \<Longrightarrow> skip t = skip s \<Longrightarrow> fails (\<lambda>n. g n v t)"
  shows "fails (\<lambda>n. pbind (f n) (g n))"
proof (cases val)
  case (Some v)
  then obtain t where "skip t = skip s" "reaches f (Parsed v t)" using assms(1) by (auto simp: operand_read_def)
  then show ?thesis using fails_after [of f v t g] assms(2) [OF Some, of t] by simp
qed (use assms fails_bind in \<open>simp add: operand_read_def\<close>)

text \<open>One more summand, one more factor.\<close>

lemma read_sum_of_term:
  assumes "term_read L N V b t s" "follows ''),+-'' s"
  shows "sum_read L N V b (XTerm t) s"
proof -
  note t = term_ends [OF assms]
  show ?thesis
  proof (cases "val_t L V t")
    case None
    then have "fails (\<lambda>n. mterm L N V n (text_t b t @ s))" using t by (simp add: operand_read_def)
    then have "fails (\<lambda>n. mexpr L N V n (text_t b t @ s))" by (intro fails_Suc [of "\<lambda>n. mexpr L N V n (text_t b t @ s)"]) (simp add: fails_bind)
    then show ?thesis using None by (simp add: sum_read_def)
  next
    case (Some v)
    have "reaches (\<lambda>n. mexpr L N V n (text_t b t @ s)) r" if r: "reaches (\<lambda>n. mexpr_more L N V n v s) r" for r
    proof (rule reaches_Suc, unfold mexpr.simps, rule operand_then [OF t [unfolded Some]])
      fix u assume e: "skip u = skip s"
      then show "reaches (\<lambda>n. mexpr_more L N V n v u) r" using r by (simp only: more_skip_eq(1) [OF e])
    qed
    then show ?thesis using Some by (simp add: sum_read_def)
  qed
qed

lemma read_sum:
  assumes "sum_read L N V b x (b @ c # text_t b t @ s)" "term_read L N V b t s" "follows ''),+-'' s"
    and step: "\<And>n v. mexpr_more L N V (Suc n) v (b @ c # text_t b t @ s) =
      pbind (mterm L N V n (text_t b t @ s)) (\<lambda>w s. mexpr_more L N V n (f v w) s)"
    and y: "val_x L V y = both (\<lambda>a b. Some (f a b)) (val_x L V x) (val_t L V t)" "text_x b y = text_x b x @ b @ c # text_t b t"
  shows "sum_read L N V b y s"
proof (cases "val_x L V x")
  case None
  then show ?thesis using assms(1) y by (simp add: sum_read_def both_def)
next
  case v: (Some v)
  let ?s = "b @ c # text_t b t @ s"
  note t = term_ends [OF assms(2,3)]
  have lead: "reaches (\<lambda>n. mexpr L N V n (text_x b y @ s)) r" if "reaches (\<lambda>n. mexpr_more L N V n v ?s) r" for r
    using assms(1) v y(2) that by (simp add: sum_read_def)
  show ?thesis
  proof (cases "val_t L V t")
    case None
    then have "fails (\<lambda>n. mterm L N V n (text_t b t @ s))" using t by (simp add: operand_read_def)
    then have "fails (\<lambda>n. mexpr_more L N V n v ?s)"
      by (intro fails_Suc [of "\<lambda>n. mexpr_more L N V n v ?s"]) (simp only: step fails_bind)
    then show ?thesis using lead v None y by (auto simp: sum_read_def both_def fails_def)
  next
    case (Some w)
    have "reaches (\<lambda>n. mexpr_more L N V n v ?s) r" if r: "reaches (\<lambda>n. mexpr_more L N V n (f v w) s) r" for r
    proof (rule reaches_Suc, unfold step, rule operand_then [OF t [unfolded Some]])
      fix u assume e: "skip u = skip s"
      then show "reaches (\<lambda>n. mexpr_more L N V n (f v w) u) r" using r by (simp only: more_skip_eq(1) [OF e])
    qed
    then show ?thesis using lead v Some y by (simp add: sum_read_def both_def)
  qed
qed

lemma read_term_of_operand:
  assumes "operand_read (\<lambda>n. munary L N V n (text_u b u @ s)) (val_u L V u) s"
  shows "term_read L N V b (TUnary u) s"
proof (cases "val_u L V u")
  case None
  then have "fails (\<lambda>n. munary L N V n (text_u b u @ s))" using assms by (simp add: operand_read_def)
  then have "fails (\<lambda>n. mterm L N V n (text_u b u @ s))" by (intro fails_Suc [of "\<lambda>n. mterm L N V n (text_u b u @ s)"]) (simp add: fails_bind)
  then show ?thesis using None by (simp add: term_read_def)
next
  case (Some v)
  have "reaches (\<lambda>n. mterm L N V n (text_u b u @ s)) r" if r: "reaches (\<lambda>n. mterm_more L N V n v s) r" for r
  proof (rule reaches_Suc, unfold mterm.simps, rule operand_then [OF assms [unfolded Some]])
    fix t assume e: "skip t = skip s"
    then show "reaches (\<lambda>n. mterm_more L N V n v t) r" using r by (simp only: more_skip_eq(2) [OF e])
  qed
  then show ?thesis using Some by (simp add: term_read_def)
qed

lemma read_term:
  assumes "term_read L N V b t (b @ c # text_u b u @ s)" "operand_read (\<lambda>n. munary L N V n (text_u b u @ s)) (val_u L V u) s"
    and step: "\<And>n v. mterm_more L N V (Suc n) v (b @ c # text_u b u @ s) =
      pbind (munary L N V n (text_u b u @ s)) (\<lambda>w s. case f v w of None \<Rightarrow> math_fail N ''division by zero'' s | Some z \<Rightarrow> mterm_more L N V n z s)"
    and y: "val_t L V y = both f (val_t L V t) (val_u L V u)" "text_t b y = text_t b t @ b @ c # text_u b u"
  shows "term_read L N V b y s"
proof (cases "val_t L V t")
  case None
  then show ?thesis using assms(1) y by (simp add: term_read_def both_def)
next
  case v: (Some v)
  let ?s = "b @ c # text_u b u @ s"
  have lead: "reaches (\<lambda>n. mterm L N V n (text_t b y @ s)) r" if "reaches (\<lambda>n. mterm_more L N V n v ?s) r" for r
    using assms(1) v y(2) that by (simp add: term_read_def)
  show ?thesis
  proof (cases "both f (Some v) (val_u L V u)")
    case None
    have "fails (\<lambda>n. mterm_more L N V n v ?s)"
    proof (rule fails_Suc, unfold step, rule operand_then_fails [OF assms(2)])
      fix z w assume "val_u L V u = Some w"
      then show "fails (\<lambda>n. case f v w of None \<Rightarrow> math_fail N ''division by zero'' z | Some z' \<Rightarrow> mterm_more L N V n z' z)"
        using None fails_math by (simp add: both_def)
    qed
    then show ?thesis using lead v None y by (auto simp: term_read_def fails_def)
  next
    case (Some z)
    then obtain w where w: "val_u L V u = Some w" "f v w = Some z" by (auto simp: both_def split: option.splits)
    have "reaches (\<lambda>n. mterm_more L N V n v ?s) r" if r: "reaches (\<lambda>n. mterm_more L N V n z s) r" for r
    proof (rule reaches_Suc, unfold step, rule operand_then [OF assms(2) [unfolded w(1)]])
      fix t assume e: "skip t = skip s"
      then show "reaches (\<lambda>n. case f v w of None \<Rightarrow> math_fail N ''division by zero'' t | Some z' \<Rightarrow> mterm_more L N V n z' t) r"
        using r w by (simp add: more_skip_eq(2) [OF e])
    qed
    then show ?thesis using lead v Some y by (simp add: term_read_def)
  qed
qed

text \<open>Signs.\<close>

lemma operand_Suc:
  assumes "operand_read (\<lambda>n. f (Suc n)) val s"
  shows "operand_read f val s"
proof (cases val)
  case None
  then show ?thesis using assms fails_Suc [of f] by (simp add: operand_read_def)
next
  case (Some v)
  then obtain t where "skip t = skip s" "reaches (\<lambda>n. f (Suc n)) (Parsed v t)" using assms by (auto simp: operand_read_def)
  then have "skip t = skip s \<and> reaches f (Parsed v t)" using reaches_Suc [of f] by blast
  then show ?thesis unfolding operand_read_def Some option.case by (rule exI)
qed

lemma operand_map:
  assumes "operand_read f val s"
  shows "operand_read (\<lambda>n. pbind (f n) (\<lambda>v s. Parsed (g v) s)) (map_option g val) s"
proof (cases val)
  case None
  then show ?thesis using assms fails_bind by (simp add: operand_read_def)
next
  case (Some v)
  then obtain t where t: "skip t = skip s" "reaches f (Parsed v t)" using assms by (auto simp: operand_read_def)
  have "reaches (\<lambda>n. pbind (f n) (\<lambda>v s. Parsed (g v) s)) (Parsed (g v) t)"
    by (rule reaches_bind [OF t(2)], rule reaches_const)
  then show ?thesis using t(1) Some by (auto simp: operand_read_def)
qed

lemma read_skip:
  "munary L N V n (skip s) = munary L N V n s" "mterm L N V n (skip s) = mterm L N V n s"
  "mexpr L N V n (skip s) = mexpr L N V n s" "margs L N V n (skip s) = margs L N V n s"
  "mprimary L N V n (skip s) = mprimary L N V n s"
proof -
  show u: "munary L N V n (skip s) = munary L N V n s" for n by (cases n) simp_all
  show t: "mterm L N V n (skip s) = mterm L N V n s" for n by (cases n) (simp_all add: u)
  show x: "mexpr L N V n (skip s) = mexpr L N V n s" for n by (cases n) (simp_all add: t)
  show "margs L N V n (skip s) = margs L N V n s" by (cases n) (simp_all add: x)
  show "mprimary L N V n (skip s) = mprimary L N V n s" by (cases n) (simp_all add: read_primary_def)
qed

lemma read_signed:
  assumes "operand_read (\<lambda>n. munary L N V n (text_u b u @ s)) (val_u L V u) s" "list_all is_space b"
  shows "operand_read (\<lambda>n. munary L N V n (text_u b (UPos u) @ s)) (val_u L V (UPos u)) s"
    and "operand_read (\<lambda>n. munary L N V n (text_u b (UNeg u) @ s)) (val_u L V (UNeg u)) s"
proof -
  have "operand_read (\<lambda>n. munary L N V (Suc n) (text_u b (UPos u) @ s)) (val_u L V (UPos u)) s"
    using assms by simp
  then show "operand_read (\<lambda>n. munary L N V n (text_u b (UPos u) @ s)) (val_u L V (UPos u)) s" by (rule operand_Suc)
  have "operand_read (\<lambda>n. munary L N V (Suc n) (text_u b (UNeg u) @ s)) (val_u L V (UNeg u)) s"
    using assms operand_map [OF assms(1), of dneg] by simp
  then show "operand_read (\<lambda>n. munary L N V n (text_u b (UNeg u) @ s)) (val_u L V (UNeg u)) s" by (rule operand_Suc)
qed

lemma read_operand:
  assumes "operand_read (\<lambda>n. mprimary L N V n (text_p b p @ s)) (val_p L V p) s"
    and "skip (text_p b p @ s) = c # cs" "c \<noteq> CHR ''+''" "c \<noteq> CHR ''-''"
  shows "operand_read (\<lambda>n. munary L N V n (text_u b (UPrim p) @ s)) (val_u L V (UPrim p)) s"
proof (rule operand_Suc)
  have "munary L N V (Suc n) (text_u b (UPrim p) @ s) = mprimary L N V n (text_p b p @ s)" for n
    using assms(2-) read_skip(5) [of L N V n "text_p b p @ s"] by simp
  then show "operand_read (\<lambda>n. munary L N V (Suc n) (text_u b (UPrim p) @ s)) (val_u L V (UPrim p)) s"
    using assms(1) by simp
qed

text \<open>Where a text begins.\<close>

lemma begins_p:
  assumes "ok_p p" "list_all is_space b"
  shows "\<exists>c cs. skip (text_p b p @ s) = c # cs \<and> c \<notin> set ''+-)''"
proof -
  have name: "\<exists>c cs. skip (name @ s) = c # cs \<and> c \<notin> set ''+-)''" if "name_ok name" for name s
  proof -
    obtain c cs where "name = c # cs" "id_char c" using \<open>name_ok name\<close> by (cases name) (auto simp: name_ok_def)
    moreover have "c \<notin> set ''+-)'' \<and> \<not> is_space c" using \<open>id_char c\<close> space_chars operator_chars [of c] by auto
    ultimately show ?thesis by simp
  qed
  show ?thesis
  proof (cases p)
    case (PNum w f)
    then obtain c cs where "number_text w f = c # cs" "is_digit c \<or> c = CHR ''.''"
      using assms(1) number_head by (metis ok_p.simps(2))
    then show ?thesis using PNum assms(2) digit_or_dot [of c] by (auto simp: char_simps)
  next
    case (PVar name)
    then show ?thesis using assms name by simp
  next
    case (PCall f xs)
    then show ?thesis using assms name by simp
  qed (use assms in simp)
qed

lemma begins:
  "ok_x x \<Longrightarrow> list_all is_space b \<Longrightarrow> \<exists>c cs. skip (text_x b x @ s) = c # cs \<and> c \<noteq> CHR '')''"
  "ok_t t \<Longrightarrow> list_all is_space b \<Longrightarrow> \<exists>c cs. skip (text_t b t @ s) = c # cs \<and> c \<noteq> CHR '')''"
  "ok_u u \<Longrightarrow> list_all is_space b \<Longrightarrow> \<exists>c cs. skip (text_u b u @ s) = c # cs \<and> c \<noteq> CHR '')''"
  "ok_p p \<Longrightarrow> True"
proof (induction x and t and u and p arbitrary: s and s and s)
  case (UPrim p)
  then show ?case using begins_p [of p b s] by auto
qed simp_all

text \<open>Numbers, inputs, parentheses.\<close>

lemma operand_now: "(\<And>n. f (Suc n) = Parsed v t) \<Longrightarrow> skip t = skip s \<Longrightarrow> operand_read f (Some v) s"
  by (rule operand_Suc) (auto simp: operand_read_def reaches_def)

lemma operand_fails_now: "(\<And>n. f (Suc n) = Failed m) \<Longrightarrow> operand_read f None s"
  by (rule operand_Suc) (auto simp: operand_read_def fails_def reaches_def)

lemma read_leaf:
  assumes "list_all is_space b" "stops s"
  shows "number_ok w f \<Longrightarrow> operand_read (\<lambda>n. mprimary L N V n (text_p b (PNum w f) @ s)) (val_p L V (PNum w f)) s"
    and "name_ok name \<Longrightarrow> operand_read (\<lambda>n. mprimary L N V n (text_p b (PVar name) @ s)) (val_p L V (PVar name)) s"
proof -
  assume ok: "number_ok w f"
  have p: "mprimary L N V (Suc n) (text_p b (PNum w f) @ s) = read_number (number_text w f @ s)" for n
    using read_number_text [OF ok assms] by simp
  show "operand_read (\<lambda>n. mprimary L N V n (text_p b (PNum w f) @ s)) (val_p L V (PNum w f)) s"
  proof (cases "stod (number_text w f)")
    case (Inl e)
    then show ?thesis using p stod_number [OF ok assms(2)] by (simp add: operand_fails_now [where m = "''stod''"] read_number_def)
  next
    case (Inr vr)
    then show ?thesis using p stod_number [OF ok assms(2)]
      by (cases vr) (simp add: operand_now [where t = s] read_number_def)
  qed
next
  assume ok: "name_ok name"
  have p: "mprimary L N V (Suc n) (text_p b (PVar name) @ s) = variable N V name (skip s)" for n
    using read_name [OF ok assms] by simp
  show "operand_read (\<lambda>n. mprimary L N V n (text_p b (PVar name) @ s)) (val_p L V (PVar name)) s"
  proof (cases "V name")
    case None
    then show ?thesis using p by (auto simp: variable_def math_fail_def intro!: operand_fails_now)
  next
    case (Some v)
    then show ?thesis using p by (simp add: operand_now [where t = "skip s"] variable_def)
  qed
qed

lemma operand_bind_total:
  assumes "operand_read f val s0" "\<And>v t. skip t = skip s0 \<Longrightarrow> g v t = Parsed (h v) s"
  shows "operand_read (\<lambda>n. pbind (f n) g) (map_option h val) s"
proof (cases val)
  case None
  then show ?thesis using assms(1) fails_bind by (simp add: operand_read_def)
next
  case (Some v)
  then obtain t where t: "skip t = skip s0" "reaches f (Parsed v t)" using assms(1) by (auto simp: operand_read_def)
  have "reaches (\<lambda>n. pbind (f n) g) (Parsed (h v) s)"
    by (rule reaches_bind [OF t(2)]) (simp only: assms(2) [OF t(1)] reaches_const)
  then show ?thesis using Some by (auto simp: operand_read_def)
qed

lemma read_paren:
  assumes "sum_read L N V b x (b @ CHR '')'' # s)" "list_all is_space b"
  shows "operand_read (\<lambda>n. mprimary L N V n (text_p b (PParen x) @ s)) (val_p L V (PParen x)) s"
proof (rule operand_Suc)
  have e: "ends_sum (b @ CHR '')'' # s)" using assms(2) by (simp add: follows_def)
  have "operand_read (\<lambda>n. pbind (mexpr L N V n (text_x b x @ b @ CHR '')'' # s)) (close_paren N)) (map_option (\<lambda>v. v) (val_x L V x)) s"
    by (rule operand_bind_total [OF sum_ends [OF assms(1) e]]) (simp add: close_paren_def assms(2))
  then show "operand_read (\<lambda>n. mprimary L N V (Suc n) (text_p b (PParen x) @ s)) (val_p L V (PParen x)) s"
    using read_parenthesis [OF assms(2)] by (simp add: option.map_ident)
qed

text \<open>The arguments of a call.\<close>

lemma read_args:
  assumes "xs \<noteq> []" "\<And>x s. x \<in> set xs \<Longrightarrow> ends_sum s \<Longrightarrow> sum_read L N V b x s" "list_all is_space b"
  shows "case those (map (val_x L V) xs) of
      None \<Rightarrow> fails (\<lambda>n. margs L N V n (commas b (map (text_x b) xs) @ b @ CHR '')'' # s))
    | Some vs \<Rightarrow> reaches (\<lambda>n. margs L N V n (commas b (map (text_x b) xs) @ b @ CHR '')'' # s)) (Parsed vs s)"
  using assms(1,2)
proof (induction xs rule: list_nonempty_induct)
  case (single x)
  have e: "ends_sum (b @ CHR '')'' # s)" using assms(3) by (simp add: follows_def)
  note x = sum_ends [OF single(1) [OF list.set_intros(1) e] e]
  let ?g = "\<lambda>n v s4. let s = skip s4 in
       if s \<noteq> [] \<and> hd s = CHR '','' then pbind (margs L N V n (tl s)) (\<lambda>vs s. Parsed (v # vs) s)
       else if s \<noteq> [] \<and> hd s = CHR '')'' then Parsed [v] (tl s)
       else math_fail N ''missing ) after function'' s"
  have step: "margs L N V (Suc n) (text_x b x @ b @ CHR '')'' # s) = pbind (mexpr L N V n (text_x b x @ b @ CHR '')'' # s)) (?g n)" for n
    by simp
  show ?case
  proof (cases "val_x L V x")
    case None
    have "fails (\<lambda>n. margs L N V n (text_x b x @ b @ CHR '')'' # s))"
      by (rule fails_Suc, unfold step, rule operand_then_fails [OF x]) (use None in simp_all)
    then show ?thesis using None by simp
  next
    case (Some v)
    have "reaches (\<lambda>n. margs L N V n (text_x b x @ b @ CHR '')'' # s)) (Parsed [v] s)"
    proof (rule reaches_Suc, unfold step, rule operand_then [OF x [unfolded Some]])
      fix t assume "skip t = skip (b @ CHR '')'' # s)"
      then show "reaches (\<lambda>n. ?g n v t) (Parsed [v] s)" using assms(3) reaches_const by simp
    qed
    then show ?thesis using Some by simp
  qed
next
  case (cons x xs)
  let ?rest = "commas b (map (text_x b) xs) @ b @ CHR '')'' # s"
  have shape: "commas b (map (text_x b) (x # xs)) @ b @ CHR '')'' # s = text_x b x @ b @ CHR '','' # ?rest"
    using cons(1) by (cases xs) simp_all
  have e: "ends_sum (b @ CHR '','' # ?rest)" using assms(3) by (simp add: follows_def)
  note x = sum_ends [OF cons(3) [OF list.set_intros(1) e] e]
  let ?g = "\<lambda>n v s4. let s = skip s4 in
       if s \<noteq> [] \<and> hd s = CHR '','' then pbind (margs L N V n (tl s)) (\<lambda>vs s. Parsed (v # vs) s)
       else if s \<noteq> [] \<and> hd s = CHR '')'' then Parsed [v] (tl s)
       else math_fail N ''missing ) after function'' s"
  have step: "margs L N V (Suc n) (text_x b x @ b @ CHR '','' # ?rest) = pbind (mexpr L N V n (text_x b x @ b @ CHR '','' # ?rest)) (?g n)" for n
    by simp
  have g: "?g n v t = pbind (margs L N V n ?rest) (\<lambda>vs s. Parsed (v # vs) s)" if "skip t = skip (b @ CHR '','' # ?rest)" for n v t
    using that assms(3) by simp
  have ih: "case those (map (val_x L V) xs) of
      None \<Rightarrow> fails (\<lambda>n. margs L N V n ?rest) | Some vs \<Rightarrow> reaches (\<lambda>n. margs L N V n ?rest) (Parsed vs s)"
    using cons(2,3) by simp
  show ?case
  proof (cases "those (map (val_x L V) (x # xs))")
    case None
    have "fails (\<lambda>n. margs L N V n (text_x b x @ b @ CHR '','' # ?rest))"
    proof (rule fails_Suc, unfold step, rule operand_then_fails [OF x])
      fix t v assume v: "val_x L V x = Some v" and t: "skip t = skip (b @ CHR '','' # ?rest)"
      have "fails (\<lambda>n. margs L N V n ?rest)" using ih None v by (auto split: option.splits)
      then show "fails (\<lambda>n. ?g n v t)" unfolding g [OF t] by (rule fails_bind)
    qed
    then show ?thesis unfolding shape None option.case .
  next
    case (Some vs)
    then obtain v ws where v: "val_x L V x = Some v" "those (map (val_x L V) xs) = Some ws" "vs = v # ws"
      by (auto split: option.splits)
    have "reaches (\<lambda>n. margs L N V n (text_x b x @ b @ CHR '','' # ?rest)) (Parsed vs s)"
    proof (rule reaches_Suc, unfold step, rule operand_then [OF x [unfolded v(1)]])
      fix t assume t: "skip t = skip (b @ CHR '','' # ?rest)"
      have "reaches (\<lambda>n. margs L N V n ?rest) (Parsed ws s)" using ih v(2) by simp
      then have "reaches (\<lambda>n. pbind (margs L N V n ?rest) (\<lambda>vs s. Parsed (v # vs) s)) (Parsed (v # ws) s)"
        by (rule reaches_bind) (rule reaches_const)
      then show "reaches (\<lambda>n. ?g n v t) (Parsed vs s)" unfolding g [OF t] v(3) .
    qed
    then show ?thesis unfolding shape Some option.case .
  qed
qed

lemma read_application:
  assumes "name_ok f" "list_all ok_x xs" "list_all is_space b" "\<And>x s. x \<in> set xs \<Longrightarrow> ends_sum s \<Longrightarrow> sum_read L N V b x s"
  shows "operand_read (\<lambda>n. mprimary L N V n (text_p b (PCall f xs) @ s)) (val_p L V (PCall f xs)) s"
proof (rule operand_Suc)
  let ?rest = "commas b (map (text_x b) xs) @ b @ CHR '')'' # s"
  let ?val = "\<lambda>vs. case math_function L f vs of Inl m \<Rightarrow> None | Inr v \<Rightarrow> Some v"
  have call: "operand_read (\<lambda>n. call_function L N f vs s) (?val vs) s" for vs
    by (cases "math_function L f vs") (auto simp: call_function_def operand_read_def intro: fails_math reaches_const)
  have head: "mprimary L N V (Suc n) (text_p b (PCall f xs) @ s) =
      (if skip ?rest \<noteq> [] \<and> hd (skip ?rest) = CHR '')'' then call_function L N f [] (tl (skip ?rest))
       else pbind (margs L N V n (skip ?rest)) (call_function L N f))" for n
    using read_call [OF assms(1,3,3), of ?rest] by simp
  show "operand_read (\<lambda>n. mprimary L N V (Suc n) (text_p b (PCall f xs) @ s)) (val_p L V (PCall f xs)) s"
  proof (cases xs)
    case Nil
    then show ?thesis unfolding head using call [of "[]"] assms(3) by simp
  next
    case (Cons x ys)
    obtain r where "?rest = text_x b x @ r" using Cons by (cases ys) auto
    then obtain c cs where "skip ?rest = c # cs" "c \<noteq> CHR '')''" using begins(1) [of x b r] assms(2,3) Cons by auto
    then have h: "mprimary L N V (Suc n) (text_p b (PCall f xs) @ s) = pbind (margs L N V n ?rest) (call_function L N f)" for n
      unfolding head read_skip(4) by simp
    have ne: "xs \<noteq> []" using Cons by simp
    note args = read_args [OF ne assms(4,3), where s = s, simplified]
    show ?thesis
    proof (cases "those (map (val_x L V) xs)")
      case None
      then have "fails (\<lambda>n. margs L N V n ?rest)" using args by simp
      then show ?thesis unfolding h using None by (simp add: operand_read_def fails_bind)
    next
      case (Some vs)
      then have a: "reaches (\<lambda>n. margs L N V n ?rest) (Parsed vs s)" using args by simp
      have "operand_read (\<lambda>n. pbind (margs L N V n ?rest) (call_function L N f)) (?val vs) s"
      proof (cases "math_function L f vs")
        case (Inl m)
        then have "fails (\<lambda>n. call_function L N f vs s)" using call [of vs] by (simp add: operand_read_def)
        then show ?thesis using Inl fails_after [OF a, of "\<lambda>n. call_function L N f"] by (simp add: operand_read_def)
      next
        case (Inr v)
        have "reaches (\<lambda>n. pbind (margs L N V n ?rest) (call_function L N f)) (Parsed v s)"
          by (rule reaches_bind [OF a]) (simp add: call_function_def Inr reaches_const)
        then show ?thesis using Inr by (auto simp: operand_read_def)
      qed
      then show ?thesis unfolding h using Some by simp
    qed
  qed
qed

lemma grammar_read:
  assumes b: "list_all is_space b"
  shows "ok_x x \<Longrightarrow> follows ''),+-'' s \<Longrightarrow> sum_read L N V b x s"
    and "ok_t t \<Longrightarrow> stops s \<Longrightarrow> term_read L N V b t s"
    and "ok_u u \<Longrightarrow> stops s \<Longrightarrow> operand_read (\<lambda>n. munary L N V n (text_u b u @ s)) (val_u L V u) s"
    and "ok_p p \<Longrightarrow> stops s \<Longrightarrow> operand_read (\<lambda>n. mprimary L N V n (text_p b p @ s)) (val_p L V p) s"
proof (induction x and t and u and p arbitrary: s and s and s and s)
  case (XTerm t)
  then show ?case using read_sum_of_term follows_weaken [of "''),+-''" s] by simp
next
  case (XAdd x t)
  have w: "term_read L N V b t s" using XAdd follows_weaken [of "''),+-''" s] by simp
  have "follows ''),+-'' (b @ CHR ''+'' # text_t b t @ s)" using b by (simp add: follows_def)
  then have "sum_read L N V b x (b @ CHR ''+'' # text_t b t @ s)" using XAdd by simp
  then show ?case by (rule read_sum [OF _ w XAdd.prems(2), where f = dadd]) (simp_all add: b)
next
  case (XSub x t)
  have w: "term_read L N V b t s" using XSub follows_weaken [of "''),+-''" s] by simp
  have "follows ''),+-'' (b @ CHR ''-'' # text_t b t @ s)" using b by (simp add: follows_def)
  then have "sum_read L N V b x (b @ CHR ''-'' # text_t b t @ s)" using XSub by simp
  then show ?case by (rule read_sum [OF _ w XSub.prems(2), where f = dsub]) (simp_all add: b)
next
  case (TUnary u)
  then show ?case using read_term_of_operand by simp
next
  case (TMul t u)
  have w: "operand_read (\<lambda>n. munary L N V n (text_u b u @ s)) (val_u L V u) s" using TMul by simp
  have "term_read L N V b t (b @ CHR ''*'' # text_u b u @ s)" using TMul b by (simp add: follows_def)
  then show ?case by (rule read_term [OF _ w, where f = "\<lambda>a b. Some (dmul a b)"]) (simp_all add: b)
next
  case (TDiv t u)
  have w: "operand_read (\<lambda>n. munary L N V n (text_u b u @ s)) (val_u L V u) s" using TDiv by simp
  have "term_read L N V b t (b @ CHR ''/'' # text_u b u @ s)" using TDiv b by (simp add: follows_def)
  then show ?case
    by (rule read_term [OF _ w, where f = "nonzero ddiv"]) (simp_all add: b nonzero_def if_distrib cong: if_cong)
next
  case (TMod t u)
  have w: "operand_read (\<lambda>n. munary L N V n (text_u b u @ s)) (val_u L V u) s" using TMod by simp
  have "term_read L N V b t (b @ CHR ''%'' # text_u b u @ s)" using TMod b by (simp add: follows_def)
  then show ?case
    by (rule read_term [OF _ w, where f = "nonzero dfmod"]) (simp_all add: b nonzero_def if_distrib cong: if_cong)
next
  case (UPos u)
  then show ?case using read_signed(1) [OF _ b] by simp
next
  case (UNeg u)
  then show ?case using read_signed(2) [OF _ b] by simp
next
  case (UPrim p)
  obtain c cs where "skip (text_p b p @ s) = c # cs" "c \<notin> set ''+-)''" using begins_p [of p b s] UPrim.prems b by auto
  then show ?case using read_operand UPrim by simp
next
  case (PParen x)
  have "follows ''),+-'' (b @ CHR '')'' # s)" using b by (simp add: follows_def)
  then show ?case using read_paren [OF _ b] PParen by simp
next
  case (PNum w f)
  then show ?case using read_leaf(1) [OF b] by simp
next
  case (PVar name)
  then show ?case using read_leaf(2) [OF b] by simp
next
  case (PCall f xs)
  have "sum_read L N V b x s" if "x \<in> set xs" "ends_sum s" for x s
    using PCall.IH [OF that(1)] PCall.prems(1) that follows_weaken [of "''),''" s "''),+-''"] by (auto simp: list_all_iff)
  then show ?case using read_application [of f xs b] PCall.prems b by simp
qed



end
