(* ===== verification/FlowGraph.thy ===== *)
theory FlowGraph
  imports Prelude "HOL-Library.Multiset"
begin

text \<open>
  The cycle check of a flow (the end of \<open>normalize\_and\_validate\<close> in opcbridge-flow/opcbridge\_flow.cpp): nodes
  without open predecessors are taken off one by one, and the graph has a cycle if some are left. The
  order in which the hash map of indegrees lists the first nodes is arbitrary.
\<close>

section \<open>The algorithm\<close>

definition indegree :: "(string \<times> string) list \<Rightarrow> string \<Rightarrow> int" where
  "indegree es n = int (length (filter (\<lambda>e. snd e = n) es))"

definition targets :: "(string \<times> string) list \<Rightarrow> string \<Rightarrow> string list" where
  "targets es n = map snd (filter (\<lambda>e. fst e = n) es)"

definition release_one :: "string \<Rightarrow> (string \<Rightarrow> int) \<times> string list \<Rightarrow> (string \<Rightarrow> int) \<times> string list" where
  "release_one n st = (case st of (d, ready) \<Rightarrow>
     let d' = d(n := d n - 1) in (d', if d' n = 0 then ready @ [n] else ready))"

definition release_all :: "string list \<Rightarrow> (string \<Rightarrow> int) \<Rightarrow> string list \<Rightarrow> (string \<Rightarrow> int) \<times> string list" where
  "release_all ns d ready = fold release_one ns (d, ready)"

text \<open>Each release of a node costs one of the finitely many open ones.\<close>

definition open_nodes :: "(string \<times> string) list \<Rightarrow> (string \<Rightarrow> int) \<Rightarrow> nat" where
  "open_nodes es d = card {n \<in> snd ` set es. 0 < d n}"

lemma release_one_open:
  assumes "n \<in> snd ` set es" "release_one n (d, ready) = (d', ready')"
  shows "2 * open_nodes es d' + length ready' \<le> 2 * open_nodes es d + length ready"
proof -
  let ?S = "\<lambda>d. {n \<in> snd ` set es. 0 < d n}"
  have d': "d' = d(n := d n - 1)" "ready' = (if d' n = 0 then ready @ [n] else ready)"
    using assms(2) by (auto simp: release_one_def Let_def)
  have fin: "finite (?S d)" by simp
  show ?thesis
  proof (cases "d' n = 0")
    case True
    then have e: "?S d' = ?S d - {n}" and n: "n \<in> ?S d" using d'(1) assms(1) by auto
    have "card (?S d') + 1 = card (?S d)" unfolding e using card_Suc_Diff1 [OF fin n] by linarith
    then show ?thesis using True d'(2) by (simp add: open_nodes_def)
  next
    case False
    have "?S d' \<subseteq> ?S d" using d'(1) by auto
    then have "card (?S d') \<le> card (?S d)" by (rule card_mono [OF fin])
    then show ?thesis using False d'(2) by (simp add: open_nodes_def)
  qed
qed

lemma release_all_open:
  assumes "set ns \<subseteq> snd ` set es" "release_all ns d ready = (d', ready')"
  shows "2 * open_nodes es d' + length ready' \<le> 2 * open_nodes es d + length ready"
  using assms unfolding release_all_def
proof (induction ns arbitrary: d ready)
  case (Cons n ns)
  obtain d1 r1 where one: "release_one n (d, ready) = (d1, r1)" by fastforce
  then show ?case using Cons release_one_open [OF _ one] by fastforce
qed simp

lemma release_targets_open:
  "(d', ready') = release_all (targets es n) d ready \<Longrightarrow> 2 * open_nodes es d' + length ready' < Suc (2 * open_nodes es d + length ready)"
proof -
  assume "(d', ready') = release_all (targets es n) d ready"
  moreover have "set (targets es n) \<subseteq> snd ` set es" by (auto simp: targets_def)
  ultimately show ?thesis using release_all_open [of "targets es n" es d ready d' ready'] by simp
qed

function count_visited :: "(string \<times> string) list \<Rightarrow> (string \<Rightarrow> int) \<Rightarrow> string list \<Rightarrow> nat \<Rightarrow> nat" where
  "count_visited es d [] v = v"
| "count_visited es d (n # ready) v =
     (case release_all (targets es n) d ready of (d', ready') \<Rightarrow> count_visited es d' ready' (Suc v))"
  by pat_completeness auto
termination
  by (relation "measure (\<lambda>(es, d, ready, v). 2 * open_nodes es d + length ready)") (auto dest: release_targets_open)

definition visited_nodes :: "(string list \<Rightarrow> string list) \<Rightarrow> string list \<Rightarrow> (string \<times> string) list \<Rightarrow> nat" where
  "visited_nodes order ns es = count_visited es (indegree es) (filter (\<lambda>n. indegree es n = 0) (order ns)) 0"

section \<open>It decides acyclicity\<close>

text \<open>What is left of the indegrees when the nodes \<open>V\<close> have been taken off.\<close>

definition open_from :: "(string \<times> string) list \<Rightarrow> string set \<Rightarrow> string \<Rightarrow> int" where
  "open_from es V n = int (length (filter (\<lambda>e. snd e = n \<and> fst e \<notin> V) es))"

lemma release_all_degrees: "fst (release_all ns d ready) = (\<lambda>n. d n - int (count (mset ns) n))"
  unfolding release_all_def
  by (induction ns arbitrary: d ready) (auto simp: release_one_def Let_def fun_eq_iff)

lemma release_all_ready:
  assumes "\<And>n. n \<in> set ns \<Longrightarrow> int (count (mset ns) n) \<le> d n"
  shows "distinct ready \<Longrightarrow> (\<And>n. n \<in> set ready \<Longrightarrow> n \<notin> set ns) \<Longrightarrow>
    distinct (snd (release_all ns d ready)) \<and>
    set (snd (release_all ns d ready)) = set ready \<union> {n \<in> set ns. d n = int (count (mset ns) n)}"
  using assms unfolding release_all_def
proof (induction ns arbitrary: d ready)
  case (Cons n ns)
  obtain d1 r1 where one: "release_one n (d, ready) = (d1, r1)" by fastforce
  then have d1: "d1 = d(n := d n - 1)" "r1 = (if d n = 1 then ready @ [n] else ready)"
    by (auto simp: release_one_def Let_def split: if_splits)
  have lim: "int (count (mset ns) m) \<le> d1 m" if "m \<in> set ns" for m
    using Cons.prems(3) [of m] that by (auto simp: d1(1) split: if_splits)
  have last: "d n = 1 \<Longrightarrow> n \<notin> set ns" using Cons.prems(3) [of n] by (auto simp flip: count_mset_0_iff)
  have r1: "distinct r1" "\<And>m. m \<in> set r1 \<Longrightarrow> m \<notin> set ns"
    using Cons.prems(1,2) last by (auto simp: d1(2) split: if_splits)
  have go: "fold release_one (n # ns) (d, ready) = fold release_one ns (d1, r1)" by (simp add: one)
  have ih: "distinct (snd (fold release_one ns (d1, r1)))"
    "set (snd (fold release_one ns (d1, r1))) = set r1 \<union> {m \<in> set ns. d1 m = int (count (mset ns) m)}"
    using Cons.IH [OF r1 lim] by blast+
  have here: "n \<in> set ns \<Longrightarrow> d n - 1 = int (count (mset ns) n) \<longleftrightarrow> d n = int (count (mset (n # ns)) n)"
    "n \<notin> set ns \<Longrightarrow> d n = 1 \<longleftrightarrow> d n = int (count (mset (n # ns)) n)"
    by (auto simp: not_in_iff)
  have "set r1 \<union> {m \<in> set ns. d1 m = int (count (mset ns) m)} =
      set ready \<union> {m \<in> set (n # ns). d m = int (count (mset (n # ns)) m)}"
  proof (rule set_eqI)
    fix m
    show "m \<in> set r1 \<union> {m \<in> set ns. d1 m = int (count (mset ns) m)} \<longleftrightarrow>
        m \<in> set ready \<union> {m \<in> set (n # ns). d m = int (count (mset (n # ns)) m)}"
      using here last by (cases "m = n"; cases "n \<in> set ns"; cases "d n = 1") (auto simp: d1)
  qed
  then show ?case unfolding go ih(2) using ih(1) by blast
qed simp

text \<open>The invariant: \<open>V\<close> is closed under predecessors, has a topological order, and the ready nodes are
  the others whose predecessors are all in it.\<close>

definition kahn_inv :: "string set \<Rightarrow> (string \<times> string) list \<Rightarrow> string set \<Rightarrow> (string \<Rightarrow> int) \<Rightarrow> string list \<Rightarrow> bool" where
  "kahn_inv N es V d ready \<longleftrightarrow>
     finite V \<and> V \<subseteq> N \<and> set ready \<subseteq> N \<and> distinct ready \<and> set ready \<inter> V = {} \<and>
     d = open_from es V \<and> {n \<in> N. d n = 0} = V \<union> set ready \<and>
     (\<exists>h :: string \<Rightarrow> nat. \<forall>a b. (a, b) \<in> set es \<longrightarrow> b \<in> V \<longrightarrow> a \<in> V \<and> h a < h b)"

lemma open_from_insert:
  "x \<notin> V \<Longrightarrow> open_from es (insert x V) n = open_from es V n - int (count (mset (targets es x)) n)"
  unfolding open_from_def targets_def by (induction es) auto

lemma open_from_zero: "open_from es V n = 0 \<longleftrightarrow> (\<forall>a. (a, n) \<in> set es \<longrightarrow> a \<in> V)"
  by (auto simp: open_from_def filter_empty_conv)

lemma count_targets_le: "x \<notin> V \<Longrightarrow> int (count (mset (targets es x)) n) \<le> open_from es V n"
  unfolding open_from_def targets_def by (induction es) auto

lemma kahn_step:
  assumes "kahn_inv N es V d (x # ready)" "\<forall>(a, b) \<in> set es. a \<in> N \<and> b \<in> N" "release_all (targets es x) d ready = (d', ready')"
  shows "kahn_inv N es (insert x V) d' ready'"
proof -
  obtain h :: "string \<Rightarrow> nat" where h: "\<And>a b. (a, b) \<in> set es \<Longrightarrow> b \<in> V \<Longrightarrow> a \<in> V \<and> h a < h b"
    using assms(1) unfolding kahn_inv_def by blast
  have x: "x \<in> N" "x \<notin> V" "d x = 0" "finite V" "V \<subseteq> N" "set ready \<subseteq> N" "distinct (x # ready)" "set ready \<inter> V = {}"
    and d: "d = open_from es V" and zero: "{n \<in> N. d n = 0} = V \<union> set (x # ready)"
    using assms(1) unfolding kahn_inv_def by auto
  have preds: "(a, x) \<in> set es \<Longrightarrow> a \<in> V" for a using x(3) d open_from_zero by metis
  have lim: "int (count (mset (targets es x)) n) \<le> d n" for n using count_targets_le [OF x(2)] d by simp
  have zeros: "n \<notin> set (targets es x)" if "n \<in> V \<union> set (x # ready)" for n
  proof -
    have "d n = 0" using zero that by blast
    then show ?thesis using lim [of n] by (auto simp flip: count_mset_0_iff)
  qed
  have r: "distinct ready'" "set ready' = set ready \<union> {n \<in> set (targets es x). d n = int (count (mset (targets es x)) n)}"
    using release_all_ready [of "targets es x" d ready] lim x(7) zeros assms(3) by auto
  have d': "d' = open_from es (insert x V)"
    using release_all_degrees [of "targets es x" d ready] open_from_insert [OF x(2)] assms(3) d by (auto simp: fun_eq_iff)
  have inN: "set (targets es x) \<subseteq> N" using assms(2) by (auto simp: targets_def)
  have nx: "n \<notin> insert x V" if "n \<in> set (targets es x)" for n using zeros that by auto
  have zero': "{n \<in> N. d' n = 0} = insert x V \<union> set ready'"
  proof (rule set_eqI)
    fix n
    have e: "d' n = d n - int (count (mset (targets es x)) n)" using d' d open_from_insert [OF x(2)] by simp
    show "n \<in> {n \<in> N. d' n = 0} \<longleftrightarrow> n \<in> insert x V \<union> set ready'"
    proof (cases "n \<in> set (targets es x)")
      case True
      then show ?thesis using e nx [OF True] inN r(2) zeros by auto
    next
      case False
      then have "d' n = d n" using e by (simp flip: count_mset_0_iff)
      then show ?thesis using zero False r(2) by auto
    qed
  qed
  let ?h = "h(x := Suc (Max (insert 0 (h ` V))))"
  have "a \<in> insert x V \<and> ?h a < ?h b" if e: "(a, b) \<in> set es" "b \<in> insert x V" for a b
  proof (cases "b = x")
    case True
    then have a: "a \<in> V" using preds e by blast
    then have "h a \<le> Max (insert 0 (h ` V))" using x(4) by (intro Max_ge) auto
    then show ?thesis using a True x(2) by auto
  next
    case False
    then show ?thesis using h [OF e(1)] e(2) x(2) by auto
  qed
  then have "\<exists>h :: string \<Rightarrow> nat. \<forall>a b. (a, b) \<in> set es \<longrightarrow> b \<in> insert x V \<longrightarrow> a \<in> insert x V \<and> h a < h b" by blast
  moreover have "set ready' \<inter> insert x V = {}" using r(2) x(7,8) nx by auto
  ultimately show ?thesis using x d' zero' r inN unfolding kahn_inv_def by auto
qed

lemma kahn_result:
  assumes "kahn_inv N es V d ready" "\<forall>(a, b) \<in> set es. a \<in> N \<and> b \<in> N"
  shows "\<exists>W d'. kahn_inv N es W d' [] \<and> count_visited es d ready (card V) = card W"
  using assms
proof (induction "2 * open_nodes es d + length ready" arbitrary: V d ready rule: less_induct)
  case less
  show ?case
  proof (cases ready)
    case Nil
    then show ?thesis using less.prems by auto
  next
    case (Cons x rest)
    obtain d' ready' where rel: "release_all (targets es x) d rest = (d', ready')" by fastforce
    have inv: "kahn_inv N es (insert x V) d' ready'" using kahn_step less.prems Cons rel by blast
    have "x \<notin> V" "finite V" using less.prems(1) Cons by (auto simp: kahn_inv_def)
    then have "card (insert x V) = Suc (card V)" by simp
    moreover have "2 * open_nodes es d' + length ready' < 2 * open_nodes es d + length ready"
      using release_targets_open [OF rel [symmetric]] Cons by simp
    ultimately show ?thesis using less.hyps [OF _ inv less.prems(2)] Cons rel by auto
  qed
qed

text \<open>The nodes that can be taken off are all of them exactly if the edges have no cycle.\<close>

lemma visited_all_iff_acyclic:
  assumes "\<And>xs. mset (order xs) = mset xs" "distinct ns" "\<forall>(a, b) \<in> set es. a \<in> set ns \<and> b \<in> set ns"
  shows "visited_nodes order ns es = length ns \<longleftrightarrow> acyclic (set es)"
proof -
  let ?ready = "filter (\<lambda>n. indegree es n = 0) (order ns)"
  have set: "set (order ns) = set ns" "distinct (order ns)"
    using assms(1) [of ns] assms(2) mset_eq_setD mset_eq_imp_distinct_iff by blast+
  have start: "kahn_inv (set ns) es {} (indegree es) ?ready"
    using set by (auto simp: kahn_inv_def open_from_def indegree_def fun_eq_iff)
  obtain W d where W: "kahn_inv (set ns) es W d []" "visited_nodes order ns es = card W"
    using kahn_result [OF start assms(3)] by (auto simp: visited_nodes_def)
  obtain h :: "string \<Rightarrow> nat" where h: "\<And>a b. (a, b) \<in> set es \<Longrightarrow> b \<in> W \<Longrightarrow> a \<in> W \<and> h a < h b"
    using W(1) unfolding kahn_inv_def by blast
  have sub: "W \<subseteq> set ns" "finite W" and zero: "{n \<in> set ns. open_from es W n = 0} = W"
    using W(1) unfolding kahn_inv_def by auto
  have all: "card W = length ns \<longleftrightarrow> W = set ns"
    using sub assms(2) subset_card_eq [of "set ns" W] distinct_card by fastforce
  have "acyclic (set es)" if "W = set ns"
  proof -
    have "set es \<subseteq> measure h" using h assms(3) that by auto
    then show ?thesis by (meson acyclic_subset wf_acyclic wf_measure)
  qed
  moreover have "W = set ns" if ac: "acyclic (set es)"
  proof (rule ccontr)
    assume "W \<noteq> set ns"
    then obtain n where n: "n \<in> set ns - W" using sub by blast
    have "wf (set es)" using finite_acyclic_wf [OF _ ac] by simp
    then obtain m where m: "m \<in> set ns - W" "\<And>a. (a, m) \<in> set es \<Longrightarrow> a \<notin> set ns - W"
      using n by (metis wfE_min)
    then have "open_from es W m = 0" using assms(3) by (auto simp: open_from_zero)
    then show False using zero m(1) by auto
  qed
  ultimately show ?thesis using W(2) all by auto
qed

end
