(* ===== verification/FlowValues.thy ===== *)
theory FlowValues
  imports JsonNumbers Numbers
begin

text \<open>
  Values of the flow runner (opcbridge-flow/opcbridge\_flow.cpp): events, the conversions of JSON values to
  numbers, Booleans, bit patterns and text, and paths into a JSON value. Parsing and
  printing JSON text are the library's: \<open>parse\<close> gives \<open>None\<close> where it throws, \<open>dump\<close> throws for a
  text that is not UTF-8.
\<close>

unbundle bit_operations_syntax

section \<open>Events\<close>

record flow_event =
  ev_present :: bool
  ev_value :: json
  ev_quality :: string
  ev_ts :: int
  ev_source :: string
  ev_topic :: string
  ev_key :: string

definition new_event :: flow_event where
  "new_event = \<lparr>ev_present = False, ev_value = JNull, ev_quality = ''not_initialized'', ev_ts = 0,
     ev_source = [], ev_topic = [], ev_key = []\<rparr>"

text \<open>The reason why an event must not be written, if there is one.\<close>

definition event_writable :: "flow_event \<Rightarrow> string option" where
  "event_writable ev =
     (if \<not> ev_present ev then Some ''value has not been initialized''
      else if ev_value ev = JNull then Some ''null values are not writable''
      else if ev_quality ev \<noteq> ''good'' then Some (''quality is '' @ ev_quality ev)
      else None)"

section \<open>Conversions\<close>

fun as_number :: "json \<Rightarrow> dbl option" where
  "as_number (JInt n) = Some (dbl_of_int n)"
| "as_number (JFloat d) = Some d"
| "as_number (JBool b) = Some (DFin (if b then 1 else 0))"
| "as_number (JStr s) =
     (case stod (trim_copy s) of
        Inr (v, rest) \<Rightarrow> if rest = [] \<and> is_finite v then Some v else None
      | Inl e \<Rightarrow> None)"
| "as_number _ = None"

text \<open>\<open>std::stoull\<close> in base 2, 10 or 16: blanks, a sign, in base 16 one more prefix, digits; a
  magnitude below $2^{64}$ is taken with its sign modulo $2^{64}$.\<close>

definition base_digit :: "nat \<Rightarrow> char \<Rightarrow> bool" where
  "base_digit base c \<longleftrightarrow> (case hex_value c of None \<Rightarrow> False | Some v \<Rightarrow> v < int base)"

definition base_value :: "nat \<Rightarrow> string \<Rightarrow> int" where
  "base_value base ds = foldl (\<lambda>n c. int base * n + (case hex_value c of None \<Rightarrow> 0 | Some v \<Rightarrow> v)) 0 ds"

definition drop_prefix :: "nat \<Rightarrow> string \<Rightarrow> string" where
  "drop_prefix base s =
     (if base = 16 \<and> to_lower_copy (take 2 s) = ''0x'' \<and> drop 2 s \<noteq> [] \<and> base_digit 16 (hd (drop 2 s)) then drop 2 s else s)"

definition stoull :: "nat \<Rightarrow> string \<Rightarrow> num_error + u64 \<times> string" where
  "stoull base s =
     (case split_sign (dropWhile is_space s) of (neg, s1) \<Rightarrow>
        let s2 = drop_prefix base s1; ds = takeWhile (base_digit base) s2; n = base_value base ds in
        if ds = [] then Inl NoConversion
        else if 2 ^ 64 \<le> n then Inl RangeError
        else Inr (word_of_int (signed neg n), dropWhile (base_digit base) s2))"

definition text_base :: "string \<Rightarrow> nat \<times> string" where
  "text_base s =
     (if 2 < length s \<and> s ! 0 = CHR ''0'' \<and> to_lower (s ! 1) = CHR ''x'' then (16, drop 2 s)
      else if 2 < length s \<and> s ! 0 = CHR ''0'' \<and> to_lower (s ! 1) = CHR ''b'' then (2, drop 2 s)
      else (10, s))"

text \<open>A value that is neither a number nor a text is printed first; \<open>true\<close>, \<open>null\<close>, \<open>[\<close> and \<open>{\<close> are no numbers.\<close>

fun parse_bit_integer :: "json \<Rightarrow> u64 option" where
  "parse_bit_integer (JInt n) = Some (word_of_int n)"
| "parse_bit_integer (JFloat (DFin x)) =
     (if of_int (floor x) = x then Some (word_of_int (dbl_to_int64 (DFin x))) else None)"
| "parse_bit_integer (JStr s) =
     (case text_base (trim_copy s) of (base, t) \<Rightarrow>
        case stoull base t of Inr (n, rest) \<Rightarrow> if rest = [] then Some n else None | Inl e \<Rightarrow> None)"
| "parse_bit_integer _ = None"

definition bit_word_mask :: "int \<Rightarrow> u64" where
  "bit_word_mask width = (if 64 \<le> width then - 1 else push_bit (nat width) 1 - 1)"

definition configured_flow_value :: "(string \<Rightarrow> json option) \<Rightarrow> json \<Rightarrow> json" where
  "configured_flow_value parse v =
     (case v of JStr s \<Rightarrow>
        (let text = trim_copy s in
         if text = [] then JStr [] else case parse text of Some j \<Rightarrow> j | None \<Rightarrow> JStr text)
      | _ \<Rightarrow> v)"

fun as_bool :: "json \<Rightarrow> bool option" where
  "as_bool (JBool b) = Some b"
| "as_bool (JInt n) = Some (\<not> deq (dbl_of_int n) (DFin 0))"
| "as_bool (JFloat d) = Some (\<not> deq d (DFin 0))"
| "as_bool (JStr s) =
     (let raw = to_lower_copy (trim_copy s) in
      if raw \<in> {''true'', ''on'', ''yes'', ''1''} then Some True
      else if raw \<in> {''false'', ''off'', ''no'', ''0''} then Some False
      else None)"
| "as_bool _ = None"

text \<open>An unsigned integer is printed as \<open>long long\<close> like any other: the test for it comes second.\<close>

fun scalar_text :: "(json \<Rightarrow> json_error + string) \<Rightarrow> json \<Rightarrow> json_error + string" where
  "scalar_text dump (JStr s) = Inr s"
| "scalar_text dump (JBool b) = Inr (if b then ''true'' else ''false'')"
| "scalar_text dump (JFloat d) = Inr (show_g6 d)"
| "scalar_text dump (JInt n) = Inr (show_int (to_int64 n))"
| "scalar_text dump v = dump v"

function replace_all :: "string \<Rightarrow> string \<Rightarrow> string \<Rightarrow> string" where
  "replace_all [] from to = []"
| "replace_all (c # s) from to =
     (if from = [] then c # s
      else if take (length from) (c # s) = from then to @ replace_all (drop (length from) (c # s)) from to
      else c # replace_all s from to)"
  by pat_completeness auto
termination by (relation "measure (\<lambda>(s, f, t). length s)") (auto simp: length_greater_0_conv [symmetric] simp del: length_greater_0_conv)

section \<open>Paths\<close>

definition descend :: "string \<Rightarrow> json \<Rightarrow> json option" where
  "descend token v = (if token = [] then Some v else jfind v token)"

definition element :: "string \<Rightarrow> json \<Rightarrow> json option" where
  "element index v =
     (case stoul index of
        Inl e \<Rightarrow> None
      | Inr (n, rest) \<Rightarrow>
          (case v of JArr xs \<Rightarrow> if unat n < length xs then Some (xs ! unat n) else None | _ \<Rightarrow> None))"

function path_from :: "string \<Rightarrow> json \<Rightarrow> string \<Rightarrow> json option" where
  "path_from token v [] = descend token v"
| "path_from token v (c # s) =
     (if c = CHR ''.'' then (case descend token v of None \<Rightarrow> None | Some w \<Rightarrow> path_from [] w s)
      else if c = CHR ''['' then
        (case descend token v of None \<Rightarrow> None
         | Some w \<Rightarrow>
             if CHR '']'' \<notin> set s then None
             else (case element (takeWhile (\<lambda>c. c \<noteq> CHR '']'') s) w of None \<Rightarrow> None
               | Some x \<Rightarrow> path_from [] x (tl (dropWhile (\<lambda>c. c \<noteq> CHR '']'') s))))
      else path_from (token @ [c]) v s)"
  by pat_completeness auto
termination
  by (relation "measure (\<lambda>(t, v, s). length s)") (auto simp: less_Suc_eq_le le_diff_conv length_dropWhile_le le_SucI)

definition json_path_value :: "json \<Rightarrow> string \<Rightarrow> json option" where
  "json_path_value doc path = (if path = [] then Some doc else path_from [] doc path)"

end
