(* ===== verification/FlowDefinition.thy ===== *)
theory FlowDefinition
  imports FlowGraph FlowMath FlowValues
begin

text \<open>
  Flow definitions: \<open>normalize\_and\_validate\<close> of opcbridge-flow/opcbridge\_flow.cpp, which every draft and
  every deployment passes. It trims names, fills in defaults and refuses what the engine could not run.
  \<open>Thrown\<close> is an exception of the JSON library that leaves the function, \<open>Refused\<close> its error text.
\<close>

section \<open>Checks\<close>

datatype flow_error = Thrown json_error | Refused string

definition flift :: "json_error + 'a \<Rightarrow> flow_error + 'a" where
  "flift r = (case r of Inl err \<Rightarrow> Inl (Thrown err) | Inr a \<Rightarrow> Inr a)"

definition ffield :: "(json \<Rightarrow> json_error + 'a) \<Rightarrow> json \<Rightarrow> string \<Rightarrow> 'a \<Rightarrow> flow_error + 'a" where
  "ffield conv j k d = flift (jvalue conv j k d)"

definition ensure :: "bool \<Rightarrow> string \<Rightarrow> flow_error + unit" where
  "ensure b message = (if b then Inr () else Inl (Refused message))"

definition rthen :: "'e + 'a \<Rightarrow> 'e + 'b \<Rightarrow> 'e + 'b" where
  "rthen a b = rbind a (\<lambda>u. b)"

lemma flift_Inr [simp]: "flift r = Inr a \<longleftrightarrow> r = Inr a"
  by (cases r) (auto simp: flift_def)

lemma ensure_Inr [simp]: "ensure b m = Inr u \<longleftrightarrow> b"
  by (simp add: ensure_def)

lemma rthen_Inr [simp]: "rthen a b = Inr y \<longleftrightarrow> (\<exists>x. a = Inr x) \<and> b = Inr y"
  by (auto simp: rthen_def rbind_Inr)

definition nonempty_array :: "json \<Rightarrow> string \<Rightarrow> bool" where
  "nonempty_array j k = (case jfind j k of Some (JArr (x # xs)) \<Rightarrow> True | _ \<Rightarrow> False)"

definition array_items :: "json \<Rightarrow> string \<Rightarrow> json list option" where
  "array_items j k = (case jfind j k of Some (JArr xs) \<Rightarrow> Some xs | _ \<Rightarrow> None)"

definition id_ok :: "string \<Rightarrow> bool" where
  "id_ok s \<longleftrightarrow> s \<noteq> [] \<and> list_all (\<lambda>c. is_alnum c \<or> c = CHR ''_'' \<or> c = CHR ''-'') s"

definition node_types :: "string list" where
  "node_types = [''opc_tag_input'', ''mqtt_subscribe'', ''manual_input'', ''split'', ''switch'', ''linear_map'',
     ''bit_operations'', ''combine'', ''boolean_logic'', ''build_json'', ''compute'', ''delay'', ''trigger'', ''boolean_invert'',
     ''datatype_convert'', ''debug'', ''opc_tag_write'', ''mqtt_publish'', ''email_output'']"

definition required_text :: "json \<Rightarrow> string \<Rightarrow> string \<Rightarrow> flow_error + unit" where
  "required_text cfg k message = rbind (ffield get_string cfg k []) (\<lambda>s. ensure (trim_copy s \<noteq> []) message)"

section \<open>Node configurations\<close>

definition check_tag :: "string \<Rightarrow> json \<Rightarrow> flow_error + unit" where
  "check_tag type cfg =
     (let message = type @ '' requires a connection and tag''
      in rthen (required_text cfg ''connection_id'' message) (required_text cfg ''tag_name'' message))"

definition check_limit :: "json \<Rightarrow> string \<Rightarrow> int \<Rightarrow> flow_error + unit" where
  "check_limit cfg k limit =
     ensure (case jfind cfg k of None \<Rightarrow> True | Some (JInt n) \<Rightarrow> 0 \<le> n \<and> n \<le> limit | Some _ \<Rightarrow> False)
       (k @ '' is outside its integer range'')"

definition check_input :: "json \<Rightarrow> flow_error + unit" where
  "check_input cfg =
     rthen (ensure (case jfind cfg ''require_fresh_read'' of None \<Rightarrow> True | Some (JBool b) \<Rightarrow> True | Some _ \<Rightarrow> False)
         ''require_fresh_read must be boolean'')
       (rthen (check_limit cfg ''fresh_max_age_ms'' 60000) (check_limit cfg ''fresh_timeout_ms'' 5000))"

definition check_mqtt :: "string \<Rightarrow> json \<Rightarrow> flow_error + unit" where
  "check_mqtt type cfg =
     rthen (required_text cfg ''connection_id'' (type @ '' requires an MQTT connection''))
       (required_text cfg ''topic'' (type @ '' requires a topic''))"

definition check_email :: "json \<Rightarrow> flow_error + unit" where
  "check_email cfg =
     rbind (ffield get_string cfg ''send_mode'' ''every'') (\<lambda>mode.
     rthen (ensure (mode \<in> {''every'', ''change'', ''boolean_transition''}) ''Unsupported Email sending mode'')
       (required_text cfg ''to'' ''Email Output requires at least one recipient''))"

definition check_linear :: "json \<Rightarrow> flow_error + unit" where
  "check_linear cfg =
     rbind (ffield get_double cfg ''input_min'' (DFin 0)) (\<lambda>lo.
     rbind (ffield get_double cfg ''input_max'' (DFin 100)) (\<lambda>hi.
     ensure (\<not> deq lo hi) ''Linear map input range cannot be zero''))"

definition bit_operands :: "string list" where
  "bit_operands = [''and'', ''or'', ''xor'', ''and_not'', ''shift_left'', ''shift_right'']"

definition bit_operations :: "string list" where
  "bit_operations = bit_operands @ [''not'', ''low_byte'', ''high_byte'', ''low_word'', ''high_word'']"

definition check_bits :: "json \<Rightarrow> flow_error + unit" where
  "check_bits cfg =
     rbind (ffield get_string cfg ''operation'' ''and'') (\<lambda>operation.
     rbind (ffield get_string cfg ''output_mode'' ''result'') (\<lambda>output_mode.
     rbind (ffield get_int cfg ''word_size'' 16) (\<lambda>width.
     rthen (ensure (operation \<in> set bit_operations) ''Unsupported bit operation'') (
     rthen (ensure (width \<in> {8, 16, 32, 64}) ''Bit operation word size must be 8, 16, 32, or 64'') (
     rthen (ensure (\<not> (operation = ''high_byte'' \<and> width < 16)) ''High byte requires a word size of at least 16 bits'') (
     rthen (ensure (\<not> (operation = ''high_word'' \<and> width < 32)) ''High word requires a word size of at least 32 bits'') (
     rthen (ensure (output_mode = ''result'' \<or> output_mode = ''boolean'') ''Unsupported bit operation output type'') (
     rthen (if output_mode = ''boolean'' then
         rbind (ffield get_string cfg ''boolean_test'' ''nonzero'') (\<lambda>test.
           ensure (test \<in> {''nonzero'', ''zero'', ''any'', ''all'', ''equals''}) ''Unsupported bit operation Boolean test'')
       else Inr ()) (
     rthen (if operation \<in> set bit_operands then
         rbind (ffield Inr cfg ''operand'' (JStr ''0'')) (\<lambda>operand.
           ensure (parse_bit_integer operand \<noteq> None) ''Bit operation mask/operand is invalid'')
       else Inr ()) (
     if output_mode = ''boolean'' then
       rbind (ffield get_string cfg ''boolean_test'' ''nonzero'') (\<lambda>test.
         if test = ''equals'' then
           rbind (ffield Inr cfg ''comparison'' (JStr ''0'')) (\<lambda>comparison.
             ensure (parse_bit_integer comparison \<noteq> None) ''Bit operation comparison value is invalid'')
         else Inr ())
     else Inr ()))))))))))"

definition check_mode :: "json \<Rightarrow> string \<Rightarrow> string list \<Rightarrow> string \<Rightarrow> flow_error + unit" where
  "check_mode cfg k modes message =
     rbind (ffield get_string cfg k (hd modes)) (\<lambda>mode. ensure (mode \<in> set modes) message)"

definition combine_modes :: "string list" where
  "combine_modes = [''two_bytes'', ''two_words'', ''four_bytes'']"

definition logic_operations :: "string list" where
  "logic_operations = [''and'', ''or'', ''xor'', ''and_not'', ''not_a_and_b'']"

fun check_keys :: "json list \<Rightarrow> string list \<Rightarrow> flow_error + unit" where
  "check_keys [] keys = Inr ()"
| "check_keys (f # fs) keys =
     rbind (ffield get_string f ''key'' []) (\<lambda>s.
       let key = trim_copy s in
       rthen (ensure (key \<noteq> []) ''Every Build JSON field needs a JSON key'') (
       rthen (ensure (key \<notin> set keys) ''Build JSON keys must be unique'') (check_keys fs (key # keys))))"

definition check_build :: "json \<Rightarrow> flow_error + unit" where
  "check_build cfg =
     (case array_items cfg ''fields'' of
        Some (f # fs) \<Rightarrow> check_keys (f # fs) []
      | _ \<Rightarrow> Inl (Refused ''Build JSON requires at least one field''))"

definition input_name_ok :: "string \<Rightarrow> bool" where
  "input_name_ok name \<longleftrightarrow> name \<noteq> [] \<and> is_alpha (hd name) \<and> list_all (\<lambda>c. is_alnum c \<or> c = CHR ''_'') name"

fun check_inputs :: "json list \<Rightarrow> string list \<Rightarrow> flow_error + string list" where
  "check_inputs [] names = Inr names"
| "check_inputs (i # is) names =
     rbind (ffield get_string i ''name'' []) (\<lambda>s.
       let name = trim_copy s in
       rthen (ensure (input_name_ok name)
           ''Compute input names must start with a letter and contain only letters, numbers, or underscores'') (
       rthen (ensure (name \<notin> set names) ''Compute input names must be unique'') (check_inputs is (name # names))))"

text \<open>The expression is tried with every input set to 1.\<close>

definition check_compute :: "math_lib \<Rightarrow> json \<Rightarrow> flow_error + unit" where
  "check_compute L cfg =
     (case array_items cfg ''inputs'' of
        Some (i # is) \<Rightarrow>
          rbind (check_inputs (i # is) []) (\<lambda>names.
          rbind (ffield get_string cfg ''expression'' []) (\<lambda>s.
            let expression = trim_copy s in
            rthen (ensure (expression \<noteq> []) ''Compute expression is required'')
              (case evaluate L (\<lambda>n. if n \<in> set names then Some (DFin 1) else None) expression of
                 Inl message \<Rightarrow> Inl (Refused message) | Inr v \<Rightarrow> Inr ())))
      | _ \<Rightarrow> Inl (Refused ''Compute requires at least one input''))"

definition check_delay :: "json \<Rightarrow> flow_error + unit" where
  "check_delay cfg =
     rbind (ffield get_string cfg ''action'' ''delay_each'') (\<lambda>action.
     rthen (ensure (action = ''delay_each'' \<or> action = ''rate_limit'') ''Unsupported Delay action'') (
     rbind (ffield get_long_long cfg ''delay_ms'' 1000) (\<lambda>delay_ms.
     ensure (0 \<le> delay_ms \<and> delay_ms \<le> 86400000) ''Delay must be between 0 ms and 24 hours'')))"

definition check_trigger :: "json \<Rightarrow> flow_error + unit" where
  "check_trigger cfg =
     rbind (ffield get_long_long cfg ''duration_ms'' 1000) (\<lambda>duration_ms.
     ensure (1 \<le> duration_ms \<and> duration_ms \<le> 86400000) ''Trigger duration must be between 1 ms and 24 hours'')"

definition check_config :: "math_lib \<Rightarrow> string \<Rightarrow> json \<Rightarrow> flow_error + unit" where
  "check_config L type cfg =
     (if type = ''opc_tag_input'' then rthen (check_tag type cfg) (check_input cfg)
      else if type = ''opc_tag_write'' then check_tag type cfg
      else if type = ''mqtt_subscribe'' \<or> type = ''mqtt_publish'' then check_mqtt type cfg
      else if type = ''email_output'' then check_email cfg
      else if type = ''linear_map'' then check_linear cfg
      else if type = ''bit_operations'' then check_bits cfg
      else if type = ''combine'' then check_mode cfg ''mode'' combine_modes ''Unsupported Combine mode''
      else if type = ''boolean_logic'' then check_mode cfg ''operation'' logic_operations ''Unsupported Boolean Logic operation''
      else if type = ''build_json'' then check_build cfg
      else if type = ''compute'' then check_compute L cfg
      else if type = ''delay'' then check_delay cfg
      else if type = ''trigger'' then check_trigger cfg
      else if type = ''switch'' then ensure (nonempty_array cfg ''rules'') ''Switch requires at least one rule''
      else Inr ())"

section \<open>Nodes and edges\<close>

definition with_config :: "json \<Rightarrow> json" where
  "with_config node = (case jfind node ''config'' of Some (JObj kvs) \<Rightarrow> node | _ \<Rightarrow> jset ''config'' (JObj []) node)"

definition config_of :: "json \<Rightarrow> json" where
  "config_of node = (case jfind node ''config'' of Some c \<Rightarrow> c | None \<Rightarrow> JNull)"

fun normalize_nodes :: "math_lib \<Rightarrow> json list \<Rightarrow> string list \<Rightarrow> flow_error + json list \<times> string list" where
  "normalize_nodes L [] ids = Inr ([], ids)"
| "normalize_nodes L (n # ns) ids =
     rthen (ensure (is_object n) ''Every node must be an object'') (
     rbind (ffield get_string n ''id'' []) (\<lambda>i.
     rbind (ffield get_string n ''type'' []) (\<lambda>t.
       let node_id = trim_copy i; type = trim_copy t;
           node = with_config (jset ''type'' (JStr type) (jset ''id'' (JStr node_id) n)) in
       rthen (ensure (node_id \<noteq> [] \<and> node_id \<notin> set ids) ''Node IDs must be present and unique'') (
       rthen (ensure (type \<in> set node_types) (''Unsupported node type: '' @ type)) (
       rthen (check_config L type (config_of node)) (
       rbind (normalize_nodes L ns (ids @ [node_id])) (\<lambda>(nodes, ids'). Inr (node # nodes, ids'))))))))"

fun normalize_edges :: "string list \<Rightarrow> json list \<Rightarrow> flow_error + json list \<times> (string \<times> string) list" where
  "normalize_edges ids [] = Inr ([], [])"
| "normalize_edges ids (e # es) =
     rbind (ffield get_string e ''from'' []) (\<lambda>f.
     rbind (ffield get_string e ''to'' []) (\<lambda>t.
       let source = trim_copy f; target = trim_copy t in
       rthen (ensure (source \<in> set ids \<and> target \<in> set ids) ''Every edge must connect existing nodes'') (
       rthen (ensure (source \<noteq> target) ''A node cannot connect to itself'') (
       rbind (normalize_edges ids es) (\<lambda>(edges, pairs).
         Inr (jset ''to'' (JStr target) (jset ''from'' (JStr source) e) # edges, (source, target) # pairs))))))"

section \<open>The whole flow\<close>

definition defaulted :: "string \<Rightarrow> json \<Rightarrow> json \<Rightarrow> json" where
  "defaulted k v j = (if contains j k then j else jset k v j)"

text \<open>A deployment also reads the mode, which throws when it is no text.\<close>

definition normalize_and_validate :: "math_lib \<Rightarrow> (string list \<Rightarrow> string list) \<Rightarrow> bool \<Rightarrow> json \<Rightarrow> flow_error + json" where
  "normalize_and_validate L order for_deploy flow =
     rthen (ensure (is_object flow) ''Flow must be an object'') (
     rbind (ffield get_string flow ''id'' []) (\<lambda>i.
     rbind (ffield get_string flow ''name'' []) (\<lambda>n.
       let id = trim_copy i; name = trim_copy n in
       rthen (ensure (id_ok id) ''Flow ID may contain only letters, numbers, underscores, and dashes'') (
       rthen (ensure (name \<noteq> []) ''Flow name is required'') (
         let named = defaulted ''mode'' (JStr ''active'') (defaulted ''enabled'' (JBool True)
               (jset ''name'' (JStr name) (jset ''id'' (JStr id) flow))) in
         case array_items named ''nodes'' of None \<Rightarrow> Inl (Refused ''Flow nodes must be an array'') | Some nodes \<Rightarrow>
         case array_items named ''edges'' of None \<Rightarrow> Inl (Refused ''Flow edges must be an array'') | Some edges \<Rightarrow>
         rbind (normalize_nodes L nodes []) (\<lambda>(nodes', ids).
         rbind (normalize_edges ids edges) (\<lambda>(edges', pairs).
           rthen (ensure (visited_nodes order ids pairs = length ids) ''Flow contains a cycle'') (
           rthen (if for_deploy then ffield get_string named ''mode'' ''active'' else Inr [])
             (Inr (jset ''edges'' (JArr edges') (jset ''nodes'' (JArr nodes') named)))))))))))"

end
