(* ===== verification/FlowState.thy ===== *)
theory FlowState
  imports FlowDefinition OrderedMap
begin

text \<open>
  The state of \<open>FlowService\<close> (opcbridge-flow/opcbridge\_flow.cpp): deployed flows, run-time status, the inputs the
  nodes retain, the two queues and what has been sent to the outside. A \<open>std::map\<close> read with \<open>operator[]\<close>
  is a function with the default of its values. What a node does in one call reads the clock once.
  A call under the locks is one step.
\<close>

section \<open>Records\<close>

record node_runtime =
  nr_status :: string
  nr_error :: string
  nr_last_input :: int
  nr_last_output :: int
  nr_in :: int
  nr_out :: int
  nr_rejected :: int
  nr_value :: json
  nr_key :: string

definition new_node_runtime :: node_runtime where
  "new_node_runtime = \<lparr>nr_status = ''idle'', nr_error = [], nr_last_input = 0, nr_last_output = 0, nr_in = 0, nr_out = 0,
     nr_rejected = 0, nr_value = JNull, nr_key = []\<rparr>"

record flow_runtime =
  fr_status :: string
  fr_error :: string
  fr_deployed :: int
  fr_events :: int
  fr_nodes :: "string \<rightharpoonup> node_runtime"

definition new_flow_runtime :: flow_runtime where
  "new_flow_runtime = \<lparr>fr_status = ''stopped'', fr_error = [], fr_deployed = 0, fr_events = 0, fr_nodes = Map.empty\<rparr>"

record queued_event =
  q_flow :: string
  q_node :: string
  q_event :: flow_event
  q_hops :: int
  q_port :: string
  q_epoch :: u64

record rate_limit =
  rl_latest :: flow_event
  rl_scheduled :: bool
  rl_next :: int

definition new_rate_limit :: rate_limit where
  "new_rate_limit = \<lparr>rl_latest = new_event, rl_scheduled = False, rl_next = 0\<rparr>"

record email_memory =
  em_initialized :: bool
  em_value :: json

definition new_email_memory :: email_memory where
  "new_email_memory = \<lparr>em_initialized = False, em_value = JNull\<rparr>"

record broker =
  br_client :: bool
  br_connected :: bool
  br_error :: string
  br_qos :: int
  br_topics :: "string list"

datatype sent =
    SentWrite string string string
  | SentMail string string string
  | SentPublish string string string int bool

record flow_state =
  fs_drafts :: "(string, json) omap"
  fs_deployed :: "(string, json) omap"
  fs_epoch :: "string \<Rightarrow> u64"
  fs_runtime :: "string \<rightharpoonup> flow_runtime"
  fs_next_poll :: "string \<Rightarrow> string \<Rightarrow> int"
  fs_wait_started :: "string \<Rightarrow> string \<rightharpoonup> time"
  fs_last_input :: "string \<Rightarrow> string \<Rightarrow> json"
  fs_combine :: "string \<Rightarrow> string \<Rightarrow> string \<rightharpoonup> flow_event"
  fs_boolean :: "string \<Rightarrow> string \<Rightarrow> string \<rightharpoonup> flow_event"
  fs_json :: "string \<Rightarrow> string \<Rightarrow> string \<rightharpoonup> flow_event"
  fs_compute :: "string \<Rightarrow> string \<Rightarrow> string \<rightharpoonup> flow_event"
  fs_rate :: "string \<Rightarrow> string \<Rightarrow> rate_limit"
  fs_trigger :: "string \<Rightarrow> string \<Rightarrow> u64"
  fs_email :: "string \<Rightarrow> string \<Rightarrow> email_memory"
  fs_queue :: "queued_event list"
  fs_delayed :: "(int \<times> queued_event) list"
  fs_brokers :: "(string, broker) omap"
  fs_sent :: "sent list"

text \<open>The surroundings of one call: the clock, the libraries and the answers of the services it asks.\<close>

record http_result =
  hr_transport_ok :: bool
  hr_status :: int
  hr_body :: string
  hr_error :: string

record flow_io =
  io_now :: int
  io_steady :: time
  io_math :: math_lib
  io_parse :: "string \<Rightarrow> json option"
  io_dump :: "json \<Rightarrow> json_error + string"
  io_what :: "json_error \<Rightarrow> string"
  io_bad_json :: "string \<Rightarrow> string"
  io_local :: "int \<Rightarrow> string"
  io_http :: "nat \<Rightarrow> http_result"
  io_publish :: "string option"
  io_write_token :: string
  io_admin_token :: string

section \<open>Nested maps\<close>

definition put2 :: "'a \<Rightarrow> 'b \<Rightarrow> 'c \<Rightarrow> ('a \<Rightarrow> 'b \<Rightarrow> 'c) \<Rightarrow> 'a \<Rightarrow> 'b \<Rightarrow> 'c" where
  "put2 a b v f = f(a := (f a)(b := v))"

lemma put2_apply [simp]: "put2 a b v f a' b' = (if a' = a \<and> b' = b then v else f a' b')"
  by (simp add: put2_def)

section \<open>Run-time status\<close>

definition flow_rt :: "flow_state \<Rightarrow> string \<Rightarrow> flow_runtime" where
  "flow_rt w f = (case fs_runtime w f of None \<Rightarrow> new_flow_runtime | Some r \<Rightarrow> r)"

definition node_rt :: "flow_state \<Rightarrow> string \<Rightarrow> string \<Rightarrow> node_runtime" where
  "node_rt w f n = (case fr_nodes (flow_rt w f) n of None \<Rightarrow> new_node_runtime | Some r \<Rightarrow> r)"

definition update_flow :: "string \<Rightarrow> (flow_runtime \<Rightarrow> flow_runtime) \<Rightarrow> flow_state \<Rightarrow> flow_state" where
  "update_flow f g w = w\<lparr>fs_runtime := (fs_runtime w)(f \<mapsto> g (flow_rt w f))\<rparr>"

definition update_node :: "string \<Rightarrow> string \<Rightarrow> (node_runtime \<Rightarrow> node_runtime) \<Rightarrow> flow_state \<Rightarrow> flow_state" where
  "update_node f n g w = update_flow f (\<lambda>r. r\<lparr>fr_nodes := (fr_nodes r)(n \<mapsto> g (node_rt w f n))\<rparr>) w"

definition mark_node_output :: "int \<Rightarrow> string \<Rightarrow> string \<Rightarrow> flow_event \<Rightarrow> string \<Rightarrow> flow_state \<Rightarrow> flow_state" where
  "mark_node_output now f n ev status =
     update_node f n (\<lambda>r. r\<lparr>nr_out := nr_out r + 1, nr_last_output := now, nr_value := ev_value ev, nr_status := status, nr_error := []\<rparr>)"

definition set_node_status :: "string \<Rightarrow> string \<Rightarrow> string \<Rightarrow> flow_state \<Rightarrow> flow_state" where
  "set_node_status f n status = update_node f n (\<lambda>r. r\<lparr>nr_status := status, nr_error := []\<rparr>)"

definition reject_node :: "string \<Rightarrow> string \<Rightarrow> string \<Rightarrow> flow_state \<Rightarrow> flow_state" where
  "reject_node f n err = update_node f n (\<lambda>r. r\<lparr>nr_rejected := nr_rejected r + 1, nr_status := ''rejected'', nr_error := err\<rparr>)"

definition set_flow_error :: "string \<Rightarrow> string \<Rightarrow> flow_state \<Rightarrow> flow_state" where
  "set_flow_error f err = update_flow f (\<lambda>r. r\<lparr>fr_status := ''error'', fr_error := err\<rparr>)"

definition note_input :: "int \<Rightarrow> queued_event \<Rightarrow> flow_state \<Rightarrow> flow_state" where
  "note_input now q w =
     update_flow (q_flow q) (\<lambda>r. r\<lparr>fr_events := fr_events r + 1\<rparr>)
       (update_node (q_flow q) (q_node q)
         (\<lambda>r. r\<lparr>nr_in := nr_in r + 1, nr_last_input := now, nr_value := ev_value (q_event q), nr_key := ev_key (q_event q),
            nr_status := ''running'', nr_error := []\<rparr>) w)"

section \<open>Queues\<close>

definition enqueue :: "queued_event \<Rightarrow> flow_state \<Rightarrow> flow_state" where
  "enqueue q w = w\<lparr>fs_queue := fs_queue w @ [q]\<rparr>"

text \<open>A multimap keeps entries of one key in the order they came.\<close>

fun emplace :: "int \<Rightarrow> queued_event \<Rightarrow> (int \<times> queued_event) list \<Rightarrow> (int \<times> queued_event) list" where
  "emplace due q [] = [(due, q)]"
| "emplace due q (x # xs) = (if fst x \<le> due then x # emplace due q xs else (due, q) # x # xs)"

definition delayed_limit :: nat where
  "delayed_limit = 10000"

definition enqueue_delayed :: "queued_event \<Rightarrow> int \<Rightarrow> flow_state \<Rightarrow> bool \<times> flow_state" where
  "enqueue_delayed q due w =
     (if delayed_limit \<le> length (fs_delayed w) then (False, w)
      else (True, w\<lparr>fs_delayed := emplace due q (fs_delayed w)\<rparr>))"

definition trigger_prefix :: string where
  "trigger_prefix = ''__trigger_release:''"

definition starts_with :: "string \<Rightarrow> string \<Rightarrow> bool" where
  "starts_with p s \<longleftrightarrow> take (length p) s = p"

definition is_trigger_timer :: "queued_event \<Rightarrow> queued_event \<Rightarrow> bool" where
  "is_trigger_timer q e \<longleftrightarrow> q_flow e = q_flow q \<and> q_node e = q_node q \<and> starts_with trigger_prefix (q_port e)"

definition replace_trigger_timer :: "queued_event \<Rightarrow> int \<Rightarrow> flow_state \<Rightarrow> bool \<times> flow_state" where
  "replace_trigger_timer q due w =
     enqueue_delayed q due (w\<lparr>fs_delayed := filter (\<lambda>x. \<not> is_trigger_timer q (snd x)) (fs_delayed w)\<rparr>)"

definition clear_queued_events :: "string \<Rightarrow> flow_state \<Rightarrow> flow_state" where
  "clear_queued_events f w =
     w\<lparr>fs_queue := filter (\<lambda>q. q_flow q \<noteq> f) (fs_queue w), fs_delayed := filter (\<lambda>x. q_flow (snd x) \<noteq> f) (fs_delayed w)\<rparr>"

section \<open>Edges\<close>

text \<open>What a range-for over a JSON value visits.\<close>

definition members :: "(string \<times> json) list \<Rightarrow> (string \<times> json) list" where
  "members kvs = map (\<lambda>k. (k, the (map_of kvs k))) (sorted_list_of_set (fst ` set kvs))"

fun items :: "json \<Rightarrow> json list" where
  "items (JArr xs) = xs"
| "items (JObj kvs) = map snd (members kvs)"
| "items JNull = []"
| "items v = [v]"

definition along :: "json \<Rightarrow> queued_event \<Rightarrow> flow_event \<Rightarrow> json_error + queued_event" where
  "along edge q ev =
     rbind (jvalue get_string edge ''to'' []) (\<lambda>target.
     rbind (jvalue get_string edge ''to_port'' []) (\<lambda>port.
     Inr \<lparr>q_flow = q_flow q, q_node = target, q_event = ev, q_hops = q_hops q + 1, q_port = port, q_epoch = q_epoch q\<rparr>))"

text \<open>The event goes along the edges that leave the node and pass the test.\<close>

fun send_edges ::
    "(json \<Rightarrow> json_error + bool) \<Rightarrow> queued_event \<Rightarrow> flow_event \<Rightarrow> json list \<Rightarrow> flow_state \<Rightarrow> json_error + flow_state" where
  "send_edges test q ev [] w = Inr w"
| "send_edges test q ev (e # es) w =
     rbind (jvalue get_string e ''from'' []) (\<lambda>source.
       if source \<noteq> q_node q then send_edges test q ev es w
       else rbind (test e) (\<lambda>ok.
         if ok then rbind (along e q ev) (\<lambda>next. send_edges test q ev es (enqueue next w))
         else send_edges test q ev es w))"

definition send_where ::
    "(json \<Rightarrow> json_error + bool) \<Rightarrow> json \<Rightarrow> queued_event \<Rightarrow> flow_event \<Rightarrow> flow_state \<Rightarrow> json_error + flow_state" where
  "send_where test flow q ev w =
     rbind (jvalue Inr flow ''edges'' (JArr [])) (\<lambda>es. send_edges test q ev (items es) w)"

definition send_all :: "json \<Rightarrow> queued_event \<Rightarrow> flow_event \<Rightarrow> flow_state \<Rightarrow> json_error + flow_state" where
  "send_all = send_where (\<lambda>e. Inr True)"

definition send_port :: "string \<Rightarrow> string \<Rightarrow> json \<Rightarrow> queued_event \<Rightarrow> flow_event \<Rightarrow> flow_state \<Rightarrow> json_error + flow_state" where
  "send_port dflt port =
     send_where (\<lambda>e. rbind (jvalue get_string e ''from_port'' dflt) (\<lambda>p. Inr (p = port)))"

end
