(* ===== verification/FlowNodes.thy ===== *)
theory FlowNodes
  imports FlowState
begin

text \<open>
  What one node does with one event: the branches of \<open>process\_event\<close> in opcbridge-flow/opcbridge\_flow.cpp,
  one definition for each node type. The result is the event to pass on, whether it is passed on, the reason for a
  rejection (empty for none) and the new state. \<open>Inl\<close> is an exception that nothing catches: it ends the
  worker thread and with it the process. (\<open>std::bad\_optional\_access\<close> is written \<open>OutOfRange\<close>.)
\<close>

type_synonym node_result = "json_error + flow_event \<times> bool \<times> string \<times> flow_state"

definition quiet :: "flow_event \<Rightarrow> flow_state \<Rightarrow> node_result" where
  "quiet ev w = Inr (ev, False, [], w)"

definition pass_on :: "flow_event \<Rightarrow> flow_state \<Rightarrow> node_result" where
  "pass_on ev w = Inr (ev, True, [], w)"

definition refuse :: "flow_event \<Rightarrow> string \<Rightarrow> flow_state \<Rightarrow> node_result" where
  "refuse ev err w = Inr (ev, False, err, w)"

text \<open>Every node that computes or writes does so only for a value that is present, not null and good.\<close>

definition if_writable :: "flow_event \<Rightarrow> flow_state \<Rightarrow> node_result \<Rightarrow> node_result" where
  "if_writable ev w r = (case event_writable ev of Some reason \<Rightarrow> refuse ev reason w | None \<Rightarrow> r)"

definition quietly :: "flow_event \<Rightarrow> json_error + flow_state \<Rightarrow> node_result" where
  "quietly ev r = rbind r (quiet ev)"

definition set_value :: "json \<Rightarrow> flow_event \<Rightarrow> flow_event" where
  "set_value v ev = ev\<lparr>ev_value := v\<rparr>"

section \<open>Splitting and routing\<close>

fun parts :: "json \<Rightarrow> (string \<times> json) list option" where
  "parts (JObj kvs) = Some (members kvs)"
| "parts (JArr xs) = Some (zip (map show_nat [0..<length xs]) xs)"
| "parts v = None"

fun send_parts :: "json \<Rightarrow> queued_event \<Rightarrow> (string \<times> json) list \<Rightarrow> flow_state \<Rightarrow> json_error + flow_state" where
  "send_parts flow q [] w = Inr w"
| "send_parts flow q ((k, v) # ps) w =
     (if v = JNull then send_parts flow q ps w
      else rbind (send_all flow q ((q_event q)\<lparr>ev_key := k, ev_value := v\<rparr>) w) (send_parts flow q ps))"

definition split_node :: "flow_io \<Rightarrow> json \<Rightarrow> queued_event \<Rightarrow> flow_state \<Rightarrow> node_result" where
  "split_node E flow q w =
     (let ev = q_event q in
      if_writable ev w (case parts (ev_value ev) of
          None \<Rightarrow> refuse ev ''Split input must be a JSON object or array'' w
        | Some ps \<Rightarrow> quietly ev (rbind (send_parts flow q ps w) (\<lambda>w'.
            Inr (mark_node_output (io_now E) (q_flow q) (q_node q) ev (''split '' @ show_nat (length ps) @ '' items'') w')))))"

definition rule_port :: "nat \<Rightarrow> string" where
  "rule_port i = ''rule_'' @ show_nat i"

fun try_rules :: "json \<Rightarrow> json \<Rightarrow> queued_event \<Rightarrow> nat \<Rightarrow> json list \<Rightarrow> bool \<Rightarrow> flow_state \<Rightarrow> json_error + bool \<times> flow_state" where
  "try_rules flow cfg q i [] matched w = Inr (matched, w)"
| "try_rules flow cfg q i (r # rs) matched w =
     rbind (jvalue get_string r ''value'' []) (\<lambda>s.
       if ev_key (q_event q) \<noteq> trim_copy s then try_rules flow cfg q (Suc i) rs matched w
       else rbind (send_port ''rule_0'' (rule_port i) flow q (q_event q) w) (\<lambda>w'.
         rbind (jvalue get_bool cfg ''check_all'' False) (\<lambda>every.
           if every then try_rules flow cfg q (Suc i) rs True w' else Inr (True, w'))))"

definition switch_node :: "flow_io \<Rightarrow> json \<Rightarrow> json \<Rightarrow> queued_event \<Rightarrow> flow_state \<Rightarrow> node_result" where
  "switch_node E flow cfg q w =
     (let ev = q_event q in
      quietly ev (rbind (jvalue Inr cfg ''rules'' (JArr [])) (\<lambda>rules.
        rbind (try_rules flow cfg q 0 (items rules) False w) (\<lambda>(matched, w1).
        rbind (if matched then Inr w1
               else rbind (jvalue get_bool cfg ''otherwise'' True) (\<lambda>b.
                 if b then send_port [] ''otherwise'' flow q ev w1 else Inr w1)) (\<lambda>w2.
        Inr (mark_node_output (io_now E) (q_flow q) (q_node q) ev (if matched then ''matched'' else ''otherwise'') w2))))))"

section \<open>Arithmetic\<close>

definition linear_value :: "json \<Rightarrow> dbl \<Rightarrow> json_error + dbl" where
  "linear_value cfg number =
     rbind (jvalue get_double cfg ''input_min'' (DFin 0)) (\<lambda>in_min.
     rbind (jvalue get_double cfg ''input_max'' (DFin 100)) (\<lambda>in_max.
     rbind (jvalue get_double cfg ''output_min'' (DFin 0)) (\<lambda>out_min.
     rbind (jvalue get_double cfg ''output_max'' (DFin 100)) (\<lambda>out_max.
       let mapped = dadd out_min (dmul (ddiv (dsub number in_min) (dsub in_max in_min)) (dsub out_max out_min)) in
       rbind (jvalue get_bool cfg ''clamp'' False) (\<lambda>clamp.
         Inr (if clamp then dmax (dmin out_min out_max) (dmin (dmax out_min out_max) mapped) else mapped))))))"

definition linear_node :: "json \<Rightarrow> queued_event \<Rightarrow> flow_state \<Rightarrow> node_result" where
  "linear_node cfg q w =
     (let ev = q_event q in
      if_writable ev w (case as_number (ev_value ev) of
          None \<Rightarrow> refuse ev ''input is not numeric'' w
        | Some number \<Rightarrow> rbind (linear_value cfg number) (\<lambda>v. pass_on (set_value (JFloat v) ev) w)))"

definition operand_bits :: "json \<Rightarrow> string \<Rightarrow> json_error + u64" where
  "operand_bits cfg k =
     rbind (jvalue Inr cfg k (JStr ''0'')) (\<lambda>v. Inr (case parse_bit_integer v of None \<Rightarrow> 0 | Some n \<Rightarrow> n))"

text \<open>The operations on words; \<open>None\<close> is a shift by the word size or more.\<close>

definition bit_result :: "int \<Rightarrow> string \<Rightarrow> u64 \<Rightarrow> u64 \<Rightarrow> u64 option" where
  "bit_result width operation input operand =
     (if operation = ''and'' then Some (input AND operand)
      else if operation = ''or'' then Some (input OR operand)
      else if operation = ''xor'' then Some (input XOR operand)
      else if operation = ''and_not'' then Some (input AND NOT operand)
      else if operation = ''not'' then Some (NOT input)
      else if operation = ''low_byte'' then Some (input AND 0xff)
      else if operation = ''high_byte'' then Some (drop_bit 8 input AND 0xff)
      else if operation = ''low_word'' then Some (input AND 0xffff)
      else if operation = ''high_word'' then Some (drop_bit 16 input AND 0xffff)
      else if operation = ''shift_left'' then
        (if word_of_int width \<le> operand then None else Some (push_bit (unat operand) input))
      else if operation = ''shift_right'' then
        (if word_of_int width \<le> operand then None else Some (drop_bit (unat operand) input))
      else Some input)"

definition bit_test :: "json \<Rightarrow> u64 \<Rightarrow> u64 \<Rightarrow> u64 \<Rightarrow> u64 \<Rightarrow> json_error + bool" where
  "bit_test cfg ones input operand result =
     rbind (jvalue get_string cfg ''boolean_test'' ''nonzero'') (\<lambda>test.
     rbind (if test = ''zero'' then Inr (result = 0)
            else if test = ''any'' then Inr (input AND operand \<noteq> 0)
            else if test = ''all'' then Inr (operand \<noteq> 0 \<and> input AND operand = operand)
            else if test = ''equals'' then rbind (operand_bits cfg ''comparison'') (\<lambda>c. Inr (result = c AND ones))
            else Inr (result \<noteq> 0)) (\<lambda>b.
     rbind (jvalue get_bool cfg ''invert_boolean'' False) (\<lambda>invert. Inr (if invert then \<not> b else b))))"

definition bits_node :: "json \<Rightarrow> queued_event \<Rightarrow> flow_state \<Rightarrow> node_result" where
  "bits_node cfg q w =
     (let ev = q_event q in
      if_writable ev w (case parse_bit_integer (ev_value ev) of
          None \<Rightarrow> refuse ev ''input must be an integer'' w
        | Some v \<Rightarrow>
            rbind (jvalue get_int cfg ''word_size'' 16) (\<lambda>width.
            rbind (jvalue get_string cfg ''operation'' ''and'') (\<lambda>operation.
            rbind (operand_bits cfg ''operand'') (\<lambda>operand.
              let ones = bit_word_mask width; input = v AND ones; op = operand AND ones in
              case bit_result width operation input op of
                None \<Rightarrow> refuse ev ''shift count must be smaller than the word size'' w
              | Some r \<Rightarrow>
                  rbind (jvalue get_string cfg ''output_mode'' ''result'') (\<lambda>mode.
                    if mode = ''boolean'' then
                      rbind (bit_test cfg ones input op (r AND ones)) (\<lambda>b. pass_on (set_value (JBool b) ev) w)
                    else pass_on (set_value (JInt (uint (r AND ones))) ev) w))))))"

section \<open>Nodes that wait for several inputs\<close>

type_synonym retained = "string \<rightharpoonup> flow_event"

definition combine_ports :: "string \<Rightarrow> string list" where
  "combine_ports mode =
     (if mode = ''four_bytes'' then [''byte_3'', ''byte_2'', ''byte_1'', ''byte_0'']
      else if mode = ''two_words'' then [''high_word'', ''low_word'']
      else [''high_byte'', ''low_byte''])"

definition port_bits :: "retained \<Rightarrow> string \<Rightarrow> u64 \<Rightarrow> json_error + u64" where
  "port_bits m p keep =
     (case Option.bind (m p) (\<lambda>ev. parse_bit_integer (ev_value ev)) of None \<Rightarrow> Inl OutOfRange | Some v \<Rightarrow> Inr (v AND keep))"

definition combined :: "string \<Rightarrow> retained \<Rightarrow> json_error + u64" where
  "combined mode m =
     (if mode = ''two_bytes'' then
        rbind (port_bits m ''high_byte'' 0xff) (\<lambda>hi. rbind (port_bits m ''low_byte'' 0xff) (\<lambda>lo.
          Inr (push_bit 8 hi OR lo)))
      else if mode = ''two_words'' then
        rbind (port_bits m ''high_word'' 0xffff) (\<lambda>hi. rbind (port_bits m ''low_word'' 0xffff) (\<lambda>lo.
          Inr (push_bit 16 hi OR lo)))
      else
        rbind (port_bits m ''byte_3'' 0xff) (\<lambda>b3. rbind (port_bits m ''byte_2'' 0xff) (\<lambda>b2.
        rbind (port_bits m ''byte_1'' 0xff) (\<lambda>b1. rbind (port_bits m ''byte_0'' 0xff) (\<lambda>b0.
          Inr (push_bit 24 b3 OR push_bit 16 b2 OR push_bit 8 b1 OR b0))))))"

definition combined_value :: "json \<Rightarrow> string \<Rightarrow> u64 \<Rightarrow> json_error + json" where
  "combined_value cfg mode result =
     (let bits = (if mode = ''two_bytes'' then 16 else 32) in
      rbind (jvalue get_bool cfg ''signed_result'' False) (\<lambda>as_signed.
        Inr (JInt (if as_signed \<and> result AND push_bit (bits - 1) 1 \<noteq> 0
                   then sint (result OR NOT (bit_word_mask (int bits))) else uint result))))"

definition retain_in :: "queued_event \<Rightarrow> (string \<Rightarrow> string \<Rightarrow> retained) \<Rightarrow> string \<Rightarrow> string \<Rightarrow> retained" where
  "retain_in q m = put2 (q_flow q) (q_node q) ((m (q_flow q) (q_node q))(q_port q \<mapsto> q_event q)) m"

definition combine_node :: "json \<Rightarrow> queued_event \<Rightarrow> flow_state \<Rightarrow> node_result" where
  "combine_node cfg q w =
     (let ev = q_event q in
      rbind (jvalue get_string cfg ''mode'' ''two_bytes'') (\<lambda>mode.
      if_writable ev w
        (if q_port q \<notin> set (combine_ports mode) then refuse ev ''value must arrive through a labeled Combine input'' w
         else if parse_bit_integer (ev_value ev) = None then refuse ev ''Combine input must be an integer'' w
         else
           let w1 = w\<lparr>fs_combine := retain_in q (fs_combine w)\<rparr>; m = fs_combine w1 (q_flow q) (q_node q) in
           if \<not> list_all (\<lambda>p. m p \<noteq> None) (combine_ports mode)
           then quiet ev (set_node_status (q_flow q) (q_node q) ''waiting for all inputs'' w1)
           else rbind (combined mode m) (\<lambda>r. rbind (combined_value cfg mode r) (\<lambda>v. pass_on (set_value v ev) w1)))))"

definition logic_value :: "string \<Rightarrow> bool \<Rightarrow> bool \<Rightarrow> bool" where
  "logic_value operation a b =
     (if operation = ''or'' then a \<or> b
      else if operation = ''xor'' then a \<noteq> b
      else if operation = ''and_not'' then a \<and> \<not> b
      else if operation = ''not_a_and_b'' then \<not> a \<and> b
      else a \<and> b)"

definition logic_node :: "json \<Rightarrow> queued_event \<Rightarrow> flow_state \<Rightarrow> node_result" where
  "logic_node cfg q w =
     (let ev = q_event q in
      if_writable ev w
        (if q_port q \<noteq> ''a'' \<and> q_port q \<noteq> ''b'' then refuse ev ''value must arrive through Boolean input A or B'' w
         else if as_bool (ev_value ev) = None then refuse ev ''Boolean Logic input must be Boolean or 0/1'' w
         else
           let w1 = w\<lparr>fs_boolean := retain_in q (fs_boolean w)\<rparr>; m = fs_boolean w1 (q_flow q) (q_node q) in
           case (m ''a'', m ''b'') of
             (Some ea, Some eb) \<Rightarrow>
               rbind (jvalue get_string cfg ''operation'' ''and'') (\<lambda>operation.
                 pass_on (ev\<lparr>ev_value := JBool (logic_value operation (as_bool (ev_value ea) = Some True) (as_bool (ev_value eb) = Some True)),
                   ev_ts := max (ev_ts ea) (ev_ts eb)\<rparr>) w1)
           | _ \<Rightarrow> quiet ev (set_node_status (q_flow q) (q_node q) ''waiting for A and B'' w1)))"

text \<open>\<open>fields[index]\<close> throws unless the value is an array; \<open>size()\<close> counts what a loop would visit.\<close>

definition port_index :: "string \<Rightarrow> string \<Rightarrow> int" where
  "port_index prefix port =
     (if starts_with prefix port then
        (case stoi (drop (length prefix) port) of Inr (n, rest) \<Rightarrow> n | Inl e \<Rightarrow> - 1)
      else - 1)"

definition indexed :: "json \<Rightarrow> nat \<Rightarrow> json_error + json" where
  "indexed v i = (case v of JArr xs \<Rightarrow> Inr (xs ! i) | _ \<Rightarrow> Inl TypeError)"

text \<open>The members of a JSON object are a \<open>std::map\<close>.\<close>

fun build_object :: "json \<Rightarrow> retained \<Rightarrow> nat list \<Rightarrow> (string \<times> json) list \<Rightarrow> json_error + (string \<times> json) list option" where
  "build_object fds m [] kvs = Inr (Some kvs)"
| "build_object fds m (i # is) kvs =
     (case m (''field_'' @ show_nat i) of
        None \<Rightarrow> Inr None
      | Some ev \<Rightarrow>
          rbind (indexed fds i) (\<lambda>f. rbind (jvalue get_string f ''key'' []) (\<lambda>k.
            build_object fds m is (om_put k (ev_value ev) kvs))))"

definition build_node :: "json \<Rightarrow> queued_event \<Rightarrow> flow_state \<Rightarrow> node_result" where
  "build_node cfg q w =
     (let ev = q_event q in
      rbind (jvalue Inr cfg ''fields'' (JArr [])) (\<lambda>fields.
      let n = length (items fields); index = port_index ''field_'' (q_port q) in
      if_writable ev w
        (if index < 0 \<or> int n \<le> index then refuse ev ''value must arrive through a labeled Build JSON input'' w
         else
           let w1 = w\<lparr>fs_json := retain_in q (fs_json w)\<rparr>; m = fs_json w1 (q_flow q) (q_node q) in
           rbind (build_object fields m [0..<n] []) (\<lambda>r. case r of
               None \<Rightarrow> quiet ev (set_node_status (q_flow q) (q_node q) ''waiting for all fields'' w1)
             | Some kvs \<Rightarrow> pass_on (ev\<lparr>ev_value := JObj kvs, ev_key := []\<rparr>) w1))))"

fun gather :: "json \<Rightarrow> retained \<Rightarrow> nat list \<Rightarrow> (string \<times> dbl) list \<Rightarrow> json_error + string \<times> (string \<times> dbl) list" where
  "gather ins m [] vars = Inr ([], vars)"
| "gather ins m (i # is) vars =
     (case m (''input_'' @ show_nat i) of
        None \<Rightarrow> Inr ([], [])
      | Some ev \<Rightarrow>
          (case as_number (ev_value ev) of
             None \<Rightarrow> Inr (''Compute inputs must be numeric'', vars)
           | Some n \<Rightarrow>
               rbind (indexed ins i) (\<lambda>f. rbind (jvalue get_string f ''name'' []) (\<lambda>name.
                 gather ins m is ((name, n) # vars)))))"

definition computed :: "flow_io \<Rightarrow> json \<Rightarrow> (string \<times> dbl) list \<Rightarrow> string + dbl" where
  "computed E cfg vars =
     (case jvalue get_string cfg ''expression'' [] of
        Inl e \<Rightarrow> Inl (io_what E e)
      | Inr expression \<Rightarrow> evaluate (io_math E) (map_of vars) expression)"

definition compute_node :: "flow_io \<Rightarrow> json \<Rightarrow> queued_event \<Rightarrow> flow_state \<Rightarrow> node_result" where
  "compute_node E cfg q w =
     (let ev = q_event q in
      rbind (jvalue Inr cfg ''inputs'' (JArr [])) (\<lambda>ins.
      let n = length (items ins); index = port_index ''input_'' (q_port q) in
      if_writable ev w
        (if index < 0 \<or> int n \<le> index then refuse ev ''value must arrive through a labeled Compute input'' w
         else if as_number (ev_value ev) = None then refuse ev ''Compute inputs must be numeric'' w
         else
           let w1 = w\<lparr>fs_compute := retain_in q (fs_compute w)\<rparr>; m = fs_compute w1 (q_flow q) (q_node q) in
           rbind (gather ins m [0..<n] []) (\<lambda>(err, vars).
             if err \<noteq> [] then refuse ev err w1
             else if vars = [] then quiet ev (set_node_status (q_flow q) (q_node q) ''waiting for all inputs'' w1)
             else case computed E cfg vars of
               Inl message \<Rightarrow> refuse ev message w1
             | Inr v \<Rightarrow> pass_on (ev\<lparr>ev_value := JFloat v, ev_key := []\<rparr>) w1))))"

section \<open>Nodes that wait for time\<close>

definition queue_limit_error :: string where
  "queue_limit_error = ''delayed message safety limit reached''"

fun delay_edges :: "queued_event \<Rightarrow> int \<Rightarrow> json list \<Rightarrow> nat \<Rightarrow> flow_state \<Rightarrow> json_error + bool \<times> nat \<times> flow_state" where
  "delay_edges q due [] made w = Inr (True, made, w)"
| "delay_edges q due (e # es) made w =
     rbind (jvalue get_string e ''from'' []) (\<lambda>source.
       if source \<noteq> q_node q then delay_edges q due es made w
       else rbind (along e q (q_event q)) (\<lambda>next.
         case enqueue_delayed next due w of
           (False, w') \<Rightarrow> Inr (False, made, w')
         | (True, w') \<Rightarrow> delay_edges q due es (Suc made) w'))"

definition delay_each :: "int \<Rightarrow> int \<Rightarrow> json \<Rightarrow> queued_event \<Rightarrow> flow_state \<Rightarrow> node_result" where
  "delay_each now delay_ms flow q w =
     rbind (jvalue Inr flow ''edges'' (JArr [])) (\<lambda>edges.
     rbind (delay_edges q (now + delay_ms) (items edges) 0 w) (\<lambda>(ok, made, w1).
       Inr (q_event q, False, if ok then [] else queue_limit_error,
         set_node_status (q_flow q) (q_node q)
           (if made = 0 then ''no output connected'' else ''delaying each message '' @ show_int delay_ms @ '' ms'') w1)))"

definition put_rate :: "queued_event \<Rightarrow> rate_limit \<Rightarrow> flow_state \<Rightarrow> flow_state" where
  "put_rate q r w = w\<lparr>fs_rate := put2 (q_flow q) (q_node q) r (fs_rate w)\<rparr>"

text \<open>The timer of a rate limiter fires: the latest value goes out and the next may follow after the delay.\<close>

definition rate_fire :: "int \<Rightarrow> int \<Rightarrow> rate_limit \<Rightarrow> rate_limit" where
  "rate_fire now delay_ms r = r\<lparr>rl_scheduled := False, rl_next := now + delay_ms\<rparr>"

definition rate_release :: "int \<Rightarrow> int \<Rightarrow> json \<Rightarrow> queued_event \<Rightarrow> flow_state \<Rightarrow> node_result" where
  "rate_release now delay_ms flow q w =
     (let r = fs_rate w (q_flow q) (q_node q); ev = rl_latest r in
      quietly ev (rbind (send_all flow q ev (put_rate q (rate_fire now delay_ms r) w)) (\<lambda>w1.
        Inr (mark_node_output now (q_flow q) (q_node q) ev ''rate limit released latest value'' w1))))"

definition rate_step :: "int \<Rightarrow> int \<Rightarrow> flow_event \<Rightarrow> rate_limit \<Rightarrow> bool \<times> int option \<times> rate_limit" where
  "rate_step now delay_ms ev r =
     (if rl_scheduled r then (False, None, r\<lparr>rl_latest := ev\<rparr>)
      else if rl_next r \<le> now then (True, None, r\<lparr>rl_latest := ev, rl_next := now + delay_ms\<rparr>)
      else (False, Some (rl_next r), r\<lparr>rl_latest := ev, rl_scheduled := True\<rparr>))"

definition rate_limited :: "int \<Rightarrow> int \<Rightarrow> json \<Rightarrow> queued_event \<Rightarrow> flow_state \<Rightarrow> node_result" where
  "rate_limited now delay_ms flow q w =
     (let ev = q_event q in
      case rate_step now delay_ms ev (fs_rate w (q_flow q) (q_node q)) of (release_now, schedule, r) \<Rightarrow>
        let w1 = put_rate q r w in
        if release_now then
          quietly ev (rbind (send_all flow q ev w1) (\<lambda>w2.
            Inr (mark_node_output now (q_flow q) (q_node q) ev ''rate limit released value'' w2)))
        else case schedule of
          None \<Rightarrow> quiet ev (set_node_status (q_flow q) (q_node q) ''updated pending latest value'' w1)
        | Some due \<Rightarrow>
            (case enqueue_delayed (q\<lparr>q_hops := q_hops q + 1, q_port := ''__rate_release''\<rparr>) due w1 of
               (False, w2) \<Rightarrow> refuse ev queue_limit_error w2
             | (True, w2) \<Rightarrow> quiet ev (set_node_status (q_flow q) (q_node q) ''waiting to release latest value'' w2)))"

definition delay_node :: "flow_io \<Rightarrow> json \<Rightarrow> json \<Rightarrow> queued_event \<Rightarrow> flow_state \<Rightarrow> node_result" where
  "delay_node E flow cfg q w =
     rbind (jvalue get_long_long cfg ''delay_ms'' 1000) (\<lambda>configured.
     rbind (jvalue get_string cfg ''action'' ''delay_each'') (\<lambda>action.
       let delay_ms = max 0 configured in
       if action = ''rate_limit'' \<and> q_port q = ''__rate_release'' then rate_release (io_now E) delay_ms flow q w
       else if_writable (q_event q) w
         (if action = ''rate_limit'' then rate_limited (io_now E) delay_ms flow q w
          else delay_each (io_now E) delay_ms flow q w)))"

section \<open>Triggers\<close>

definition send_value :: "int \<Rightarrow> json \<Rightarrow> queued_event \<Rightarrow> json \<Rightarrow> string \<Rightarrow> flow_state \<Rightarrow> json_error + flow_state" where
  "send_value now flow q v status w =
     (let ev = (q_event q)\<lparr>ev_present := v \<noteq> JNull, ev_value := v,
            ev_quality := (if v \<noteq> JNull then ''good'' else ''bad_null''), ev_ts := now\<rparr>
      in rbind (send_all flow q ev w) (\<lambda>w1. Inr (mark_node_output now (q_flow q) (q_node q) ev status w1)))"

definition configured :: "flow_io \<Rightarrow> json \<Rightarrow> string \<Rightarrow> string \<Rightarrow> json_error + json" where
  "configured E cfg k d = rbind (jvalue Inr cfg k (JStr d)) (\<lambda>v. Inr (configured_flow_value (io_parse E) v))"

definition put_generation :: "queued_event \<Rightarrow> u64 \<Rightarrow> flow_state \<Rightarrow> flow_state" where
  "put_generation q g w = w\<lparr>fs_trigger := put2 (q_flow q) (q_node q) g (fs_trigger w)\<rparr>"

definition port_generation :: "string \<Rightarrow> u64" where
  "port_generation port = (case stoull 10 (drop 18 port) of Inr (n, rest) \<Rightarrow> n | Inl e \<Rightarrow> 0)"

definition trigger_release :: "flow_io \<Rightarrow> json \<Rightarrow> json \<Rightarrow> queued_event \<Rightarrow> flow_state \<Rightarrow> node_result" where
  "trigger_release E flow cfg q w =
     (let ev = q_event q in
      if fs_trigger w (q_flow q) (q_node q) \<noteq> port_generation (q_port q) then quiet ev w
      else
        let w1 = put_generation q 0 w in
        rbind (jvalue get_bool cfg ''send_delayed'' True) (\<lambda>send.
          if send then rbind (configured E cfg ''delayed_value'' ''false'') (\<lambda>v.
            quietly ev (send_value (io_now E) flow q v ''trigger timeout'' w1))
          else quiet ev (set_node_status (q_flow q) (q_node q) ''trigger completed'' w1)))"

definition trigger_reset :: "queued_event \<Rightarrow> flow_state \<Rightarrow> flow_state" where
  "trigger_reset q w =
     set_node_status (q_flow q) (q_node q) ''trigger reset'' (put_generation q (fs_trigger w (q_flow q) (q_node q) + 1) w)"

text \<open>A trigger that is not running starts; a running one starts again when the delay is extended.\<close>

definition trigger_start :: "flow_io \<Rightarrow> json \<Rightarrow> json \<Rightarrow> int \<Rightarrow> queued_event \<Rightarrow> flow_state \<Rightarrow> node_result" where
  "trigger_start E flow cfg duration_ms q w =
     (let ev = q_event q; current = fs_trigger w (q_flow q) (q_node q) in
      rbind (jvalue get_bool cfg ''extend_delay'' True) (\<lambda>extend.
        if \<not> extend \<and> current \<noteq> 0 then quiet ev w
        else
          let generation = current + 1; w1 = put_generation q generation w in
          rbind (jvalue get_bool cfg ''send_initial'' True) (\<lambda>send.
          rbind (if send then rbind (configured E cfg ''initial_value'' ''true'') (\<lambda>v.
                     send_value (io_now E) flow q v ''trigger started'' w1)
                 else Inr w1) (\<lambda>w2.
            case replace_trigger_timer
                (q\<lparr>q_hops := q_hops q + 1, q_port := trigger_prefix @ show_nat (unat generation)\<rparr>)
                (io_now E + duration_ms) w2 of
              (False, w3) \<Rightarrow> refuse ev queue_limit_error w3
            | (True, w3) \<Rightarrow> quiet ev w3))))"

definition trigger_node :: "flow_io \<Rightarrow> json \<Rightarrow> json \<Rightarrow> queued_event \<Rightarrow> flow_state \<Rightarrow> node_result" where
  "trigger_node E flow cfg q w =
     (let ev = q_event q in
      rbind (jvalue get_long_long cfg ''duration_ms'' 1000) (\<lambda>duration.
        if starts_with trigger_prefix (q_port q) then trigger_release E flow cfg q w
        else if_writable ev w
          (rbind (jvalue get_bool cfg ''reset_enabled'' False) (\<lambda>has_reset.
           rbind (configured E cfg ''reset_value'' ''reset'') (\<lambda>reset_value.
             if has_reset \<and> json_eq (ev_value ev) reset_value then quiet ev (trigger_reset q w)
             else trigger_start E flow cfg (max 1 duration) q w)))))"

section \<open>Conversions\<close>

definition invert_node :: "queued_event \<Rightarrow> flow_state \<Rightarrow> node_result" where
  "invert_node q w =
     (let ev = q_event q in
      if_writable ev w (case as_bool (ev_value ev) of
          None \<Rightarrow> refuse ev ''input is not Boolean'' w
        | Some b \<Rightarrow> pass_on (set_value (JBool (\<not> b)) ev) w))"

definition convert_node :: "flow_io \<Rightarrow> json \<Rightarrow> queued_event \<Rightarrow> flow_state \<Rightarrow> node_result" where
  "convert_node E cfg q w =
     (let ev = q_event q; v = ev_value ev in
      if_writable ev w
        (rbind (jvalue get_string cfg ''datatype'' ''string'') (\<lambda>target.
           if target = ''bool'' then
             (case as_bool v of Some b \<Rightarrow> pass_on (set_value (JBool b) ev) w | None \<Rightarrow> refuse ev ''Boolean conversion failed'' w)
           else if target = ''float'' \<or> target = ''double'' then
             (case as_number v of Some x \<Rightarrow> pass_on (set_value (JFloat x) ev) w | None \<Rightarrow> refuse ev ''Numeric conversion failed'' w)
           else if target = ''integer'' then
             (case as_number v of Some x \<Rightarrow> pass_on (set_value (JInt (llround x)) ev) w | None \<Rightarrow> refuse ev ''Integer conversion failed'' w)
           else rbind (scalar_text (io_dump E) v) (\<lambda>s. pass_on (set_value (JStr s) ev) w))))"

text \<open>The debug node prints the value, so a text that is not UTF-8 throws here.\<close>

definition debug_node :: "flow_io \<Rightarrow> queued_event \<Rightarrow> flow_state \<Rightarrow> node_result" where
  "debug_node E q w =
     (let ev = q_event q in
      rbind (if ev_present ev then io_dump E (ev_value ev) else Inr ''<missing>'') (\<lambda>line. pass_on ev w))"

end
