(* ===== verification/FlowOutputs.thy ===== *)
theory FlowOutputs
  imports FlowNodes
begin

text \<open>
  The nodes whose effect leaves the process (opcbridge-flow/opcbridge\_flow.cpp): the tag write, the e-mail
  and the MQTT message. What is asked of the other service is recorded in \<open>fs\_sent\<close>, whatever it answers; the
  answers are in \<open>flow\_io\<close>.
\<close>

definition send_out :: "sent \<Rightarrow> flow_state \<Rightarrow> flow_state" where
  "send_out s w = w\<lparr>fs_sent := fs_sent w @ [s]\<rparr>"

definition monitored :: "json \<Rightarrow> json_error + bool" where
  "monitored flow = rbind (jvalue get_string flow ''mode'' ''active'') (\<lambda>m. Inr (m = ''monitor''))"

text \<open>In monitor mode an output node only notes what it would have done.\<close>

definition unless_monitored ::
    "flow_io \<Rightarrow> json \<Rightarrow> string \<Rightarrow> queued_event \<Rightarrow> flow_state \<Rightarrow> node_result \<Rightarrow> node_result" where
  "unless_monitored E flow status q w r =
     rbind (monitored flow) (\<lambda>m.
       if m then quiet (q_event q) (mark_node_output (io_now E) (q_flow q) (q_node q) (q_event q) status w)
       else if_writable (q_event q) w r)"

section \<open>Tag writes\<close>

text \<open>Both services answer with a JSON object; anything else is an invalid response.\<close>

definition service_answer :: "flow_io \<Rightarrow> http_result \<Rightarrow> string \<Rightarrow> string \<Rightarrow> bool \<times> string" where
  "service_answer E r failed invalid =
     (if \<not> hr_transport_ok r then (False, hr_error r)
      else case io_parse E (hr_body r) of
        None \<Rightarrow> (False, invalid)
      | Some parsed \<Rightarrow>
          (case (if 200 \<le> hr_status r \<and> hr_status r < 300 then jvalue get_bool parsed ''ok'' False else Inr False) of
             Inl e \<Rightarrow> (False, invalid)
           | Inr True \<Rightarrow> (True, [])
           | Inr False \<Rightarrow>
               (case jvalue get_string parsed ''error'' failed of Inl e \<Rightarrow> (False, invalid) | Inr err \<Rightarrow> (False, err))))"

definition write_opc_tag :: "flow_io \<Rightarrow> json \<Rightarrow> json \<Rightarrow> flow_state \<Rightarrow> json_error + (bool \<times> string) \<times> flow_state" where
  "write_opc_tag E cfg v w =
     rbind (jvalue get_string cfg ''connection_id'' []) (\<lambda>conn.
     rbind (jvalue get_string cfg ''tag_name'' []) (\<lambda>tag.
     rbind (scalar_text (io_dump E) v) (\<lambda>text.
     rbind (io_dump E (JObj [(''connection_id'', JStr conn), (''name'', JStr tag), (''token'', JStr (io_write_token E)),
         (''value'', JStr text)])) (\<lambda>body.
       Inr (service_answer E (io_http E 0) ''OPCBridge write failed'' ''OPCBridge returned an invalid write response'',
            send_out (SentWrite conn tag text) w)))))"

definition is_stale :: "int \<Rightarrow> int \<Rightarrow> flow_event \<Rightarrow> bool" where
  "is_stale now limit ev \<longleftrightarrow> 0 < limit \<and> limit < now - ev_ts ev"

definition write_node :: "flow_io \<Rightarrow> json \<Rightarrow> json \<Rightarrow> queued_event \<Rightarrow> flow_state \<Rightarrow> node_result" where
  "write_node E flow cfg q w =
     (let ev = q_event q in
      unless_monitored E flow ''monitor: write suppressed'' q w
        (rbind (jvalue get_int cfg ''stale_after_ms'' 0) (\<lambda>stale.
           if is_stale (io_now E) (max 0 stale) ev then refuse ev ''input is stale'' w
           else rbind (write_opc_tag E cfg (ev_value ev) w) (\<lambda>((ok, err), w1).
             if ok then quiet ev (mark_node_output (io_now E) (q_flow q) (q_node q) ev ''write ok'' w1)
             else refuse ev err w1))))"

section \<open>E-mail\<close>

definition render_email_text :: "flow_io \<Rightarrow> string \<Rightarrow> flow_event \<Rightarrow> json_error + string" where
  "render_email_text E template ev =
     rbind (scalar_text (io_dump E) (ev_value ev)) (\<lambda>value.
       Inr (foldl (\<lambda>s (from, to). replace_all s from to) template
         [(''{{value}}'', value), (''{{timestamp}}'', io_local E (ev_ts ev)), (''{{timestamp_ms}}'', show_int (ev_ts ev)),
          (''{{topic}}'', ev_topic ev), (''{{source}}'', ev_source ev), (''{{key}}'', ev_key ev)]))"

fun split_addresses :: "string \<Rightarrow> string \<Rightarrow> string list" where
  "split_addresses current [] = (if trim_copy current = [] then [] else [trim_copy current])"
| "split_addresses current (c # s) =
     (if c = CHR '','' \<or> c = CHR '';''
      then (if trim_copy current = [] then [] else [trim_copy current]) @ split_addresses [] s
      else split_addresses (current @ [c]) s)"

fun send_mails :: "flow_io \<Rightarrow> string \<Rightarrow> string \<Rightarrow> nat \<Rightarrow> string list \<Rightarrow> flow_state \<Rightarrow> json_error + (bool \<times> string) \<times> flow_state" where
  "send_mails E subject body i [] w = Inr ((True, []), w)"
| "send_mails E subject body i (a # as) w =
     rbind (io_dump E (JObj [(''body'', JStr body), (''subject'', JStr subject), (''to'', JStr a),
         (''token'', JStr (io_admin_token E))])) (\<lambda>request.
       let w1 = send_out (SentMail a subject body) w in
       case service_answer E (io_http E i) ''Email delivery failed'' ''Alarm service returned an invalid email response'' of
         (False, err) \<Rightarrow> Inr ((False, err), w1)
       | (True, _) \<Rightarrow> send_mails E subject body (Suc i) as w1)"

definition send_flow_email :: "flow_io \<Rightarrow> string \<Rightarrow> string \<Rightarrow> string \<Rightarrow> flow_state \<Rightarrow> json_error + (bool \<times> string) \<times> flow_state" where
  "send_flow_email E recipients subject body w =
     (if io_admin_token E = [] then Inr ((False, ''Flow email service token is not configured''), w)
      else if split_addresses [] recipients = [] then Inr ((False, ''Email recipient is empty''), w)
      else send_mails E subject body 0 (split_addresses [] recipients) w)"

definition put_email :: "queued_event \<Rightarrow> json \<Rightarrow> flow_state \<Rightarrow> flow_state" where
  "put_email q v w = w\<lparr>fs_email := put2 (q_flow q) (q_node q) \<lparr>em_initialized = True, em_value = v\<rparr> (fs_email w)\<rparr>"

text \<open>Whether a value is mailed, given the one before it: the reason against it, or the decision and, in the
  transition mode, the Boolean the value stands for.\<close>

definition mail_decision :: "json \<Rightarrow> string \<Rightarrow> email_memory \<Rightarrow> json \<Rightarrow> json_error + string + bool \<times> bool option" where
  "mail_decision cfg mode before v =
     (if mode = ''boolean_transition'' then
        (case as_bool v of
           None \<Rightarrow> Inr (Inl ''Email Boolean transition mode requires a Boolean-compatible input'')
         | Some b \<Rightarrow>
             rbind (if em_initialized before \<and> em_value before = JBool (\<not> b)
                    then jvalue get_bool cfg (if b then ''send_true'' else ''send_false'') True else Inr False) (\<lambda>send.
               Inr (Inr (send, Some b))))
      else if mode = ''change'' then Inr (Inr (em_initialized before \<and> \<not> json_eq (em_value before) v, None))
      else Inr (Inr (mode = ''every'', None)))"

definition mail_keys :: "bool option \<Rightarrow> string \<times> string" where
  "mail_keys b = (case b of None \<Rightarrow> (''subject'', ''body'')
     | Some True \<Rightarrow> (''true_subject'', ''true_body'') | Some False \<Rightarrow> (''false_subject'', ''false_body''))"

definition send_mail :: "flow_io \<Rightarrow> json \<Rightarrow> string \<times> string \<Rightarrow> queued_event \<Rightarrow> flow_state \<Rightarrow> node_result" where
  "send_mail E cfg keys q w =
     (let ev = q_event q in
      rbind (jvalue get_string cfg (fst keys) ''OPCBridge Flow notification'') (\<lambda>subject_template.
      rbind (render_email_text E subject_template ev) (\<lambda>subject.
      rbind (jvalue get_string cfg (snd keys) ''Value: {{value}}'') (\<lambda>body_template.
      rbind (render_email_text E body_template ev) (\<lambda>body.
      rbind (jvalue get_string cfg ''to'' []) (\<lambda>recipients.
      rbind (send_flow_email E recipients subject body w) (\<lambda>((ok, err), w1).
        if ok then quiet ev (mark_node_output (io_now E) (q_flow q) (q_node q) ev ''email sent'' w1)
        else refuse ev err w1)))))))"

definition email_node :: "flow_io \<Rightarrow> json \<Rightarrow> json \<Rightarrow> queued_event \<Rightarrow> flow_state \<Rightarrow> node_result" where
  "email_node E flow cfg q w =
     (let ev = q_event q; before = fs_email w (q_flow q) (q_node q); w1 = put_email q (ev_value ev) w in
      unless_monitored E flow ''monitor: email suppressed'' q w
        (rbind (jvalue get_string cfg ''send_mode'' ''every'') (\<lambda>mode.
         rbind (mail_decision cfg mode before (ev_value ev)) (\<lambda>d. case d of
             Inl err \<Rightarrow> refuse ev err w1
           | Inr (send, transition) \<Rightarrow>
               let w2 = (case transition of None \<Rightarrow> w1 | Some b \<Rightarrow> put_email q (JBool b) w1) in
               if send then send_mail E cfg (mail_keys transition) q w2
               else quiet ev (set_node_status (q_flow q) (q_node q)
                      (if em_initialized before then ''unchanged'' else ''baseline established'') w2)))))"

section \<open>MQTT messages\<close>

definition publish_node :: "flow_io \<Rightarrow> json \<Rightarrow> json \<Rightarrow> queued_event \<Rightarrow> flow_state \<Rightarrow> node_result" where
  "publish_node E flow cfg q w =
     (let ev = q_event q in
      unless_monitored E flow ''monitor: publish suppressed'' q w
        (rbind (jvalue get_string cfg ''connection_id'' []) (\<lambda>conn.
           case om_get (fs_brokers w) conn of
             None \<Rightarrow> refuse ev (''MQTT connection not found: '' @ conn) w
           | Some b \<Rightarrow>
               if \<not> br_connected b then refuse ev (''MQTT connection is not connected: '' @ conn) w
               else
                 rbind (jvalue get_string cfg ''topic'' []) (\<lambda>topic.
                 rbind (jvalue get_string cfg ''payload_format'' ''scalar'') (\<lambda>format.
                 rbind (if format = ''json'' then io_dump E (ev_value ev) else scalar_text (io_dump E) (ev_value ev)) (\<lambda>payload.
                 rbind (jvalue get_int cfg ''qos'' (br_qos b)) (\<lambda>qos.
                 rbind (jvalue get_bool cfg ''retain'' False) (\<lambda>retain.
                   let w1 = send_out (SentPublish conn topic payload (max 0 (min 2 qos)) retain) w in
                   case io_publish E of
                     Some err \<Rightarrow> refuse ev err w1
                   | None \<Rightarrow> quiet ev (mark_node_output (io_now E) (q_flow q) (q_node q) ev ''publish ok'' w1)))))))))"

end
