(* ===== verification/FlowEngine.thy ===== *)
theory FlowEngine
  imports FlowOutputs
begin

text \<open>
  The worker of opcbridge-flow/opcbridge\_flow.cpp: \<open>process\_event\<close> and the loop that works off the queue. The
  hop limit is \<open>config\_.max\_event\_hops\<close>. An exception inside \<open>process\_event\<close> is not caught
  by the worker, so \<open>Inl\<close> here is the end of the process. Each event is processed in
  its own surroundings \<open>Es i\<close>, the clock and the answers of the services at that moment.
\<close>

section \<open>One event\<close>

fun find_node :: "string \<Rightarrow> json list \<Rightarrow> json_error + json option" where
  "find_node n [] = Inr None"
| "find_node n (c # cs) =
     rbind (jvalue get_string c ''id'' []) (\<lambda>i. if i = n then Inr (Some c) else find_node n cs)"

definition node_step :: "flow_io \<Rightarrow> string \<Rightarrow> json \<Rightarrow> json \<Rightarrow> queued_event \<Rightarrow> flow_state \<Rightarrow> node_result" where
  "node_step E type flow cfg q w =
     (if type = ''split'' then split_node E flow q w
      else if type = ''switch'' then switch_node E flow cfg q w
      else if type = ''linear_map'' then linear_node cfg q w
      else if type = ''bit_operations'' then bits_node cfg q w
      else if type = ''combine'' then combine_node cfg q w
      else if type = ''boolean_logic'' then logic_node cfg q w
      else if type = ''build_json'' then build_node cfg q w
      else if type = ''compute'' then compute_node E cfg q w
      else if type = ''delay'' then delay_node E flow cfg q w
      else if type = ''trigger'' then trigger_node E flow cfg q w
      else if type = ''boolean_invert'' then invert_node q w
      else if type = ''datatype_convert'' then convert_node E cfg q w
      else if type = ''debug'' then debug_node E q w
      else if type = ''opc_tag_write'' then write_node E flow cfg q w
      else if type = ''email_output'' then email_node E flow cfg q w
      else if type = ''mqtt_publish'' then publish_node E flow cfg q w
      else pass_on (q_event q) w)"

definition finish_node :: "flow_io \<Rightarrow> json \<Rightarrow> queued_event \<Rightarrow> flow_event \<times> bool \<times> string \<times> flow_state \<Rightarrow> json_error + flow_state" where
  "finish_node E flow q r =
     (case r of (ev, emit, err, w) \<Rightarrow>
        if err \<noteq> [] then Inr (reject_node (q_flow q) (q_node q) err w)
        else if \<not> emit then Inr w
        else send_all flow q ev (mark_node_output (io_now E) (q_flow q) (q_node q) ev ''ok'' w))"

definition run_node :: "flow_io \<Rightarrow> json \<Rightarrow> json \<Rightarrow> queued_event \<Rightarrow> flow_state \<Rightarrow> json_error + flow_state" where
  "run_node E flow node q w =
     rbind (jvalue get_string node ''type'' []) (\<lambda>type.
     rbind (jvalue Inr node ''config'' (JObj [])) (\<lambda>cfg.
     rbind (node_step E type flow cfg q (note_input (io_now E) q w)) (finish_node E flow q)))"

text \<open>Events of a replaced deployment carry its epoch; epoch 0 is an event that is never out of date.\<close>

definition outdated :: "queued_event \<Rightarrow> flow_state \<Rightarrow> bool" where
  "outdated q w \<longleftrightarrow> q_epoch q \<noteq> 0 \<and> fs_epoch w (q_flow q) \<noteq> q_epoch q"

definition target :: "queued_event \<Rightarrow> flow_state \<Rightarrow> json_error + (json \<times> json) option" where
  "target q w =
     (if outdated q w then Inr None
      else case om_get (fs_deployed w) (q_flow q) of
        None \<Rightarrow> Inr None
      | Some flow \<Rightarrow>
          rbind (jvalue get_bool flow ''enabled'' True) (\<lambda>enabled.
            if \<not> enabled then Inr None
            else rbind (jvalue Inr flow ''nodes'' (JArr [])) (\<lambda>ns.
              rbind (find_node (q_node q) (items ns)) (\<lambda>n.
                Inr (case n of None \<Rightarrow> None | Some node \<Rightarrow> if node = JObj [] then None else Some (flow, node))))))"

definition process_event :: "int \<Rightarrow> flow_io \<Rightarrow> queued_event \<Rightarrow> flow_state \<Rightarrow> json_error + flow_state" where
  "process_event max_hops E q w =
     (if max_hops < q_hops q then Inr (set_flow_error (q_flow q) ''Maximum event hops exceeded'' w)
      else rbind (target q w) (\<lambda>t. case t of None \<Rightarrow> Inr w | Some (flow, node) \<Rightarrow> run_node E flow node q w))"

section \<open>Working off the queue\<close>

text \<open>Events whose time has come join the queue, the earliest first.\<close>

definition release_due :: "int \<Rightarrow> flow_state \<Rightarrow> flow_state" where
  "release_due now w =
     w\<lparr>fs_queue := fs_queue w @ map snd (takeWhile (\<lambda>x. fst x \<le> now) (fs_delayed w)),
       fs_delayed := dropWhile (\<lambda>x. fst x \<le> now) (fs_delayed w)\<rparr>"

text \<open>The worker takes the queue over and, after each event, what was added meanwhile. \<open>None\<close>: out of fuel.\<close>

definition take_queue :: "flow_state \<Rightarrow> queued_event list \<times> flow_state" where
  "take_queue w = (fs_queue w, w\<lparr>fs_queue := []\<rparr>)"

fun drain :: "int \<Rightarrow> (nat \<Rightarrow> flow_io) \<Rightarrow> nat \<Rightarrow> nat \<Rightarrow> queued_event list \<Rightarrow> flow_state \<Rightarrow> (json_error + flow_state) option" where
  "drain max_hops Es i fuel [] w = Some (Inr w)"
| "drain max_hops Es i 0 (q # qs) w = None"
| "drain max_hops Es i (Suc fuel) (q # qs) w =
     (case process_event max_hops (Es i) q w of
        Inl e \<Rightarrow> Some (Inl e)
      | Inr w1 \<Rightarrow> (case take_queue w1 of (new, w2) \<Rightarrow> drain max_hops Es (Suc i) fuel (qs @ new) w2))"

definition work_off :: "int \<Rightarrow> (nat \<Rightarrow> flow_io) \<Rightarrow> nat \<Rightarrow> int \<Rightarrow> flow_state \<Rightarrow> (json_error + flow_state) option" where
  "work_off max_hops Es fuel now w =
     (case take_queue (release_due now w) of (events, w1) \<Rightarrow> drain max_hops Es 0 fuel events w1)"

end
