(* ===== verification/FlowPolling.thy ===== *)
theory FlowPolling
  imports FlowEngine
begin

text \<open>
  Tag inputs of the flow runner (opcbridge-flow/opcbridge\_flow.cpp): \<open>poll\_inputs\<close> and \<open>poll\_tag\<close>. The
  HTTP answer of the gateway is \<open>io\_http E 0\<close>; an exception while it is read is caught and becomes the node's
  error, one while the configuration is read is not.
\<close>

section \<open>Errors and retries of an input\<close>

definition poll_current :: "string \<Rightarrow> u64 \<Rightarrow> flow_state \<Rightarrow> bool" where
  "poll_current f epoch w \<longleftrightarrow> fs_epoch w f = epoch \<and> om_get (fs_deployed w) f \<noteq> None"

definition put_wait :: "string \<Rightarrow> string \<Rightarrow> time option \<Rightarrow> flow_state \<Rightarrow> flow_state" where
  "put_wait f n t w = w\<lparr>fs_wait_started := (fs_wait_started w)(f := (fs_wait_started w f)(n := t))\<rparr>"

definition set_node_error :: "string \<Rightarrow> string \<Rightarrow> string \<Rightarrow> flow_state \<Rightarrow> flow_state" where
  "set_node_error f n err = update_node f n (\<lambda>r. r\<lparr>nr_status := ''error'', nr_error := err\<rparr>)"

definition poll_fail :: "string \<Rightarrow> string \<Rightarrow> u64 \<Rightarrow> bool \<Rightarrow> string \<Rightarrow> flow_state \<Rightarrow> flow_state" where
  "poll_fail f n epoch retry_scheduled err w =
     (if \<not> poll_current f epoch w then w
      else set_node_error f n err (if retry_scheduled then w else put_wait f n None w))"

text \<open>A tag the gateway has just begun to poll is asked for again soon, for five seconds.\<close>

definition is_waiting :: "string \<Rightarrow> string \<Rightarrow> json \<Rightarrow> json_error + bool" where
  "is_waiting conn tag row =
     rbind (jvalue get_string row ''polling_state'' []) (\<lambda>state.
     rbind (jvalue get_string row ''connection_id'' []) (\<lambda>c.
       if c \<noteq> conn then Inr False
       else rbind (jvalue get_string row ''name'' []) (\<lambda>t.
         if t \<noteq> tag then Inr False
         else rbind (jvalue get_int row ''quality'' 0) (\<lambda>quality.
           Inr (quality \<noteq> 1 \<and> (state = ''inactive'' \<or> state = ''waiting''))))))"

definition retry_soon :: "flow_io \<Rightarrow> string \<Rightarrow> string \<Rightarrow> flow_state \<Rightarrow> bool \<times> flow_state" where
  "retry_soon E f n w =
     (let started = (case fs_wait_started w f n of None \<Rightarrow> io_steady E | Some t \<Rightarrow> if t = no_time then io_steady E else t) in
      if seconds 5 \<le> io_steady E - started then (False, put_wait f n None w)
      else (True, (put_wait f n (Some started) w)
        \<lparr>fs_next_poll := put2 f n (min (fs_next_poll w f n) (io_now E + 250)) (fs_next_poll w)\<rparr>))"

definition schedule_retry :: "flow_io \<Rightarrow> string \<Rightarrow> string \<Rightarrow> u64 \<Rightarrow> string \<Rightarrow> string \<Rightarrow> json \<Rightarrow> flow_state \<Rightarrow> json_error + bool \<times> flow_state" where
  "schedule_retry E f n epoch conn tag row w =
     rbind (is_waiting conn tag row) (\<lambda>waiting.
       Inr (if \<not> poll_current f epoch w then (False, w)
            else if \<not> waiting then (False, put_wait f n None w)
            else retry_soon E f n w))"

section \<open>Reading the answer\<close>

definition only_row :: "json \<Rightarrow> json option" where
  "only_row rows = (case rows of JArr [r] \<Rightarrow> Some r | _ \<Rightarrow> None)"

text \<open>The reason why there is no fresh sample, as the gateway gives it.\<close>

definition unavailable :: "json \<Rightarrow> string" where
  "unavailable rows =
     ''Fresh OPCBridge sample unavailable'' @
     (case Option.bind (only_row rows) (\<lambda>r. jfind r ''reason'') of Some (JStr s) \<Rightarrow> '': '' @ s | _ \<Rightarrow> [])"

definition fresh_rows :: "string \<Rightarrow> string \<Rightarrow> json \<Rightarrow> json \<Rightarrow> json_error + string + json" where
  "fresh_rows conn tag body rows =
     rbind (jvalue get_bool body ''ok'' False) (\<lambda>ok.
     case (if ok then only_row rows else None) of
       None \<Rightarrow> Inr (Inl (unavailable rows))
     | Some r \<Rightarrow>
         rbind (jvalue get_bool r ''fresh'' False) (\<lambda>fresh.
         case (if fresh then jfind r ''sample'' else None) of
           None \<Rightarrow> Inr (Inl (unavailable rows))
         | Some sample \<Rightarrow>
             rbind (jvalue get_string sample ''connection_id'' []) (\<lambda>c.
             rbind (if c = conn then jvalue get_string sample ''name'' [] else Inr []) (\<lambda>t.
               if c \<noteq> conn \<or> t \<noteq> tag then Inr (Inl ''Fresh OPCBridge sample does not match requested tag'')
               else Inr (Inr (JArr [sample]))))))"

definition answer_rows :: "bool \<Rightarrow> string \<Rightarrow> string \<Rightarrow> json \<Rightarrow> json_error + string + json" where
  "answer_rows require_fresh conn tag body =
     rbind (jvalue Inr body ''tags'' (JArr [])) (\<lambda>rows.
       if require_fresh then fresh_rows conn tag body rows else Inr (Inr rows))"

definition current_value :: "int \<Rightarrow> json \<Rightarrow> json_error + string + json \<times> int" where
  "current_value now rows =
     (case rows of
        JArr (row # _) \<Rightarrow>
          (case jfind row ''value'' of
             None \<Rightarrow> Inr (Inl ''Tag has no current value'')
           | Some v \<Rightarrow>
               if v = JNull then Inr (Inl ''Tag has no current value'')
               else rbind (jvalue get_int row ''quality'' 0) (\<lambda>quality.
                 if quality \<noteq> 1 then Inr (Inl ''Tag quality is bad'')
                 else rbind (jvalue get_long_long row ''timestamp_ms'' now) (\<lambda>ts. Inr (Inr (v, ts)))))
      | _ \<Rightarrow> Inr (Inl ''Tag has no current value''))"

section \<open>Passing the value on\<close>

definition tag_event :: "string \<Rightarrow> string \<Rightarrow> json \<Rightarrow> int \<Rightarrow> flow_event" where
  "tag_event conn tag v ts =
     new_event\<lparr>ev_present := True, ev_value := v, ev_quality := ''good'', ev_ts := ts,
       ev_source := ''opcbridge:'' @ conn @ '':'' @ tag\<rparr>"

definition note_observed :: "string \<Rightarrow> string \<Rightarrow> json \<Rightarrow> int \<Rightarrow> flow_state \<Rightarrow> flow_state" where
  "note_observed f n v ts w =
     update_node f n (\<lambda>r. r\<lparr>nr_status := ''watching'', nr_error := [], nr_last_input := ts, nr_value := v\<rparr>)
       ((put_wait f n None w)\<lparr>fs_last_input := put2 f n v (fs_last_input w)\<rparr>)"

text \<open>The first value after a deployment always goes out, later ones when they differ or all are wanted.\<close>

definition observe :: "flow_io \<Rightarrow> string \<Rightarrow> string \<Rightarrow> json \<Rightarrow> u64 \<Rightarrow> bool \<Rightarrow> flow_event \<Rightarrow> flow_state \<Rightarrow> flow_state" where
  "observe E f n cfg epoch retry_scheduled ev w =
     (if \<not> poll_current f epoch w then w
      else
        let before = fs_last_input w f n; w1 = note_observed f n (ev_value ev) (ev_ts ev) w;
            out = enqueue \<lparr>q_flow = f, q_node = n, q_event = ev, q_hops = 0, q_port = [], q_epoch = epoch\<rparr> w1 in
        if before = JNull \<or> \<not> json_eq before (ev_value ev) then out
        else case jvalue get_bool cfg ''only_on_change'' True of
          Inl e \<Rightarrow> poll_fail f n epoch retry_scheduled (io_what E e) w1
        | Inr only_on_change \<Rightarrow> if only_on_change then w1 else out)"

definition read_answer :: "flow_io \<Rightarrow> string \<Rightarrow> string \<Rightarrow> json \<Rightarrow> u64 \<Rightarrow> string \<Rightarrow> string \<Rightarrow> bool \<Rightarrow> string \<Rightarrow> flow_state \<Rightarrow> flow_state" where
  "read_answer E f n cfg epoch conn tag require_fresh body_text w =
     (case io_parse E body_text of
        None \<Rightarrow> poll_fail f n epoch False (io_bad_json E body_text) w
      | Some body \<Rightarrow>
     case answer_rows require_fresh conn tag body of
        Inl e \<Rightarrow> poll_fail f n epoch False (io_what E e) w
      | Inr (Inl reason) \<Rightarrow> poll_fail f n epoch False reason w
      | Inr (Inr rows) \<Rightarrow>
     case (if require_fresh then Inr (False, w)
           else schedule_retry E f n epoch conn tag (case only_row rows of Some r \<Rightarrow> r | None \<Rightarrow> JObj []) w) of
        Inl e \<Rightarrow> poll_fail f n epoch False (io_what E e) w
      | Inr (retry_scheduled, w1) \<Rightarrow>
     case current_value (io_now E) rows of
        Inl e \<Rightarrow> poll_fail f n epoch retry_scheduled (io_what E e) w1
      | Inr (Inl reason) \<Rightarrow> poll_fail f n epoch retry_scheduled reason w1
      | Inr (Inr (v, ts)) \<Rightarrow> observe E f n cfg epoch retry_scheduled (tag_event conn tag v ts) w1)"

section \<open>One poll\<close>

definition fresh_request :: "json \<Rightarrow> string \<Rightarrow> string \<Rightarrow> json_error + json" where
  "fresh_request cfg conn tag =
     rbind (jvalue get_int cfg ''fresh_timeout_ms'' 1000) (\<lambda>timeout.
     rbind (jvalue get_int cfg ''fresh_max_age_ms'' 0) (\<lambda>max_age.
       Inr (JObj [(''max_age_ms'', JInt max_age),
         (''tags'', JArr [JObj [(''connection_id'', JStr conn), (''name'', JStr tag)]]), (''timeout_ms'', JInt timeout)])))"

definition poll_tag :: "flow_io \<Rightarrow> string \<Rightarrow> string \<Rightarrow> json \<Rightarrow> u64 \<Rightarrow> flow_state \<Rightarrow> json_error + flow_state" where
  "poll_tag E f n cfg epoch w =
     rbind (jvalue get_string cfg ''connection_id'' []) (\<lambda>conn.
     rbind (jvalue get_string cfg ''tag_name'' []) (\<lambda>tag.
     rbind (jvalue get_bool cfg ''require_fresh_read'' False) (\<lambda>require_fresh.
     rbind (if require_fresh then rbind (fresh_request cfg conn tag) (io_dump E) else Inr []) (\<lambda>request.
       let r = io_http E 0 in
       Inr (if \<not> hr_transport_ok r \<or> hr_status r \<noteq> 200
            then poll_fail f n epoch False (if hr_error r = [] then ''OPCBridge tag request failed'' else hr_error r) w
            else read_answer E f n cfg epoch conn tag require_fresh (hr_body r) w)))))"

section \<open>All inputs\<close>

record poll_task =
  pt_flow :: string
  pt_node :: string
  pt_config :: json
  pt_epoch :: u64

text \<open>\<open>node["config"]\<close>: a validated node has one; indexing another kind of value throws.\<close>

definition node_config :: "json \<Rightarrow> json_error + json" where
  "node_config node = jat node ''config''"

fun due_inputs :: "int \<Rightarrow> int \<Rightarrow> string \<Rightarrow> json list \<Rightarrow> flow_state \<Rightarrow> json_error + poll_task list \<times> flow_state" where
  "due_inputs now dflt f [] w = Inr ([], w)"
| "due_inputs now dflt f (node # ns) w =
     rbind (jvalue get_string node ''type'' []) (\<lambda>type.
       if type \<noteq> ''opc_tag_input'' then due_inputs now dflt f ns w
       else rbind (jvalue get_string node ''id'' []) (\<lambda>n.
         rbind (node_config node) (\<lambda>cfg.
         rbind (jvalue get_int cfg ''poll_interval_ms'' dflt) (\<lambda>interval.
           if fs_next_poll w f n \<le> now then
             rbind (due_inputs now dflt f ns (w\<lparr>fs_next_poll := put2 f n (now + max 100 interval) (fs_next_poll w)\<rparr>))
               (\<lambda>(ts, w1). Inr (\<lparr>pt_flow = f, pt_node = n, pt_config = cfg, pt_epoch = fs_epoch w f\<rparr> # ts, w1))
           else due_inputs now dflt f ns w))))"

fun collect_polls :: "int \<Rightarrow> int \<Rightarrow> (string \<times> json) list \<Rightarrow> flow_state \<Rightarrow> json_error + poll_task list \<times> flow_state" where
  "collect_polls now dflt [] w = Inr ([], w)"
| "collect_polls now dflt ((f, flow) # fs) w =
     rbind (jvalue get_bool flow ''enabled'' True) (\<lambda>enabled.
       if \<not> enabled then collect_polls now dflt fs w
       else rbind (jvalue Inr flow ''nodes'' (JArr [])) (\<lambda>ns.
         rbind (due_inputs now dflt f (items ns) w) (\<lambda>(ts, w1).
         rbind (collect_polls now dflt fs w1) (\<lambda>(ts', w2). Inr (ts @ ts', w2)))))"

text \<open>The requests are made one after the other, each in surroundings of its own.\<close>

fun run_polls :: "(nat \<Rightarrow> flow_io) \<Rightarrow> nat \<Rightarrow> poll_task list \<Rightarrow> flow_state \<Rightarrow> json_error + flow_state" where
  "run_polls Es i [] w = Inr w"
| "run_polls Es i (t # ts) w =
     rbind (poll_tag (Es i) (pt_flow t) (pt_node t) (pt_config t) (pt_epoch t) w) (run_polls Es (Suc i) ts)"

definition poll_inputs :: "(nat \<Rightarrow> flow_io) \<Rightarrow> int \<Rightarrow> int \<Rightarrow> flow_state \<Rightarrow> json_error + flow_state" where
  "poll_inputs Es now dflt w =
     rbind (collect_polls now dflt (fs_deployed w) w) (\<lambda>(ts, w1). run_polls Es 0 ts w1)"

end
