(* ===== verification/FlowMqtt.thy ===== *)
theory FlowMqtt
  imports FlowEngine
begin

text \<open>
  The MQTT side of the flow runner (opcbridge-flow/opcbridge\_flow.cpp): the brokers of the connection files, the
  callbacks of the client library, the subscriptions and the messages. libmosquitto is a parameter: \<open>subscribe\<close>
  gives the error text of a failed subscription, \<open>matches\<close> is
  \<open>mosquitto\_topic\_matches\_sub\<close>. What the library is told to drop is
  the broker's, only our cache is modelled.
\<close>

section \<open>Brokers\<close>

text \<open>A file of the connections directory: the stem of its name, its content, and what the library answers for it.\<close>

record mqtt_file =
  mf_stem :: string
  mf_json :: json
  mf_created :: bool
  mf_tls :: "string option"
  mf_connect :: "string option"

definition clamp_qos :: "int \<Rightarrow> int" where
  "clamp_qos n = max 0 (min 2 n)"

definition broker_settings :: "json \<Rightarrow> json" where
  "broker_settings connection = (case jfind connection ''settings'' of Some (JObj kvs) \<Rightarrow> JObj kvs | _ \<Rightarrow> connection)"

definition installed :: "mqtt_file \<Rightarrow> int \<Rightarrow> bool \<Rightarrow> broker" where
  "installed file qos tls =
     \<lparr>br_client = mf_created file, br_connected = False,
      br_error = (if \<not> mf_created file then ''mosquitto_new failed''
        else case mf_connect file of Some err \<Rightarrow> err
          | None \<Rightarrow> (if tls \<and> mf_tls file \<noteq> None then ''MQTT TLS configuration failed'' else [])),
      br_qos = clamp_qos qos, br_topics = []\<rparr>"

text \<open>Texts and flags of a connection that are read only to be handed to the library.\<close>

fun read_texts :: "json \<Rightarrow> string list \<Rightarrow> json_error + unit" where
  "read_texts cfg [] = Inr ()"
| "read_texts cfg (k # ks) = rbind (jvalue get_string cfg k []) (\<lambda>s. read_texts cfg ks)"

definition tls_settings :: "json \<Rightarrow> bool \<Rightarrow> json_error + unit" where
  "tls_settings cfg tls =
     (if \<not> tls then Inr ()
      else rbind (read_texts cfg [''cafile'', ''certfile'', ''keyfile'']) (\<lambda>u.
        rbind (jvalue get_bool cfg ''tls_insecure'' False) (\<lambda>b. Inr ())))"

text \<open>The broker is installed before its port is read, so it stays when that throws.\<close>

definition start_broker :: "mqtt_file \<Rightarrow> json_error + (string \<times> broker \<times> json_error option) option" where
  "start_broker file =
     (let connection = mf_json file in
      rbind (jvalue get_string connection ''driver'' []) (\<lambda>driver.
      rbind (if driver = ''mqtt'' then jvalue get_bool connection ''enabled'' True else Inr False) (\<lambda>enabled.
        if \<not> enabled then Inr None
        else
          rbind (jvalue get_string connection ''id'' (mf_stem file)) (\<lambda>i.
          let n = trim_copy i; cfg = broker_settings connection in
          rbind (jvalue get_string cfg ''host'' []) (\<lambda>host.
            if n = [] \<or> trim_copy host = [] then Inr None
            else
              rbind (jvalue get_int cfg ''qos'' 0) (\<lambda>qos.
              rbind (read_texts cfg [''client_id'']) (\<lambda>u.
                if \<not> mf_created file then Inr (Some (n, installed file qos False, None))
                else
                  rbind (read_texts cfg [''username'', ''password'']) (\<lambda>u.
                  rbind (jvalue get_bool cfg ''use_tls'' False) (\<lambda>tls.
                  rbind (tls_settings cfg tls) (\<lambda>u.
                    Inr (Some (n, installed file qos tls,
                      case jvalue get_int cfg ''port'' (if tls then 8883 else 1883) of Inl e \<Rightarrow> Some e | Inr port \<Rightarrow> None))))))))))))"

text \<open>A later file with the same id replaces the broker of an earlier one.\<close>

fun start_mqtt :: "mqtt_file list \<Rightarrow> flow_state \<Rightarrow> flow_state \<times> json_error option" where
  "start_mqtt [] w = (w, None)"
| "start_mqtt (file # files) w =
     (case start_broker file of
        Inl e \<Rightarrow> (w, Some e)
      | Inr None \<Rightarrow> start_mqtt files w
      | Inr (Some (n, b, failed)) \<Rightarrow>
          (let w1 = w\<lparr>fs_brokers := om_put n b (fs_brokers w)\<rparr> in
           case failed of Some e \<Rightarrow> (w1, Some e) | None \<Rightarrow> start_mqtt files w1))"

definition reload_mqtt :: "mqtt_file list \<Rightarrow> flow_state \<Rightarrow> flow_state \<times> json_error option" where
  "reload_mqtt files w = start_mqtt files (w\<lparr>fs_brokers := []\<rparr>)"

section \<open>Subscriptions\<close>

definition node_topic :: "string \<Rightarrow> json \<Rightarrow> json_error + string list" where
  "node_topic conn node =
     rbind (jvalue get_string node ''type'' []) (\<lambda>type.
       if type \<noteq> ''mqtt_subscribe'' then Inr []
       else rbind (jat node ''config'') (\<lambda>cfg.
         rbind (jvalue get_string cfg ''connection_id'' []) (\<lambda>c.
           if c \<noteq> conn then Inr [] else rbind (jvalue get_string cfg ''topic'' []) (\<lambda>t. Inr [t]))))"

fun collect :: "('a \<Rightarrow> 'e + 'b list) \<Rightarrow> 'a list \<Rightarrow> 'e + 'b list" where
  "collect f [] = Inr []"
| "collect f (x # xs) = rbind (f x) (\<lambda>ys. rbind (collect f xs) (\<lambda>zs. Inr (ys @ zs)))"

definition flow_nodes :: "json \<Rightarrow> json_error + json list" where
  "flow_nodes flow = rbind (jvalue Inr flow ''nodes'' (JArr [])) (\<lambda>ns. Inr (items ns))"

text \<open>Every deployed flow counts, also one that is not enabled.\<close>

definition desired_topics :: "string \<Rightarrow> flow_state \<Rightarrow> json_error + string list" where
  "desired_topics conn w =
     rbind (collect (\<lambda>(f, flow). rbind (flow_nodes flow) (collect (node_topic conn))) (fs_deployed w)) (\<lambda>ts.
       Inr (sorted_list_of_set (set ts)))"

fun subscribe_each :: "(string \<Rightarrow> string option) \<Rightarrow> string list \<Rightarrow> broker \<Rightarrow> broker" where
  "subscribe_each subscribe [] b = b"
| "subscribe_each subscribe (t # ts) b =
     subscribe_each subscribe ts
       (if t = [] \<or> t \<in> set (br_topics b) then b
        else case subscribe t of
          None \<Rightarrow> b\<lparr>br_topics := t # br_topics b\<rparr>
        | Some err \<Rightarrow> b\<lparr>br_error := ''MQTT subscribe failed for '' @ t @ '': '' @ err\<rparr>)"

definition refresh_broker :: "(string \<Rightarrow> string option) \<Rightarrow> string list \<Rightarrow> broker \<Rightarrow> broker" where
  "refresh_broker subscribe topics b =
     (let b1 = subscribe_each subscribe topics b in b1\<lparr>br_topics := filter (\<lambda>t. t \<in> set topics) (br_topics b1)\<rparr>)"

definition refresh_one :: "(string \<Rightarrow> string \<Rightarrow> string option) \<Rightarrow> string \<Rightarrow> flow_state \<Rightarrow> json_error + flow_state" where
  "refresh_one subscribe conn w =
     (case om_get (fs_brokers w) conn of
        None \<Rightarrow> Inr w
      | Some b \<Rightarrow>
          if \<not> br_client b \<or> \<not> br_connected b then Inr w
          else rbind (desired_topics conn w) (\<lambda>topics.
            Inr (w\<lparr>fs_brokers := om_put conn (refresh_broker (subscribe conn) topics b) (fs_brokers w)\<rparr>)))"

fun refresh_each :: "(string \<Rightarrow> string \<Rightarrow> string option) \<Rightarrow> string list \<Rightarrow> flow_state \<Rightarrow> flow_state \<times> json_error option" where
  "refresh_each subscribe [] w = (w, None)"
| "refresh_each subscribe (c # cs) w =
     (case refresh_one subscribe c w of Inl e \<Rightarrow> (w, Some e) | Inr w1 \<Rightarrow> refresh_each subscribe cs w1)"

definition refresh_all :: "(string \<Rightarrow> string \<Rightarrow> string option) \<Rightarrow> flow_state \<Rightarrow> flow_state \<times> json_error option" where
  "refresh_all subscribe w = refresh_each subscribe (map fst (fs_brokers w)) w"

section \<open>Connection callbacks\<close>

definition is_connection_error :: "string \<Rightarrow> bool" where
  "is_connection_error s \<longleftrightarrow> starts_with ''MQTT connection is not connected:'' s \<or> s = ''MQTT disconnected''"

definition mqtt_node_of :: "string \<Rightarrow> json \<Rightarrow> json_error + string list" where
  "mqtt_node_of conn node =
     rbind (jvalue get_string node ''type'' []) (\<lambda>type.
       if type \<noteq> ''mqtt_subscribe'' \<and> type \<noteq> ''mqtt_publish'' then Inr []
       else rbind (jvalue Inr node ''config'' (JObj [])) (\<lambda>cfg.
         rbind (jvalue get_string cfg ''connection_id'' []) (\<lambda>c.
           if c \<noteq> conn then Inr [] else rbind (jvalue get_string node ''id'' []) (\<lambda>n. Inr [n]))))"

definition clear_connection_error :: "string \<Rightarrow> string \<Rightarrow> flow_state \<Rightarrow> flow_state" where
  "clear_connection_error f n =
     update_node f n (\<lambda>r. if is_connection_error (nr_error r) then r\<lparr>nr_error := [], nr_status := ''connected''\<rparr> else r)"

definition clear_mqtt_connection_errors :: "string \<Rightarrow> flow_state \<Rightarrow> json_error + flow_state" where
  "clear_mqtt_connection_errors conn w =
     rbind (collect (\<lambda>(f, flow). rbind (flow_nodes flow) (\<lambda>ns.
         rbind (collect (mqtt_node_of conn) ns) (\<lambda>is. Inr (map (Pair f) is)))) (fs_deployed w)) (\<lambda>ts.
       Inr (fold (\<lambda>(f, n). clear_connection_error f n) ts w))"

text \<open>A clean session: the broker knows no subscription after a connect, and the cache starts empty.\<close>

definition on_connect :: "(string \<Rightarrow> string \<Rightarrow> string option) \<Rightarrow> string \<Rightarrow> string option \<Rightarrow> flow_state \<Rightarrow> json_error + flow_state" where
  "on_connect subscribe conn failure w =
     (case om_get (fs_brokers w) conn of
        None \<Rightarrow> Inr w
      | Some b \<Rightarrow>
          let b1 = b\<lparr>br_connected := (failure = None), br_topics := [], br_error := (case failure of None \<Rightarrow> [] | Some e \<Rightarrow> e)\<rparr>;
              w1 = w\<lparr>fs_brokers := om_put conn b1 (fs_brokers w)\<rparr> in
          if failure = None then rbind (clear_mqtt_connection_errors conn w1) (refresh_one subscribe conn) else Inr w1)"

definition on_disconnect :: "string \<Rightarrow> bool \<Rightarrow> flow_state \<Rightarrow> flow_state" where
  "on_disconnect conn unexpected w =
     (case om_get (fs_brokers w) conn of
        None \<Rightarrow> w
      | Some b \<Rightarrow> w\<lparr>fs_brokers := om_put conn
          (b\<lparr>br_connected := False, br_topics := [], br_error := (if unexpected then ''MQTT disconnected'' else br_error b)\<rparr>)
          (fs_brokers w)\<rparr>)"

section \<open>Messages\<close>

definition message_node :: "(string \<Rightarrow> bool) \<Rightarrow> string \<Rightarrow> json \<Rightarrow> json_error + (string \<times> json) list" where
  "message_node matches conn node =
     rbind (jvalue get_string node ''type'' []) (\<lambda>type.
       if type \<noteq> ''mqtt_subscribe'' then Inr []
       else rbind (jat node ''config'') (\<lambda>cfg.
         rbind (jvalue get_string cfg ''connection_id'' []) (\<lambda>c.
           if c \<noteq> conn then Inr []
           else rbind (jvalue get_string cfg ''topic'' []) (\<lambda>t.
             if \<not> matches t then Inr []
             else rbind (jvalue get_string node ''id'' []) (\<lambda>n. Inr [(n, cfg)])))))"

definition message_targets :: "(string \<Rightarrow> bool) \<Rightarrow> string \<Rightarrow> flow_state \<Rightarrow> json_error + (string \<times> string \<times> json) list" where
  "message_targets matches conn w =
     collect (\<lambda>(f, flow). rbind (jvalue get_bool flow ''enabled'' True) (\<lambda>enabled.
         if \<not> enabled then Inr []
         else rbind (flow_nodes flow) (\<lambda>ns. rbind (collect (message_node matches conn) ns) (\<lambda>ts. Inr (map (Pair f) ts)))))
       (fs_deployed w)"

text \<open>A payload that is no JSON text is a number, a Boolean or itself, unless JSON was demanded.\<close>

definition payload_value :: "flow_io \<Rightarrow> string \<Rightarrow> string \<Rightarrow> string + json" where
  "payload_value E format payload =
     (if format = ''string'' then Inr (JStr payload)
      else case io_parse E payload of
        Some v \<Rightarrow> Inr v
      | None \<Rightarrow>
          if format = ''json'' then Inl (io_bad_json E payload)
          else case as_number (JStr payload) of
            Some x \<Rightarrow> Inr (JFloat x)
          | None \<Rightarrow> (case as_bool (JStr payload) of Some b \<Rightarrow> Inr (JBool b) | None \<Rightarrow> Inr (JStr payload)))"

definition message_value :: "flow_io \<Rightarrow> json \<Rightarrow> string \<Rightarrow> string + json" where
  "message_value E cfg payload =
     (case jvalue get_string cfg ''payload_format'' ''auto'' of
        Inl e \<Rightarrow> Inl (io_what E e)
      | Inr format \<Rightarrow>
     case payload_value E format payload of
        Inl err \<Rightarrow> Inl err
      | Inr v \<Rightarrow>
     case jvalue get_string cfg ''json_path'' [] of
        Inl e \<Rightarrow> Inl (io_what E e)
      | Inr path \<Rightarrow>
     case json_path_value v path of
        None \<Rightarrow> Inl ''MQTT JSON path is missing''
      | Some x \<Rightarrow> if x = JNull then Inl ''MQTT value is null'' else Inr x)"

definition mqtt_event :: "int \<Rightarrow> string \<Rightarrow> json \<Rightarrow> flow_event" where
  "mqtt_event now topic v =
     new_event\<lparr>ev_present := True, ev_value := v, ev_quality := ''good'', ev_ts := now, ev_source := ''mqtt'', ev_topic := topic\<rparr>"

definition deliver :: "flow_io \<Rightarrow> string \<Rightarrow> string \<Rightarrow> string \<times> string \<times> json \<Rightarrow> flow_state \<Rightarrow> flow_state" where
  "deliver E topic payload t w =
     (case t of (f, n, cfg) \<Rightarrow>
      case message_value E cfg payload of
        Inl err \<Rightarrow> reject_node f n err w
      | Inr v \<Rightarrow> enqueue \<lparr>q_flow = f, q_node = n, q_event = mqtt_event (io_now E) topic v, q_hops = 0, q_port = [], q_epoch = 0\<rparr> w)"

definition on_mqtt_message ::
    "flow_io \<Rightarrow> (string \<Rightarrow> string \<Rightarrow> bool) \<Rightarrow> string \<Rightarrow> string \<Rightarrow> string \<Rightarrow> flow_state \<Rightarrow> json_error + flow_state" where
  "on_mqtt_message E matches conn topic payload w =
     rbind (message_targets (\<lambda>pattern. matches pattern topic) conn w) (\<lambda>ts. Inr (fold (deliver E topic payload) ts w))"

end
