(* ===== verification/FlowControl.thy ===== *)
theory FlowControl
  imports FlowDefinition FlowPolling FlowMqtt
begin

text \<open>
  The operations behind the HTTP interface of the flow runner (opcbridge-flow/opcbridge\_flow.cpp): drafts,
  deployment, test events and loading at the start. \<open>saved\<close> is the error text of a failed file write,
  \<open>order\<close> the order in which the unordered containers of the cycle check are visited. An exception leaves
  the state as it is at that point and becomes an HTTP error.
\<close>

datatype reply = Replied | Failed string | Threw json_error

definition of_flow_error :: "flow_error \<Rightarrow> reply" where
  "of_flow_error e = (case e of Thrown x \<Rightarrow> Threw x | Refused s \<Rightarrow> Failed s)"

definition or_threw :: "flow_state \<times> json_error option \<Rightarrow> reply \<times> flow_state" where
  "or_threw r = (case r of (w, None) \<Rightarrow> (Replied, w) | (w, Some e) \<Rightarrow> (Threw e, w))"

section \<open>Drafts\<close>

definition flow_id :: "json \<Rightarrow> string" where
  "flow_id flow = (case jfind flow ''id'' of Some (JStr s) \<Rightarrow> s | _ \<Rightarrow> [])"

definition save_draft ::
    "math_lib \<Rightarrow> (string list \<Rightarrow> string list) \<Rightarrow> string option \<Rightarrow> json \<Rightarrow> flow_state \<Rightarrow> reply \<times> flow_state" where
  "save_draft L order saved flow w =
     (case normalize_and_validate L order False flow of
        Inl e \<Rightarrow> (of_flow_error e, w)
      | Inr f \<Rightarrow>
          let w1 = w\<lparr>fs_drafts := om_put (flow_id f) f (fs_drafts w)\<rparr> in
          (case saved of Some err \<Rightarrow> (Failed err, w1) | None \<Rightarrow> (Replied, w1)))"

definition remove_draft :: "string option \<Rightarrow> string \<Rightarrow> flow_state \<Rightarrow> reply \<times> flow_state" where
  "remove_draft saved i w =
     (if om_get (fs_deployed w) i \<noteq> None then (Failed ''Disable the deployed flow before deleting it'', w)
      else if om_get (fs_drafts w) i = None then (Failed ''Flow not found'', w)
      else
        let w1 = w\<lparr>fs_drafts := om_del i (fs_drafts w)\<rparr> in
        (case saved of Some err \<Rightarrow> (Failed err, w1) | None \<Rightarrow> (Replied, w1)))"

section \<open>Deployment\<close>

text \<open>What the nodes of a flow have collected; \<open>disable\<close> keeps the poll times, the waits and the last inputs.\<close>

definition clear_memory :: "string \<Rightarrow> flow_state \<Rightarrow> flow_state" where
  "clear_memory f w =
     w\<lparr>fs_combine := (fs_combine w)(f := \<lambda>n. Map.empty), fs_boolean := (fs_boolean w)(f := \<lambda>n. Map.empty),
       fs_json := (fs_json w)(f := \<lambda>n. Map.empty), fs_compute := (fs_compute w)(f := \<lambda>n. Map.empty),
       fs_rate := (fs_rate w)(f := \<lambda>n. new_rate_limit), fs_trigger := (fs_trigger w)(f := \<lambda>n. 0),
       fs_email := (fs_email w)(f := \<lambda>n. new_email_memory)\<rparr>"

definition clear_inputs :: "string \<Rightarrow> flow_state \<Rightarrow> flow_state" where
  "clear_inputs f w =
     w\<lparr>fs_next_poll := (fs_next_poll w)(f := \<lambda>n. 0), fs_wait_started := (fs_wait_started w)(f := Map.empty),
       fs_last_input := (fs_last_input w)(f := \<lambda>n. JNull)\<rparr>"

text \<open>The new graph and its epoch are in place before the parts of the flow are read.\<close>

definition switch_graph :: "string \<Rightarrow> (string, json) omap \<Rightarrow> flow_state \<Rightarrow> flow_state" where
  "switch_graph f next w =
     update_flow f (\<lambda>r. r) (w\<lparr>fs_deployed := next, fs_epoch := (fs_epoch w)(f := fs_epoch w f + 1)\<rparr>)"

definition node_id :: "json \<Rightarrow> json_error + string list" where
  "node_id node = rbind (jvalue get_string node ''id'' []) (\<lambda>n. Inr [n])"

definition fresh_runtime :: "json \<Rightarrow> int \<Rightarrow> json_error + flow_runtime" where
  "fresh_runtime flow now =
     rbind (jvalue get_bool flow ''enabled'' True) (\<lambda>enabled.
     rbind (jvalue get_long_long flow ''deployed_ms'' now) (\<lambda>deployed.
     rbind (rbind (flow_nodes flow) (collect node_id)) (\<lambda>is.
       Inr \<lparr>fr_status = (if enabled then ''running'' else ''disabled''), fr_error = [], fr_deployed = deployed,
         fr_events = 0, fr_nodes = map_of (map (\<lambda>i. (i, new_node_runtime)) is)\<rparr>)))"

definition install_flow :: "int \<Rightarrow> string \<Rightarrow> json \<Rightarrow> (string, json) omap \<Rightarrow> flow_state \<Rightarrow> flow_state \<times> json_error option" where
  "install_flow now f flow next w =
     (let w1 = switch_graph f next w in
      case fresh_runtime flow now of
        Inl e \<Rightarrow> (w1, Some e)
      | Inr r \<Rightarrow> (clear_inputs f (clear_memory f
          (update_flow f (\<lambda>old. r\<lparr>fr_events := fr_events old\<rparr>) w1)), None))"

record mqtt_env =
  me_files :: "mqtt_file list"
  me_subscribe :: "string \<Rightarrow> string \<Rightarrow> string option"

definition restart_mqtt :: "mqtt_env \<Rightarrow> flow_state \<Rightarrow> flow_state \<times> json_error option" where
  "restart_mqtt M w =
     (case reload_mqtt (me_files M) w of
        (w1, Some e) \<Rightarrow> (w1, Some e) | (w1, None) \<Rightarrow> refresh_all (me_subscribe M) w1)"

text \<open>The candidate is saved with the other deployed flows before the graph is switched.\<close>

definition deploy ::
    "math_lib \<Rightarrow> (string list \<Rightarrow> string list) \<Rightarrow> int \<Rightarrow> string option \<Rightarrow> mqtt_env \<Rightarrow> string \<Rightarrow> flow_state \<Rightarrow> reply \<times> flow_state" where
  "deploy L order now saved M f w =
     (case om_get (fs_drafts w) f of
        None \<Rightarrow> (Failed ''Draft flow not found'', w)
      | Some draft \<Rightarrow>
     case normalize_and_validate L order True draft of
        Inl e \<Rightarrow> (of_flow_error e, w)
      | Inr flow \<Rightarrow>
     let candidate = jset ''deployed_ms'' (JInt now) flow; next = om_put f candidate (fs_deployed w) in
     case saved of
        Some err \<Rightarrow> (Failed err, w)
      | None \<Rightarrow>
     case install_flow now f candidate next w of
        (w1, Some e) \<Rightarrow> (Threw e, w1)
      | (w1, None) \<Rightarrow> or_threw (restart_mqtt M (clear_queued_events f w1)))"

definition disable :: "string option \<Rightarrow> mqtt_env \<Rightarrow> string \<Rightarrow> flow_state \<Rightarrow> reply \<times> flow_state" where
  "disable saved M f w =
     (if om_get (fs_deployed w) f = None then (Failed ''Deployed flow not found'', w)
      else case saved of
        Some err \<Rightarrow> (Failed err, w)
      | None \<Rightarrow>
          let w1 = w\<lparr>fs_deployed := om_del f (fs_deployed w), fs_epoch := (fs_epoch w)(f := fs_epoch w f + 1)\<rparr>;
              w2 = clear_memory f (update_flow f (\<lambda>r. r\<lparr>fr_status := ''stopped''\<rparr>) w1) in
          or_threw (refresh_all (me_subscribe M) (clear_queued_events f w2)))"

section \<open>Test events\<close>

fun has_node :: "string \<Rightarrow> json list \<Rightarrow> json_error + bool" where
  "has_node n [] = Inr False"
| "has_node n (c # cs) =
     rbind (jvalue get_string c ''id'' []) (\<lambda>i. rbind (has_node n cs) (\<lambda>found. Inr (i = n \<or> found)))"

definition test_event :: "int \<Rightarrow> json \<Rightarrow> flow_event" where
  "test_event now v =
     new_event\<lparr>ev_present := v \<noteq> JNull, ev_value := v, ev_quality := (if v = JNull then ''bad_null'' else ''good''),
       ev_ts := now, ev_source := ''manual_test''\<rparr>"

definition inject :: "int \<Rightarrow> string \<Rightarrow> string \<Rightarrow> json \<Rightarrow> flow_state \<Rightarrow> reply \<times> flow_state" where
  "inject now f n v w =
     (case om_get (fs_deployed w) f of
        None \<Rightarrow> (Failed ''Flow is not deployed'', w)
      | Some flow \<Rightarrow>
          (case rbind (flow_nodes flow) (has_node n) of
             Inl e \<Rightarrow> (Threw e, w)
           | Inr found \<Rightarrow>
               if \<not> found then (Failed ''Node not found'', w)
               else (Replied, enqueue \<lparr>q_flow = f, q_node = n, q_event = test_event now v, q_hops = 0, q_port = [], q_epoch = 0\<rparr> w)))"

section \<open>Loading\<close>

definition new_service :: flow_state where
  "new_service = \<lparr>fs_drafts = [], fs_deployed = [], fs_epoch = (\<lambda>f. 0), fs_runtime = Map.empty, fs_next_poll = (\<lambda>f n. 0),
     fs_wait_started = (\<lambda>f. Map.empty), fs_last_input = (\<lambda>f n. JNull), fs_combine = (\<lambda>f n. Map.empty),
     fs_boolean = (\<lambda>f n. Map.empty), fs_json = (\<lambda>f n. Map.empty), fs_compute = (\<lambda>f n. Map.empty),
     fs_rate = (\<lambda>f n. new_rate_limit), fs_trigger = (\<lambda>f n. 0), fs_email = (\<lambda>f n. new_email_memory),
     fs_queue = [], fs_delayed = [], fs_brokers = [], fs_sent = []\<rparr>"

fun collect_flows :: "json list \<Rightarrow> (string, json) omap \<Rightarrow> json_error + (string, json) omap" where
  "collect_flows [] m = Inr m"
| "collect_flows (f # fs) m =
     (if \<not> is_object f then collect_flows fs m
      else rbind (jvalue get_string f ''id'' []) (\<lambda>i. collect_flows fs (if i = [] then m else om_put i f m)))"

definition load_collection :: "json \<Rightarrow> json_error + (string, json) omap" where
  "load_collection doc = rbind (jvalue Inr doc ''flows'' (JArr [])) (\<lambda>fs. collect_flows (items fs) [])"

fun start_flows :: "(string, json) omap \<Rightarrow> flow_state \<Rightarrow> json_error + flow_state" where
  "start_flows [] w = Inr w"
| "start_flows ((f, flow) # fs) w =
     rbind (fresh_runtime flow 0) (\<lambda>r.
       start_flows fs (w\<lparr>fs_epoch := (fs_epoch w)(f := 1), fs_runtime := (fs_runtime w)(f \<mapsto> r)\<rparr>))"

definition load_all :: "json \<Rightarrow> json \<Rightarrow> flow_state \<Rightarrow> json_error + flow_state" where
  "load_all drafts deployed w =
     rbind (load_collection drafts) (\<lambda>ds. rbind (load_collection deployed) (\<lambda>fs.
       start_flows fs (w\<lparr>fs_drafts := ds, fs_deployed := fs\<rparr>)))"

end
