(* ===== verification/FlowFrame.thy ===== *)
theory FlowFrame
  imports FlowEngine
begin

text \<open>
  What processing one event may change. \<open>extends may q w v\<close>: the state has gone from \<open>w\<close> to \<open>v\<close>
  while \<open>q\<close> was processed; the configuration stays, other flows keep all they have, the queue grows at its end
  by successors of \<open>q\<close>, the delayed queue keeps its order and its limit, and something was sent only if
  \<open>may\<close>. Every operation keeps the relation, so each node does.
\<close>

section \<open>The frame of an event\<close>

definition child :: "queued_event \<Rightarrow> queued_event \<Rightarrow> bool" where
  "child q x \<longleftrightarrow> q_flow x = q_flow q \<and> q_epoch x = q_epoch q \<and> q_hops x = q_hops q + 1"

definition same_setup :: "flow_state \<Rightarrow> flow_state \<Rightarrow> bool" where
  "same_setup w v \<longleftrightarrow> fs_drafts v = fs_drafts w \<and> fs_deployed v = fs_deployed w \<and> fs_epoch v = fs_epoch w
     \<and> fs_next_poll v = fs_next_poll w \<and> fs_wait_started v = fs_wait_started w \<and> fs_last_input v = fs_last_input w
     \<and> fs_brokers v = fs_brokers w"

definition same_flow :: "string \<Rightarrow> flow_state \<Rightarrow> flow_state \<Rightarrow> bool" where
  "same_flow f w v \<longleftrightarrow> fs_runtime v f = fs_runtime w f \<and> fs_combine v f = fs_combine w f \<and> fs_boolean v f = fs_boolean w f
     \<and> fs_json v f = fs_json w f \<and> fs_compute v f = fs_compute w f \<and> fs_rate v f = fs_rate w f
     \<and> fs_trigger v f = fs_trigger w f \<and> fs_email v f = fs_email w f"

definition queue_grows :: "queued_event \<Rightarrow> flow_state \<Rightarrow> flow_state \<Rightarrow> bool" where
  "queue_grows q w v \<longleftrightarrow> (\<exists>new. fs_queue v = fs_queue w @ new \<and> list_all (child q) new)"

definition delayed_ok :: "flow_state \<Rightarrow> bool" where
  "delayed_ok w \<longleftrightarrow> length (fs_delayed w) \<le> delayed_limit \<and> sorted (map fst (fs_delayed w))"

definition delayed_grows :: "queued_event \<Rightarrow> flow_state \<Rightarrow> flow_state \<Rightarrow> bool" where
  "delayed_grows q w v \<longleftrightarrow>
     (delayed_ok w \<longrightarrow> delayed_ok v) \<and> (\<forall>x. x \<in> set (fs_delayed v) \<longrightarrow> x \<in> set (fs_delayed w) \<or> child q (snd x))"

definition sent_grows :: "bool \<Rightarrow> flow_state \<Rightarrow> flow_state \<Rightarrow> bool" where
  "sent_grows may w v \<longleftrightarrow> (\<exists>new. fs_sent v = fs_sent w @ new \<and> (new = [] \<or> may))"

text \<open>A node retains only values it can use: good ones, and for its ports integers, Booleans or numbers.\<close>

definition all_retained :: "(flow_event \<Rightarrow> bool) \<Rightarrow> (string \<Rightarrow> string \<Rightarrow> string \<rightharpoonup> flow_event) \<Rightarrow> bool" where
  "all_retained P m \<longleftrightarrow> (\<forall>f n p ev. m f n p = Some ev \<longrightarrow> event_writable ev = None \<and> P ev)"

definition retained_ok :: "flow_state \<Rightarrow> bool" where
  "retained_ok w \<longleftrightarrow> all_retained (\<lambda>ev. parse_bit_integer (ev_value ev) \<noteq> None) (fs_combine w)
     \<and> all_retained (\<lambda>ev. as_bool (ev_value ev) \<noteq> None) (fs_boolean w) \<and> all_retained (\<lambda>ev. True) (fs_json w)
     \<and> all_retained (\<lambda>ev. as_number (ev_value ev) \<noteq> None) (fs_compute w)"

definition extends :: "bool \<Rightarrow> queued_event \<Rightarrow> flow_state \<Rightarrow> flow_state \<Rightarrow> bool" where
  "extends may q w v \<longleftrightarrow> same_setup w v \<and> (\<forall>f. f \<noteq> q_flow q \<longrightarrow> same_flow f w v)
     \<and> queue_grows q w v \<and> delayed_grows q w v \<and> sent_grows may w v \<and> (retained_ok w \<longrightarrow> retained_ok v)"

named_theorems frame \<open>the operations that keep the frame of an event\<close>

lemma extends_refl [frame, simp]: "extends may q w w"
  by (auto simp: extends_def same_setup_def same_flow_def queue_grows_def delayed_grows_def sent_grows_def)

lemma extends_step:
  assumes "extends may q w v" and "extends may q v u"
  shows "extends may q w u"
proof -
  obtain a b where "fs_queue v = fs_queue w @ a" "list_all (child q) a" "fs_queue u = fs_queue v @ b" "list_all (child q) b"
    using assms by (auto simp: extends_def queue_grows_def)
  then have "queue_grows q w u" by (auto simp: queue_grows_def)
  moreover obtain c d where "fs_sent v = fs_sent w @ c" "c = [] \<or> may" "fs_sent u = fs_sent v @ d" "d = [] \<or> may"
    using assms by (auto simp: extends_def sent_grows_def)
  then have "sent_grows may w u" by (auto simp: sent_grows_def)
  moreover have "delayed_grows q w u" using assms unfolding extends_def delayed_grows_def by blast
  ultimately show ?thesis using assms by (auto simp: extends_def same_setup_def same_flow_def)
qed

lemma extends_may: "extends may q w v \<Longrightarrow> (may \<Longrightarrow> may') \<Longrightarrow> extends may' q w v"
  by (auto simp: extends_def sent_grows_def)

section \<open>Operations\<close>

lemma extends_by:
  assumes "extends may q w v" and "same_setup v u" and "\<And>f. f \<noteq> q_flow q \<Longrightarrow> same_flow f v u"
    and "fs_queue u = fs_queue v" and "fs_delayed u = fs_delayed v" and "fs_sent u = fs_sent v"
    and "retained_ok v \<Longrightarrow> retained_ok u"
  shows "extends may q w u"
proof (rule extends_step [OF assms(1)])
  show "extends may q v u" using assms(2-)
    by (auto simp: extends_def queue_grows_def delayed_grows_def delayed_ok_def sent_grows_def)
qed

lemmas frame_defs = same_setup_def same_flow_def retained_ok_def

lemma all_retained_in:
  "all_retained P m \<Longrightarrow> event_writable (q_event q) = None \<Longrightarrow> P (q_event q) \<Longrightarrow> all_retained P (retain_in q m)"
  by (auto simp: all_retained_def retain_in_def split: if_splits)

lemma retain_in_other: "f \<noteq> q_flow q \<Longrightarrow> retain_in q m f = m f"
  by (rule ext) (simp add: retain_in_def)

lemma extends_update_node [frame]:
  "f = q_flow q \<Longrightarrow> extends may q w v \<Longrightarrow> extends may q w (update_node f n g v)"
  by (erule extends_by) (auto simp: frame_defs update_node_def update_flow_def)

lemma extends_update_flow [frame]:
  "f = q_flow q \<Longrightarrow> extends may q w v \<Longrightarrow> extends may q w (update_flow f g v)"
  by (erule extends_by) (auto simp: frame_defs update_flow_def)

lemma extends_status [frame]:
  assumes "f = q_flow q" and "extends may q w v"
  shows "extends may q w (set_node_status f n s v)" "extends may q w (mark_node_output now f n ev s v)"
    "extends may q w (reject_node f n s v)" "extends may q w (set_flow_error f s v)"
  unfolding set_node_status_def mark_node_output_def reject_node_def set_flow_error_def
  by (intro frame assms)+

lemma extends_note_input [frame]: "extends may q w v \<Longrightarrow> extends may q w (note_input now q v)"
  unfolding note_input_def by (intro frame refl)

lemma extends_memory [frame]:
  assumes "extends may q w v"
  shows "extends may q w (put_rate q r v)" "extends may q w (put_generation q g v)" "extends may q w (put_email q j v)"
  by (rule extends_by [OF assms]; auto simp: frame_defs put_rate_def put_generation_def put_email_def put2_def)+

lemma extends_retain [frame]:
  assumes "extends may q w v" and "event_writable (q_event q) = None"
  shows "parse_bit_integer (ev_value (q_event q)) \<noteq> None \<Longrightarrow> extends may q w (v\<lparr>fs_combine := retain_in q (fs_combine v)\<rparr>)"
    "as_bool (ev_value (q_event q)) \<noteq> None \<Longrightarrow> extends may q w (v\<lparr>fs_boolean := retain_in q (fs_boolean v)\<rparr>)"
    "extends may q w (v\<lparr>fs_json := retain_in q (fs_json v)\<rparr>)"
    "as_number (ev_value (q_event q)) \<noteq> None \<Longrightarrow> extends may q w (v\<lparr>fs_compute := retain_in q (fs_compute v)\<rparr>)"
  using assms(2) by - (rule extends_by [OF assms(1)]; simp add: frame_defs all_retained_in retain_in_other)+

lemma extends_enqueue [frame]: "child q x \<Longrightarrow> extends may q w v \<Longrightarrow> extends may q w (enqueue x v)"
  by (erule extends_step)
    (auto simp: extends_def frame_defs queue_grows_def delayed_grows_def delayed_ok_def sent_grows_def enqueue_def)

lemma extends_send_out: "extends may q w v \<Longrightarrow> may \<Longrightarrow> extends may q w (send_out s v)"
  by (erule extends_step)
    (auto simp: extends_def frame_defs queue_grows_def delayed_grows_def delayed_ok_def sent_grows_def send_out_def)

lemma set_emplace [simp]: "set (emplace due q xs) = insert (due, q) (set xs)"
  by (induction due q xs rule: emplace.induct) auto

lemma length_emplace [simp]: "length (emplace due q xs) = Suc (length xs)"
  by (induction due q xs rule: emplace.induct) auto

lemma sorted_emplace: "sorted (map fst xs) \<Longrightarrow> sorted (map fst (emplace due q xs))"
  by (induction due q xs rule: emplace.induct) auto

lemma extends_delayed:
  assumes "child q x" and "enqueue_delayed x due v = (ok, u)"
  shows "extends may q v u"
  using assms
  by (auto simp: enqueue_delayed_def extends_def frame_defs queue_grows_def delayed_grows_def delayed_ok_def sent_grows_def
      sorted_emplace split: if_splits)

lemma extends_enqueue_delayed:
  "enqueue_delayed x due v = (ok, u) \<Longrightarrow> child q x \<Longrightarrow> extends may q w v \<Longrightarrow> extends may q w u"
  using extends_delayed extends_step by blast

lemma sorted_filter_fst: "sorted (map fst xs) \<Longrightarrow> sorted (map fst (filter P xs))"
  by (induction xs) auto

lemma extends_filter:
  "extends may q w v \<Longrightarrow> extends may q w (v\<lparr>fs_delayed := filter P (fs_delayed v)\<rparr>)"
  by (erule extends_step)
    (auto simp: extends_def frame_defs queue_grows_def delayed_grows_def delayed_ok_def sent_grows_def sorted_filter_fst
      intro: le_trans [OF length_filter_le])

lemma extends_replace_timer:
  "replace_trigger_timer x due v = (ok, u) \<Longrightarrow> child q x \<Longrightarrow> extends may q w v \<Longrightarrow> extends may q w u"
  unfolding replace_trigger_timer_def by (erule extends_enqueue_delayed) (auto intro: extends_filter)

section \<open>Results\<close>

definition res_all :: "('a \<Rightarrow> bool) \<Rightarrow> 'e + 'a \<Rightarrow> bool" where
  "res_all P r = (case r of Inl e \<Rightarrow> True | Inr a \<Rightarrow> P a)"

lemma res_all_simps [simp]: "res_all P (Inl e)" "res_all P (Inr a) = P a"
  by (simp_all add: res_all_def)

lemma res_all_rbind: "res_all Q r \<Longrightarrow> (\<And>a. r = Inr a \<Longrightarrow> Q a \<Longrightarrow> res_all P (f a)) \<Longrightarrow> res_all P (rbind r f)"
  by (cases r) auto

lemma res_all_rbind_any: "(\<And>a. r = Inr a \<Longrightarrow> res_all P (f a)) \<Longrightarrow> res_all P (rbind r f)"
  by (cases r) auto

lemma res_allD: "res_all P r \<Longrightarrow> r = Inr a \<Longrightarrow> P a"
  by simp

abbreviation flow_ok :: "bool \<Rightarrow> queued_event \<Rightarrow> flow_state \<Rightarrow> json_error + flow_state \<Rightarrow> bool" where
  "flow_ok may q w r \<equiv> res_all (extends may q w) r"

definition node_ok :: "bool \<Rightarrow> queued_event \<Rightarrow> flow_state \<Rightarrow> node_result \<Rightarrow> bool" where
  "node_ok may q w r \<longleftrightarrow> res_all (\<lambda>(ev, emit, err, v). extends may q w v) r"

lemma node_ok_simps:
  "node_ok may q w (Inr (ev, emit, err, v)) = extends may q w v" "node_ok may q w (quiet ev v) = extends may q w v"
  "node_ok may q w (pass_on ev v) = extends may q w v" "node_ok may q w (refuse ev err v) = extends may q w v"
  "node_ok may q w (Inl e)"
  by (simp_all add: node_ok_def quiet_def pass_on_def refuse_def)

lemma node_ok_rbind_any: "(\<And>a. r = Inr a \<Longrightarrow> node_ok may q w (f a)) \<Longrightarrow> node_ok may q w (rbind r f)"
  unfolding node_ok_def by (rule res_all_rbind_any)

lemma node_ok_rbind:
  "res_all Q r \<Longrightarrow> (\<And>a. r = Inr a \<Longrightarrow> Q a \<Longrightarrow> node_ok may q w (f a)) \<Longrightarrow> node_ok may q w (rbind r f)"
  unfolding node_ok_def by (rule res_all_rbind)

lemma node_ok_if_writable: "(event_writable ev = None \<Longrightarrow> node_ok may q w r) \<Longrightarrow> node_ok may q w (if_writable ev w r)"
  by (simp add: if_writable_def node_ok_simps split: option.split)

lemma node_ok_quietly: "flow_ok may q w r \<Longrightarrow> node_ok may q w (quietly ev r)"
  unfolding quietly_def by (erule node_ok_rbind) (simp add: node_ok_simps)

section \<open>Edges\<close>

lemma along_child: "along e q ev = Inr x \<Longrightarrow> child q x"
  by (auto simp: along_def rbind_Inr child_def)

lemma send_edges_ok: "extends may q w v \<Longrightarrow> flow_ok may q w (send_edges test q ev es v)"
proof (induction es arbitrary: v)
  case (Cons e es)
  then show ?case
    by (auto intro!: res_all_rbind_any Cons.IH extends_enqueue dest!: along_child)
qed simp

lemma send_where_ok: "extends may q w v \<Longrightarrow> flow_ok may q w (send_where test flow q ev v)"
  unfolding send_where_def by (intro res_all_rbind_any send_edges_ok)

lemma send_all_ok: "extends may q w v \<Longrightarrow> flow_ok may q w (send_all flow q ev v)"
  unfolding send_all_def by (rule send_where_ok)

lemma send_port_ok: "extends may q w v \<Longrightarrow> flow_ok may q w (send_port d p flow q ev v)"
  unfolding send_port_def by (rule send_where_ok)

lemma send_all_then:
  "extends may q w v \<Longrightarrow> (\<And>u. extends may q w u \<Longrightarrow> extends may q w (g u)) \<Longrightarrow>
   flow_ok may q w (rbind (send_all flow q ev v) (\<lambda>u. Inr (g u)))"
  by (rule res_all_rbind [OF send_all_ok]) auto

section \<open>Nodes\<close>

lemma send_parts_ok: "extends may q w v \<Longrightarrow> flow_ok may q w (send_parts flow q ps v)"
proof (induction flow q ps v rule: send_parts.induct)
  case (2 flow q k j ps v)
  then show ?case
    by (auto intro!: res_all_rbind [OF send_all_ok])
qed simp

lemma split_node_ok: "node_ok may q w (split_node E flow q w)"
  unfolding split_node_def Let_def
  by (intro node_ok_if_writable)
    (auto simp: node_ok_simps intro!: node_ok_quietly res_all_rbind [OF send_parts_ok] frame split: option.split)

lemma try_rules_ok:
  "extends may q w v \<Longrightarrow> res_all (\<lambda>(b, u). extends may q w u) (try_rules flow cfg q i rs matched v)"
proof (induction rs arbitrary: i matched v)
  case (Cons r rs)
  have sent: "extends may q w u" if "send_port ''rule_0'' (rule_port i) flow q (q_event q) v = Inr u" for u
    using res_allD [OF send_port_ok [OF Cons.prems] that] .
  show ?case using Cons.prems by (auto intro!: res_all_rbind_any Cons.IH dest!: sent)
qed simp

lemma switch_rest_ok:
  assumes "extends may q w v"
  shows "flow_ok may q w (rbind (if matched then Inr v else rbind r (\<lambda>b. if b then send_port d p flow q ev v else Inr v))
    (\<lambda>u. Inr (mark_node_output now (q_flow q) (q_node q) ev s u)))"
proof (rule res_all_rbind [where Q = "extends may q w"])
  show "flow_ok may q w (if matched then Inr v else rbind r (\<lambda>b. if b then send_port d p flow q ev v else Inr v))"
    using assms by (auto intro!: res_all_rbind_any send_port_ok)
qed (auto intro: frame)

lemma switch_node_ok: "node_ok may q w (switch_node E flow cfg q w)"
  unfolding switch_node_def Let_def
  by (rule node_ok_quietly, rule res_all_rbind_any, rule res_all_rbind [OF try_rules_ok [OF extends_refl]])
    (auto intro!: switch_rest_ok simp only: split_beta)

lemma linear_node_ok: "node_ok may q w (linear_node cfg q w)"
  unfolding linear_node_def Let_def
  by (intro node_ok_if_writable) (auto simp: node_ok_simps intro!: node_ok_rbind_any split: option.split)

lemma bits_node_ok: "node_ok may q w (bits_node cfg q w)"
  unfolding bits_node_def Let_def
  by (intro node_ok_if_writable) (auto simp: node_ok_simps intro!: node_ok_rbind_any split: option.split)

lemma combine_node_ok: "node_ok may q w (combine_node cfg q w)"
  unfolding combine_node_def Let_def
  by (rule node_ok_rbind_any, rule node_ok_if_writable) (auto simp: node_ok_simps intro!: node_ok_rbind_any frame)

lemma logic_node_ok: "node_ok may q w (logic_node cfg q w)"
  unfolding logic_node_def Let_def
  by (rule node_ok_if_writable) (auto simp: node_ok_simps intro!: node_ok_rbind_any frame split: option.split)

lemma build_node_ok: "node_ok may q w (build_node cfg q w)"
  unfolding build_node_def Let_def
  by (rule node_ok_rbind_any, rule node_ok_if_writable)
    (auto simp: node_ok_simps intro!: node_ok_rbind_any frame split: option.split)

lemma compute_node_ok: "node_ok may q w (compute_node E cfg q w)"
  unfolding compute_node_def Let_def
  by (rule node_ok_rbind_any, rule node_ok_if_writable)
    (auto simp: node_ok_simps intro!: node_ok_rbind_any frame split: sum.split)

lemma child_timer: "child q (q\<lparr>q_hops := q_hops q + 1, q_port := p\<rparr>)"
  by (simp add: child_def)

lemma delay_edges_ok:
  "extends may q w v \<Longrightarrow> res_all (\<lambda>(ok, k, u). extends may q w u) (delay_edges q due es k v)"
proof (induction es arbitrary: k v)
  case (Cons e es)
  have add: "res_all (\<lambda>(ok, k, u). extends may q w u)
      (case enqueue_delayed x due v of (False, u) \<Rightarrow> Inr (False, k, u) | (True, u) \<Rightarrow> delay_edges q due es (Suc k) u)"
    if "child q x" for x
  proof (cases "enqueue_delayed x due v")
    case (Pair ok u)
    have "extends may q w u" by (rule extends_enqueue_delayed [OF Pair \<open>child q x\<close> Cons.prems])
    then show ?thesis using Cons.IH Pair by (cases ok) simp_all
  qed
  show ?case using Cons.prems by (auto intro!: res_all_rbind_any Cons.IH add dest!: along_child)
qed simp

lemma delay_each_ok: "node_ok may q w (delay_each now d flow q w)"
  unfolding delay_each_def
  by (rule node_ok_rbind_any, rule node_ok_rbind [OF delay_edges_ok [OF extends_refl]])
    (auto simp: node_ok_simps intro!: frame)

lemma rate_release_ok: "node_ok may q w (rate_release now d flow q w)"
  unfolding rate_release_def Let_def
  by (rule node_ok_quietly, rule send_all_then) (auto intro!: frame)

lemma rate_limited_ok: "node_ok may q w (rate_limited now d flow q w)"
  unfolding rate_limited_def Let_def
  by (auto simp: node_ok_simps intro!: node_ok_quietly send_all_then frame child_timer
      elim!: extends_enqueue_delayed split: prod.split option.split bool.split)

lemma delay_node_ok: "node_ok may q w (delay_node E flow cfg q w)"
  unfolding delay_node_def Let_def
  by (rule node_ok_rbind_any, rule node_ok_rbind_any)
    (auto intro!: rate_release_ok node_ok_if_writable rate_limited_ok delay_each_ok)

lemma send_value_ok: "extends may q w v \<Longrightarrow> flow_ok may q w (send_value now flow q j s v)"
  unfolding send_value_def Let_def by (erule send_all_then) (auto intro!: frame)

lemma trigger_release_ok: "node_ok may q w (trigger_release E flow cfg q w)"
  unfolding trigger_release_def Let_def
  by (auto simp: node_ok_simps intro!: node_ok_rbind_any node_ok_quietly send_value_ok frame)

lemma trigger_timer_ok:
  "extends may q w v \<Longrightarrow> node_ok may q w
     (case replace_trigger_timer (q\<lparr>q_hops := q_hops q + 1, q_port := p\<rparr>) due v of
        (False, u) \<Rightarrow> refuse ev err u | (True, u) \<Rightarrow> quiet ev u)"
  by (auto simp: node_ok_simps child_timer elim!: extends_replace_timer split: prod.split bool.split)

lemma send_value_if:
  assumes "(if send then rbind r (\<lambda>j. send_value now flow q j s v) else Inr v) = Inr u" and "extends may q w v"
  shows "extends may q w u"
  using assms by (auto simp: rbind_Inr split: if_splits dest: res_allD [OF send_value_ok])

lemma trigger_start_ok: "node_ok may q w (trigger_start E flow cfg d q w)"
  unfolding trigger_start_def Let_def
  by (rule node_ok_rbind_any)
    (auto simp: node_ok_simps intro!: node_ok_rbind_any trigger_timer_ok frame elim!: send_value_if)

lemma trigger_node_ok: "node_ok may q w (trigger_node E flow cfg q w)"
  unfolding trigger_node_def Let_def trigger_reset_def
  by (rule node_ok_rbind_any)
    (auto simp: node_ok_simps intro!: trigger_release_ok trigger_start_ok node_ok_if_writable node_ok_rbind_any frame)

lemma invert_node_ok: "node_ok may q w (invert_node q w)"
  unfolding invert_node_def Let_def
  by (rule node_ok_if_writable) (auto simp: node_ok_simps split: option.split)

lemma convert_node_ok: "node_ok may q w (convert_node E cfg q w)"
  unfolding convert_node_def Let_def
  by (rule node_ok_if_writable, rule node_ok_rbind_any) (auto simp: node_ok_simps intro!: node_ok_rbind_any split: option.split)

lemma debug_node_ok: "node_ok may q w (debug_node E q w)"
  unfolding debug_node_def Let_def by (rule node_ok_rbind_any) (simp add: node_ok_simps)

section \<open>Output nodes\<close>

text \<open>An output node sends something only for a writable value and outside monitor mode.\<close>

definition may_send :: "json \<Rightarrow> queued_event \<Rightarrow> bool" where
  "may_send flow q \<longleftrightarrow> monitored flow = Inr False \<and> event_writable (q_event q) = None"

lemma unless_monitored_ok:
  assumes "may_send flow q \<Longrightarrow> node_ok (may_send flow q) q w r"
  shows "node_ok (may_send flow q) q w (unless_monitored E flow status q w r)"
  unfolding unless_monitored_def
proof (rule node_ok_rbind_any)
  fix m assume m: "monitored flow = Inr m"
  have "node_ok (may_send flow q) q w (if_writable (q_event q) w r)" if "\<not> m"
    using m that assms by (intro node_ok_if_writable) (simp add: may_send_def)
  then show "node_ok (may_send flow q) q w
      (if m then quiet (q_event q) (mark_node_output (io_now E) (q_flow q) (q_node q) (q_event q) status w)
       else if_writable (q_event q) w r)"
    by (auto simp: node_ok_simps intro!: frame)
qed

lemma write_opc_tag_ok:
  "may \<Longrightarrow> extends may q w v \<Longrightarrow> res_all (\<lambda>(answer, u). extends may q w u) (write_opc_tag E cfg j v)"
  unfolding write_opc_tag_def by (intro res_all_rbind_any) (auto intro!: extends_send_out)

lemma write_node_ok: "node_ok (may_send flow q) q w (write_node E flow cfg q w)"
  unfolding write_node_def Let_def
  by (rule unless_monitored_ok, rule node_ok_rbind_any)
    (auto simp: node_ok_simps intro!: node_ok_rbind [OF write_opc_tag_ok [OF _ extends_refl]] frame)

lemma send_mails_ok:
  "may \<Longrightarrow> extends may q w v \<Longrightarrow> res_all (\<lambda>(answer, u). extends may q w u) (send_mails E s b i as v)"
proof (induction as arbitrary: i v)
  case (Cons a as)
  have sent: "extends may q w (send_out (SentMail a s b) v)" using Cons.prems by (auto intro: extends_send_out)
  obtain ok err where "service_answer E (io_http E i) ''Email delivery failed''
      ''Alarm service returned an invalid email response'' = (ok, err)"
    by (cases "service_answer E (io_http E i) ''Email delivery failed''
      ''Alarm service returned an invalid email response''")
  then show ?case using sent Cons.IH [OF Cons.prems(1) sent]
    by (cases ok) (auto intro!: res_all_rbind_any simp: Let_def)
qed simp

lemma send_flow_email_ok:
  "may \<Longrightarrow> extends may q w v \<Longrightarrow> res_all (\<lambda>(answer, u). extends may q w u) (send_flow_email E r s b v)"
  unfolding send_flow_email_def by (simp add: send_mails_ok)

lemma send_mail_ok: "may \<Longrightarrow> extends may q w v \<Longrightarrow> node_ok may q w (send_mail E cfg keys q v)"
  unfolding send_mail_def Let_def
  by (rule node_ok_rbind_any, rule node_ok_rbind_any, rule node_ok_rbind_any, rule node_ok_rbind_any, rule node_ok_rbind_any,
      rule node_ok_rbind [OF send_flow_email_ok])
    (auto simp: node_ok_simps intro!: frame)

lemma email_node_ok: "node_ok (may_send flow q) q w (email_node E flow cfg q w)"
  unfolding email_node_def Let_def
  by (rule unless_monitored_ok, rule node_ok_rbind_any, rule node_ok_rbind_any)
    (auto simp: node_ok_simps intro!: send_mail_ok frame split: sum.split option.split)

lemma publish_node_ok: "node_ok (may_send flow q) q w (publish_node E flow cfg q w)"
  unfolding publish_node_def Let_def
  by (rule unless_monitored_ok, rule node_ok_rbind_any)
    (auto simp: node_ok_simps intro!: node_ok_rbind_any extends_send_out frame split: option.split)

section \<open>One event\<close>

definition output_types :: "string list" where
  "output_types = [''opc_tag_write'', ''email_output'', ''mqtt_publish'']"

lemma node_step_ok: "node_ok (type \<in> set output_types \<and> may_send flow q) q w (node_step E type flow cfg q w)"
proof (cases "type \<in> set output_types")
  case True
  then show ?thesis
    using write_node_ok [of flow q w E cfg] email_node_ok [of flow q w E cfg] publish_node_ok [of flow q w E cfg]
    by (auto simp: node_step_def output_types_def)
next
  case False
  then show ?thesis
    by (simp add: node_step_def output_types_def split_node_ok switch_node_ok linear_node_ok bits_node_ok combine_node_ok
        logic_node_ok build_node_ok compute_node_ok delay_node_ok trigger_node_ok invert_node_ok convert_node_ok debug_node_ok
        node_ok_simps)
qed

lemma finish_node_ok:
  "extends may q w v \<Longrightarrow> flow_ok may q w (finish_node E flow q (ev, emit, err, v))"
  by (auto simp: finish_node_def intro!: frame send_all_ok)

lemma run_node_ok:
  assumes "jvalue get_string node ''type'' [] = Inr type"
  shows "flow_ok (type \<in> set output_types \<and> may_send flow q) q w (run_node E flow node q w)"
proof -
  let ?may = "type \<in> set output_types \<and> may_send flow q"
  have "flow_ok ?may q w (rbind (node_step E type flow cfg q (note_input (io_now E) q w)) (finish_node E flow q))" for cfg
  proof -
    let ?w = "note_input (io_now E) q w"
    have "res_all (\<lambda>(ev, emit, err, v). extends ?may q w v) (node_step E type flow cfg q ?w)"
      using node_step_ok [of type flow q ?w E cfg]
      by (auto simp: node_ok_def res_all_def intro: frame extends_step [of _ _ _ ?w] split: sum.splits)
    then show ?thesis by (rule res_all_rbind) (auto intro: finish_node_ok)
  qed
  then show ?thesis unfolding run_node_def assms rbind_simps by (rule res_all_rbind_any)
qed

text \<open>Whether the event \<open>q\<close> may lead to something being sent.\<close>

definition sender :: "queued_event \<Rightarrow> flow_state \<Rightarrow> bool" where
  "sender q w \<longleftrightarrow>
     (case target q w of
        Inr (Some (flow, node)) \<Rightarrow>
          (case jvalue get_string node ''type'' [] of Inr type \<Rightarrow> type \<in> set output_types \<and> may_send flow q | Inl e \<Rightarrow> False)
      | _ \<Rightarrow> False)"

lemma process_event_extends:
  assumes "process_event max_hops E q w = Inr v"
  shows "extends (q_hops q \<le> max_hops \<and> sender q w) q w v" "fs_queue v = fs_queue w \<or> q_hops q \<le> max_hops"
proof -
  have "extends (q_hops q \<le> max_hops \<and> sender q w) q w v \<and> (fs_queue v = fs_queue w \<or> q_hops q \<le> max_hops)"
  proof (cases "max_hops < q_hops q")
    case True
    then have v: "v = set_flow_error (q_flow q) ''Maximum event hops exceeded'' w" using assms by (simp add: process_event_def)
    have "fs_queue v = fs_queue w" unfolding v by (simp add: set_flow_error_def update_flow_def)
    then show ?thesis unfolding v by (auto intro: frame)
  next
    case False
    then obtain t where t: "target q w = Inr t" and run: "(case t of None \<Rightarrow> Inr w | Some (flow, node) \<Rightarrow> run_node E flow node q w) = Inr v"
      using assms by (auto simp: process_event_def rbind_Inr)
    show ?thesis
    proof (cases t)
      case None
      then show ?thesis using run False by simp
    next
      case (Some p)
      obtain flow node where p: "p = (flow, node)" by (cases p)
      obtain type where type: "jvalue get_string node ''type'' [] = Inr type"
        using run Some p by (auto simp: run_node_def rbind_Inr)
      have "extends (type \<in> set output_types \<and> may_send flow q) q w v"
        using res_allD [OF run_node_ok [OF type]] run Some p by auto
      then show ?thesis using False t Some p type by (simp add: sender_def)
    qed
  qed
  then show "extends (q_hops q \<le> max_hops \<and> sender q w) q w v" "fs_queue v = fs_queue w \<or> q_hops q \<le> max_hops" by auto
qed

end
