(* ===== verification/FlowDrain.thy ===== *)
theory FlowDrain
  imports FlowFrame "HOL-Library.Multiset"
begin

text \<open>
  The worker's loop over the queue ends, whatever the graph: each event leads to events with one more hop, and one
  beyond the limit leads to none. The order is the multiset of the hops that are left.
  What holds of every single event then holds of a whole round.
\<close>

section \<open>Termination\<close>

definition hops_left :: "int \<Rightarrow> queued_event \<Rightarrow> nat" where
  "hops_left max_hops q = nat (max_hops + 1 - q_hops q)"

definition left_in :: "int \<Rightarrow> queued_event list \<Rightarrow> nat multiset" where
  "left_in max_hops qs = mset (map (hops_left max_hops) qs)"

lemma successors:
  assumes "process_event max_hops E q w = Inr v" and "fs_queue w = []"
  shows "\<forall>x \<in> set (fs_queue v). child q x \<and> hops_left max_hops x < hops_left max_hops q"
proof -
  have "queue_grows q w v" using process_event_extends(1) [OF assms(1)] by (simp add: extends_def)
  then have new: "list_all (child q) (fs_queue v)" using assms(2) by (auto simp: queue_grows_def)
  show ?thesis
  proof (cases "fs_queue v = []")
    case False
    then have "q_hops q \<le> max_hops" using process_event_extends(2) [OF assms(1)] assms(2) by auto
    then show ?thesis using new by (auto simp: list_all_iff child_def hops_left_def)
  qed simp
qed

lemma drain_step_smaller:
  assumes "process_event max_hops E q w = Inr v" and "fs_queue w = []"
  shows "(left_in max_hops (qs @ fs_queue v), left_in max_hops (q # qs)) \<in> mult1 less_than"
proof -
  have "\<forall>n \<in># left_in max_hops (fs_queue v). n < hops_left max_hops q"
    using successors [OF assms] by (auto simp: left_in_def)
  then show ?thesis
    by (intro mult1I [of _ "hops_left max_hops q" "left_in max_hops qs" _ "left_in max_hops (fs_queue v)"])
      (auto simp: left_in_def)
qed

lemma drain_ends:
  "fs_queue w = [] \<Longrightarrow> \<exists>fuel r. drain max_hops Es i fuel events w = Some r"
proof (induction "left_in max_hops events" arbitrary: events w i rule: wf_induct_rule [OF wf_mult1 [OF wf_less_than]])
  case 1
  show ?case
  proof (cases events)
    case Nil
    then have "drain max_hops Es i 0 events w = Some (Inr w)" by simp
    then show ?thesis by blast
  next
    case (Cons q qs)
    show ?thesis
    proof (cases "process_event max_hops (Es i) q w")
      case (Inl e)
      then have "drain max_hops Es i (Suc 0) events w = Some (Inl e)" using Cons by simp
      then show ?thesis by blast
    next
      case (Inr v)
      have "(left_in max_hops (qs @ fs_queue v), left_in max_hops events) \<in> mult1 less_than"
        using drain_step_smaller [OF Inr 1(2)] Cons by simp
      from 1(1) [OF this, of "v\<lparr>fs_queue := []\<rparr>" "Suc i"]
      obtain fuel r where "drain max_hops Es (Suc i) fuel (qs @ fs_queue v) (v\<lparr>fs_queue := []\<rparr>) = Some r" by auto
      then have "drain max_hops Es i (Suc fuel) events w = Some r" using Cons Inr by (simp add: take_queue_def)
      then show ?thesis by blast
    qed
  qed
qed

section \<open>What a round keeps\<close>

text \<open>A property of the state that every event keeps, whatever the queue holds, is kept by the round.\<close>

lemma drain_keeps:
  assumes "drain max_hops Es i fuel events w = Some (Inr v)" and "P w"
    and "\<And>E q w v. P w \<Longrightarrow> process_event max_hops E q w = Inr v \<Longrightarrow> P (v\<lparr>fs_queue := []\<rparr>)"
  shows "P v"
  using assms
proof (induction max_hops Es i fuel events w rule: drain.induct)
  case (3 max_hops Es i fuel q qs w)
  obtain u where u: "process_event max_hops (Es i) q w = Inr u"
    "drain max_hops Es (Suc i) fuel (qs @ fs_queue u) (u\<lparr>fs_queue := []\<rparr>) = Some (Inr v)"
    using "3.prems"(1) by (auto simp: take_queue_def split: sum.splits)
  have "P (u\<lparr>fs_queue := []\<rparr>)" using "3.prems"(2,3) u(1) by blast
  then show ?case
    using "3.IH" [OF u(1), of "fs_queue u" "u\<lparr>fs_queue := []\<rparr>"] u(2) "3.prems"(3) by (simp add: take_queue_def)
qed simp_all

text \<open>The same for a property that depends on the events: successors must have what their predecessor has.\<close>

lemma drain_keeps_events:
  assumes "drain max_hops Es i fuel events w = Some (Inr v)" and "P w" and "list_all Q events" and "fs_queue w = []"
    and step: "\<And>E q w v. P w \<Longrightarrow> Q q \<Longrightarrow> process_event max_hops E q w = Inr v \<Longrightarrow> P (v\<lparr>fs_queue := []\<rparr>)"
    and inherit: "\<And>q x. Q q \<Longrightarrow> child q x \<Longrightarrow> Q x"
  shows "P v"
  using assms(1-4) step
proof (induction max_hops Es i fuel events w rule: drain.induct)
  case (3 max_hops Es i fuel q qs w)
  obtain u where u: "process_event max_hops (Es i) q w = Inr u"
    "drain max_hops Es (Suc i) fuel (qs @ fs_queue u) (u\<lparr>fs_queue := []\<rparr>) = Some (Inr v)"
    using "3.prems"(1) by (auto simp: take_queue_def split: sum.splits)
  have "list_all Q (fs_queue u)"
    using successors [OF u(1) "3.prems"(4)] "3.prems"(3) inherit [of q] by (auto simp: list_all_iff)
  moreover have "P (u\<lparr>fs_queue := []\<rparr>)" using "3.prems" u(1) by auto
  ultimately show ?case
    using "3.IH" [OF u(1), of "fs_queue u" "u\<lparr>fs_queue := []\<rparr>"] u(2) "3.prems"(3,5) by (simp add: take_queue_def)
qed simp_all

end
