(* ===== verification/FlowAccepted.thy ===== *)
theory FlowAccepted
  imports FlowControl
begin

text \<open>
  What a flow that passed \<open>normalize\_and\_validate\<close> is: its nodes have different ids and known types, its edges
  join them, and there is no cycle. Also what it need not be.
\<close>

definition text_of :: "json \<Rightarrow> string \<Rightarrow> string" where
  "text_of j k = (case jfind j k of Some (JStr s) \<Rightarrow> s | _ \<Rightarrow> [])"

definition list_of :: "json \<Rightarrow> string \<Rightarrow> json list" where
  "list_of j k = (case array_items j k of Some xs \<Rightarrow> xs | None \<Rightarrow> [])"

definition flow_node_ids :: "json \<Rightarrow> string list" where
  "flow_node_ids flow = map (\<lambda>n. text_of n ''id'') (list_of flow ''nodes'')"

definition flow_edges :: "json \<Rightarrow> (string \<times> string) list" where
  "flow_edges flow = map (\<lambda>e. (text_of e ''from'', text_of e ''to'')) (list_of flow ''edges'')"

lemma ffield_object: "ffield conv j k d = Inr v \<Longrightarrow> is_object j"
  by (auto simp: ffield_def jvalue_def split: if_splits)

lemma with_config_find: "is_object n \<Longrightarrow> k \<noteq> ''config'' \<Longrightarrow> jfind (with_config n) k = jfind n k"
  by (auto simp: with_config_def split: option.split json.split)

lemma text_of_node:
  assumes "is_object n"
  shows "text_of (with_config (jset ''type'' (JStr t) (jset ''id'' (JStr i) n))) ''id'' = i"
    "text_of (with_config (jset ''type'' (JStr t) (jset ''id'' (JStr i) n))) ''type'' = t"
  using assms by (simp_all add: text_of_def with_config_find)

lemma normalize_nodes_ids:
  "normalize_nodes L ns ids = Inr (nodes, ids') \<Longrightarrow> distinct ids \<Longrightarrow>
   ids' = ids @ map (\<lambda>n. text_of n ''id'') nodes \<and> distinct ids' \<and> list_all (\<lambda>n. text_of n ''type'' \<in> set node_types) nodes
     \<and> [] \<notin> set (map (\<lambda>n. text_of n ''id'') nodes)"
proof (induction ns arbitrary: ids nodes ids')
  case (Cons n ns)
  obtain i t nodes1 where obj: "is_object n" and new: "trim_copy i \<noteq> []" "trim_copy i \<notin> set ids" "trim_copy t \<in> set node_types"
    and rest: "normalize_nodes L ns (ids @ [trim_copy i]) = Inr (nodes1, ids')"
    and nodes: "nodes = with_config (jset ''type'' (JStr (trim_copy t)) (jset ''id'' (JStr (trim_copy i)) n)) # nodes1"
    using Cons.prems(1) by (auto simp: rbind_Inr Let_def)
  have "distinct (ids @ [trim_copy i])" using new Cons.prems(2) by simp
  note step = Cons.IH [OF rest this, unfolded append_assoc append_Cons append_Nil]
  have ih: "ids' = ids @ trim_copy i # map (\<lambda>n. text_of n ''id'') nodes1" "distinct ids'"
    "list_all (\<lambda>n. text_of n ''type'' \<in> set node_types) nodes1" "[] \<notin> set (map (\<lambda>n. text_of n ''id'') nodes1)"
    using step by blast+
  show ?case using ih obj new nodes by (simp add: text_of_node)
qed simp

lemma text_of_edge:
  assumes "is_object e"
  shows "text_of (jset ''to'' (JStr t) (jset ''from'' (JStr f) e)) ''from'' = f"
    "text_of (jset ''to'' (JStr t) (jset ''from'' (JStr f) e)) ''to'' = t"
  using assms by (simp_all add: text_of_def)

lemma normalize_edges_pairs:
  "normalize_edges ids es = Inr (edges, pairs) \<Longrightarrow>
   pairs = map (\<lambda>e. (text_of e ''from'', text_of e ''to'')) edges \<and> (\<forall>(a, b) \<in> set pairs. a \<in> set ids \<and> b \<in> set ids)"
proof (induction es arbitrary: edges pairs)
  case (Cons e es)
  obtain f t edges1 pairs1 where f: "ffield get_string e ''from'' [] = Inr f"
    and mem: "trim_copy f \<in> set ids" "trim_copy t \<in> set ids"
    and rest: "normalize_edges ids es = Inr (edges1, pairs1)"
    and out: "edges = jset ''to'' (JStr (trim_copy t)) (jset ''from'' (JStr (trim_copy f)) e) # edges1"
      "pairs = (trim_copy f, trim_copy t) # pairs1"
    using Cons.prems by (auto simp: rbind_Inr Let_def)
  show ?case using Cons.IH [OF rest] mem out ffield_object [OF f] by (simp add: text_of_edge)
qed simp

lemma is_object_defaulted [simp]: "is_object (defaulted k v j) = is_object j"
  by (simp add: defaulted_def)

lemma normalize_result:
  assumes "normalize_and_validate L order for_deploy flow = Inr f"
  obtains nodes edges ids pairs g ns es where "f = jset ''edges'' (JArr edges) (jset ''nodes'' (JArr nodes) g)" "is_object g"
    "normalize_nodes L ns [] = Inr (nodes, ids)" "normalize_edges ids es = Inr (edges, pairs)"
    "visited_nodes order ids pairs = length ids"
proof -
  obtain i n where obj: "is_object flow" and body: "(let named = defaulted ''mode'' (JStr ''active'')
         (defaulted ''enabled'' (JBool True) (jset ''name'' (JStr n) (jset ''id'' (JStr i) flow))) in
       case array_items named ''nodes'' of None \<Rightarrow> Inl (Refused ''Flow nodes must be an array'') | Some nodes \<Rightarrow>
       case array_items named ''edges'' of None \<Rightarrow> Inl (Refused ''Flow edges must be an array'') | Some edges \<Rightarrow>
       rbind (normalize_nodes L nodes []) (\<lambda>(nodes', ids).
       rbind (normalize_edges ids edges) (\<lambda>(edges', pairs).
         rthen (ensure (visited_nodes order ids pairs = length ids) ''Flow contains a cycle'') (
         rthen (if for_deploy then ffield get_string named ''mode'' ''active'' else Inr [])
           (Inr (jset ''edges'' (JArr edges') (jset ''nodes'' (JArr nodes') named))))))) = Inr f"
    using assms unfolding normalize_and_validate_def rthen_Inr rbind_Inr Let_def ensure_Inr by blast
  define g where "g = defaulted ''mode'' (JStr ''active'')
         (defaulted ''enabled'' (JBool True) (jset ''name'' (JStr n) (jset ''id'' (JStr i) flow)))"
  have "is_object g" using obj by (simp add: g_def)
  obtain ns where ns: "array_items g ''nodes'' = Some ns" using body by (cases "array_items g ''nodes''") (simp_all add: g_def)
  obtain es where es: "array_items g ''edges'' = Some es"
    using body ns by (cases "array_items g ''edges''") (simp_all add: g_def)
  obtain nodes ids where nodes: "normalize_nodes L ns [] = Inr (nodes, ids)"
    using body ns es by (auto simp: g_def [symmetric] rbind_Inr)
  obtain edges pairs where edges: "normalize_edges ids es = Inr (edges, pairs)"
    using body ns es nodes by (auto simp: g_def [symmetric] rbind_Inr)
  have "visited_nodes order ids pairs = length ids" "f = jset ''edges'' (JArr edges) (jset ''nodes'' (JArr nodes) g)"
    using body ns es nodes edges by (auto simp: g_def [symmetric])
  then show thesis using that nodes edges \<open>is_object g\<close> by blast
qed

lemma accepted_parts:
  assumes "normalize_and_validate L order for_deploy f = Inr g"
  shows "\<exists>nodes edges. array_items g ''nodes'' = Some nodes \<and> array_items g ''edges'' = Some edges
    \<and> visited_nodes order (flow_node_ids g) (flow_edges g) = length (flow_node_ids g)
    \<and> distinct (flow_node_ids g) \<and> (\<forall>(a, b) \<in> set (flow_edges g). a \<in> set (flow_node_ids g) \<and> b \<in> set (flow_node_ids g))
    \<and> list_all (\<lambda>n. text_of n ''type'' \<in> set node_types) nodes \<and> [] \<notin> set (flow_node_ids g)"
  using assms
proof (rule normalize_result)
  fix nodes edges ids pairs h ns es
  assume g: "g = jset ''edges'' (JArr edges) (jset ''nodes'' (JArr nodes) h)" "is_object h"
    and nodes: "normalize_nodes L ns [] = Inr (nodes, ids)" and edges: "normalize_edges ids es = Inr (edges, pairs)"
    and visited: "visited_nodes order ids pairs = length ids"
  have items: "array_items g ''nodes'' = Some nodes" "array_items g ''edges'' = Some edges"
    using g by (simp_all add: array_items_def)
  have ids: "flow_node_ids g = ids" "distinct ids" "list_all (\<lambda>n. text_of n ''type'' \<in> set node_types) nodes" "[] \<notin> set ids"
    using normalize_nodes_ids [OF nodes] items by (auto simp: flow_node_ids_def list_of_def)
  have pairs: "flow_edges g = pairs" "\<forall>(a, b) \<in> set pairs. a \<in> set ids \<and> b \<in> set ids"
    using normalize_edges_pairs [OF edges] items by (auto simp: flow_edges_def list_of_def)
  show ?thesis using items ids pairs visited by blast
qed

text \<open>C15. A flow is accepted only if its nodes have different non-empty ids and known types, and its edges join existing
  nodes without a cycle, in whatever order the hash map of the check lists the nodes.\<close>

theorem accepted_flow_is_acyclic:
  assumes "normalize_and_validate L order for_deploy f = Inr g" and "\<And>xs. mset (order xs) = mset xs"
  shows "acyclic (set (flow_edges g))
    \<and> distinct (flow_node_ids g) \<and> [] \<notin> set (flow_node_ids g)
    \<and> set (flow_edges g) \<subseteq> set (flow_node_ids g) \<times> set (flow_node_ids g)
    \<and> list_all (\<lambda>n. text_of n ''type'' \<in> set node_types) (list_of g ''nodes'')"
proof -
  have parts: "distinct (flow_node_ids g)" "[] \<notin> set (flow_node_ids g)"
    "list_all (\<lambda>n. text_of n ''type'' \<in> set node_types) (list_of g ''nodes'')"
    "\<forall>(a, b) \<in> set (flow_edges g). a \<in> set (flow_node_ids g) \<and> b \<in> set (flow_node_ids g)"
    "visited_nodes order (flow_node_ids g) (flow_edges g) = length (flow_node_ids g)"
    using accepted_parts [OF assms(1)] by (auto simp: list_of_def)
  have "acyclic (set (flow_edges g))" using visited_all_iff_acyclic [OF assms(2)] parts by blast
  then show ?thesis using parts by auto
qed

section \<open>Examples\<close>

definition example_node :: "string \<Rightarrow> string \<Rightarrow> (string \<times> json) list \<Rightarrow> json" where
  "example_node i t cfg = JObj [(''id'', JStr i), (''type'', JStr t), (''config'', JObj cfg)]"

definition example_edge :: "string \<Rightarrow> string \<Rightarrow> json" where
  "example_edge a b = JObj [(''from'', JStr a), (''to'', JStr b)]"

definition example_flow :: json where
  "example_flow = JObj [(''id'', JStr ''f1''), (''name'', JStr ''Line''), (''edges'', JArr [example_edge ''a'' ''b'']),
     (''nodes'', JArr [example_node ''a'' ''manual_input'' [],
        example_node ''b'' ''opc_tag_write'' [(''connection_id'', JStr ''plc''), (''tag_name'', JStr ''Out'')]])]"

lemma example_edges:
  "flow_edges (case normalize_and_validate L (\<lambda>xs. xs) True example_flow of Inr g \<Rightarrow> g | Inl e \<Rightarrow> JNull) = [(''a'', ''b'')]"
  by code_simp

end
