(* ===== verification/FlowBehaviour.thy ===== *)
theory FlowBehaviour
  imports FlowAccepted FlowDrain
begin

text \<open>
  The behaviour of the flow runner: what a round of the worker does with the queue, when something leaves the
  process, and what a deployment leaves behind.
\<close>

section \<open>An example\<close>

definition sample_io :: flow_io where
  "sample_io = \<lparr>io_now = 1000, io_steady = 0, io_math = sample_math,
     io_parse = (\<lambda>s. if s = ''ok'' then Some (JObj [(''ok'', JBool True)]) else None), io_dump = (\<lambda>v. Inr ''{}''),
     io_what = (\<lambda>e. ''type error''), io_bad_json = (\<lambda>s. ''parse error''), io_local = (\<lambda>t. []),
     io_http = (\<lambda>i. \<lparr>hr_transport_ok = True, hr_status = 200, hr_body = ''ok'', hr_error = []\<rparr>),
     io_publish = None, io_write_token = [], io_admin_token = []\<rparr>"

definition example_mqtt :: mqtt_env where
  "example_mqtt = \<lparr>me_files = [], me_subscribe = (\<lambda>c t. None)\<rparr>"

definition example_deployed :: flow_state where
  "example_deployed =
     snd (deploy sample_math (\<lambda>xs. xs) 500 None example_mqtt ''f1''
       (snd (save_draft sample_math (\<lambda>xs. xs) None example_flow new_service)))"

definition example_event :: queued_event where
  "example_event = \<lparr>q_flow = ''f1'', q_node = ''b'', q_event = test_event 900 (JInt 7), q_hops = 1, q_port = [], q_epoch = 0\<rparr>"

definition example_written :: flow_state where
  "example_written = (case process_event 64 sample_io example_event example_deployed of Inr v \<Rightarrow> v | Inl e \<Rightarrow> new_service)"

lemma example_write: "fs_sent example_written = [SentWrite ''plc'' ''Out'' ''7'']"
  by code_simp

lemma example_runs: "process_event 64 sample_io example_event example_deployed = Inr example_written"
proof -
  have "(case process_event 64 sample_io example_event example_deployed of Inr v \<Rightarrow> True | Inl e \<Rightarrow> False)" by code_simp
  then show ?thesis by (simp add: example_written_def split: sum.splits)
qed

lemma example_idle: "fs_sent example_deployed = []" "fs_queue example_deployed = []" "fs_delayed example_deployed = []"
  by code_simp+

section \<open>Rounds end\<close>

text \<open>C8. A round of the worker ends whatever is queued and whatever the deployed graphs are, cyclic ones included: an event
  that has gone through more than the configured number of nodes is not passed on.\<close>

theorem flow_round_ends: "\<exists>fuel r. work_off max_hops Es fuel now w = Some r"
  using drain_ends [of "snd (take_queue (release_due now w))" max_hops Es 0 "fst (take_queue (release_due now w))"]
  by (auto simp: work_off_def take_queue_def)

section \<open>What leaves the process\<close>

lemma sender_target: "sender q w \<Longrightarrow> \<exists>flow node. target q w = Inr (Some (flow, node)) \<and> may_send flow q"
proof -
  assume s: "sender q w"
  then obtain flow node where t: "target q w = Inr (Some (flow, node))"
    by (auto simp: sender_def split: sum.split_asm option.split_asm)
  then have "may_send flow q" using s by (cases "jvalue get_string node ''type'' []") (auto simp: sender_def)
  then show ?thesis using t by blast
qed

text \<open>C7. An event makes the service write a tag, send a mail or publish a message only if its value is present, not null
  and good, its flow is deployed, enabled and not in monitor mode, it is not of a replaced deployment and
  within the hop limit.\<close>

theorem only_good_values_leave:
  assumes "process_event max_hops E q w = Inr v" and "fs_sent v \<noteq> fs_sent w"
  shows "ev_present (q_event q) \<and> ev_value (q_event q) \<noteq> JNull \<and> ev_quality (q_event q) = ''good''
    \<and> q_hops q \<le> max_hops \<and> \<not> outdated q w
    \<and> (\<exists>flow. om_get (fs_deployed w) (q_flow q) = Some flow \<and> jvalue get_bool flow ''enabled'' True = Inr True
        \<and> jvalue get_string flow ''mode'' ''active'' \<noteq> Inr ''monitor'')"
proof -
  have "sent_grows (q_hops q \<le> max_hops \<and> sender q w) w v"
    using process_event_extends(1) [OF assms(1)] by (simp add: extends_def)
  then have may: "q_hops q \<le> max_hops" "sender q w" using assms(2) by (auto simp: sent_grows_def)
  then obtain flow node where t: "target q w = Inr (Some (flow, node))" and send: "may_send flow q"
    using sender_target by blast
  have "om_get (fs_deployed w) (q_flow q) = Some flow" "jvalue get_bool flow ''enabled'' True = Inr True" "\<not> outdated q w"
    using t by (auto simp: target_def rbind_Inr split: if_splits option.splits)
  moreover have "jvalue get_string flow ''mode'' ''active'' \<noteq> Inr ''monitor''" "event_writable (q_event q) = None"
    using send by (auto simp: may_send_def monitored_def rbind_Inr)
  ultimately show ?thesis using may by (auto simp: event_writable_def split: if_splits)
qed

theorem only_good_values_leave_witness:
  "ev_quality (q_event example_event) = ''good'' \<and> \<not> outdated example_event example_deployed
    \<and> fs_sent example_written = [SentWrite ''plc'' ''Out'' ''7'']"
  using only_good_values_leave [OF example_runs] example_write example_idle by simp

section \<open>Flows are separate\<close>

lemma work_off_keeps:
  assumes "work_off max_hops Es fuel now w = Some (Inr v)" and "P w"
    and "\<And>x. x \<in> set (fs_queue w) \<or> x \<in> snd ` set (fs_delayed w) \<Longrightarrow> Q x"
    and start: "\<And>w q d. P w \<Longrightarrow> P (w\<lparr>fs_delayed := d, fs_queue := q\<rparr>)"
    and step: "\<And>E q w v. P w \<Longrightarrow> Q q \<Longrightarrow> process_event max_hops E q w = Inr v \<Longrightarrow> P v"
    and inherit: "\<And>q x. Q q \<Longrightarrow> child q x \<Longrightarrow> Q x"
  shows "P v"
proof -
  have queue: "P (w\<lparr>fs_queue := []\<rparr>)" if "P w" for w :: flow_state
    using start [OF that, where q = "[]" and d = "fs_delayed w"] by simp
  have due: "Q (snd x)" if "x \<in> set (takeWhile p (fs_delayed w))" for x p
    using that assms(3) [of "snd x"] set_takeWhileD [of x p "fs_delayed w"] by auto
  have "list_all Q (fs_queue (release_due now w))"
    using assms(3) by (auto simp: release_due_def list_all_iff dest!: due)
  moreover have "P (snd (take_queue (release_due now w)))"
    using start [OF assms(2)] by (simp add: take_queue_def release_due_def)
  ultimately show ?thesis
    using assms(1) queue step inherit
    by (intro drain_keeps_events [of max_hops Es 0 fuel "fs_queue (release_due now w)" "(release_due now w)\<lparr>fs_queue := []\<rparr>" v P Q])
      (auto simp: work_off_def take_queue_def)
qed

text \<open>C26. A round touches only the flows that have an event in one of the queues: every other flow keeps its status, its
  counters and all that its nodes have retained.\<close>

theorem round_stays_in_its_flows:
  assumes "work_off max_hops Es fuel now w = Some (Inr v)"
    and "\<And>x. x \<in> set (fs_queue w) \<or> x \<in> snd ` set (fs_delayed w) \<Longrightarrow> q_flow x \<noteq> f"
  shows "same_flow f w v"
  using assms(1)
proof (rule work_off_keeps [where Q = "\<lambda>q. q_flow q \<noteq> f"])
  fix E q u u'
  assume "same_flow f w u" "q_flow q \<noteq> f" "process_event max_hops E q u = Inr u'"
  then show "same_flow f w u'" using process_event_extends(1) [of max_hops E q u u'] by (simp add: extends_def same_flow_def)
qed (use assms(2) in \<open>auto simp: same_flow_def child_def\<close>)

text \<open>C27. If every flow with an event in one of the queues is in monitor mode, a whole round sends nothing.\<close>

theorem monitored_flows_send_nothing:
  assumes "work_off max_hops Es fuel now w = Some (Inr v)"
    and "\<And>x flow. x \<in> set (fs_queue w) \<or> x \<in> snd ` set (fs_delayed w) \<Longrightarrow>
      om_get (fs_deployed w) (q_flow x) = Some flow \<Longrightarrow> jvalue get_string flow ''mode'' ''active'' = Inr ''monitor''"
  shows "fs_sent v = fs_sent w"
proof -
  define Q :: "queued_event \<Rightarrow> bool" where "Q x \<longleftrightarrow> (\<forall>flow. om_get (fs_deployed w) (q_flow x) = Some flow \<longrightarrow>
      jvalue get_string flow ''mode'' ''active'' = Inr ''monitor'')" for x
  have "fs_sent v = fs_sent w \<and> fs_deployed v = fs_deployed w"
    using assms(1)
  proof (rule work_off_keeps [where Q = Q])
    fix E q u u'
    assume u: "fs_sent u = fs_sent w \<and> fs_deployed u = fs_deployed w" "Q q" "process_event max_hops E q u = Inr u'"
    have ext: "extends (q_hops q \<le> max_hops \<and> sender q u) q u u'" by (rule process_event_extends(1) [OF u(3)])
    have "\<not> sender q u"
    proof
      assume "sender q u"
      then obtain flow node where t: "target q u = Inr (Some (flow, node))" and send: "may_send flow q"
        using sender_target by blast
      then have "om_get (fs_deployed w) (q_flow q) = Some flow"
        using u by (auto simp: target_def rbind_Inr split: if_splits option.splits)
      then show False using u(2) send by (auto simp: Q_def may_send_def monitored_def rbind_Inr)
    qed
    then show "fs_sent u' = fs_sent w \<and> fs_deployed u' = fs_deployed w"
      using ext u(1) by (auto simp: extends_def sent_grows_def same_setup_def)
  qed (use assms(2) in \<open>auto simp: Q_def child_def\<close>)
  then show ?thesis by blast
qed

section \<open>What a deployment leaves behind\<close>

definition brokers_only :: "flow_state \<Rightarrow> flow_state \<Rightarrow> bool" where
  "brokers_only w v \<longleftrightarrow> (\<exists>b. v = w\<lparr>fs_brokers := b\<rparr>)"

lemma brokers_only_refl [simp]: "brokers_only w w"
  unfolding brokers_only_def by (rule exI [of _ "fs_brokers w"]) simp

lemma brokers_only_put [simp]: "brokers_only w (w\<lparr>fs_brokers := b\<rparr>)"
  by (auto simp: brokers_only_def)

lemma brokers_only_trans: "brokers_only w v \<Longrightarrow> brokers_only v u \<Longrightarrow> brokers_only w u"
  by (auto simp: brokers_only_def)

lemma start_mqtt_brokers: "start_mqtt files w = (v, e) \<Longrightarrow> brokers_only w v"
proof (induction files arbitrary: w)
  case (Cons x xs)
  show ?case
  proof (cases "start_broker x")
    case (Inr b)
    show ?thesis
    proof (cases b)
      case None
      then show ?thesis using Cons Inr by simp
    next
      case (Some p)
      obtain n br failed where p: "p = (n, br, failed)" by (cases p)
      let ?w = "w\<lparr>fs_brokers := om_put n br (fs_brokers w)\<rparr>"
      have "brokers_only ?w v"
      proof (cases failed)
        case None
        then show ?thesis using Cons.prems Inr Some p by (intro Cons.IH) (simp add: Let_def)
      qed (use Cons.prems Inr Some p in \<open>simp add: Let_def\<close>)
      then show ?thesis using brokers_only_trans brokers_only_put by blast
    qed
  qed (use Cons.prems in simp)
qed simp

lemma refresh_one_brokers: "refresh_one subscribe c w = Inr v \<Longrightarrow> brokers_only w v"
  by (auto simp: refresh_one_def rbind_Inr split: option.splits if_splits)

lemma refresh_each_brokers: "refresh_each subscribe cs w = (v, e) \<Longrightarrow> brokers_only w v"
proof (induction subscribe cs w rule: refresh_each.induct)
  case (2 subscribe c cs w)
  show ?case
  proof (cases "refresh_one subscribe c w")
    case (Inr u)
    then show ?thesis using 2 refresh_one_brokers [OF Inr] by (auto intro: brokers_only_trans)
  qed (use 2 in auto)
qed simp

lemma restart_mqtt_brokers: "restart_mqtt M w = (v, e) \<Longrightarrow> brokers_only w v"
  unfolding restart_mqtt_def reload_mqtt_def refresh_all_def
  by (cases "start_mqtt (me_files M) (w\<lparr>fs_brokers := []\<rparr>)")
    (auto split: option.splits dest!: start_mqtt_brokers refresh_each_brokers
      intro: brokers_only_trans brokers_only_trans [OF brokers_only_put])

lemma deploy_replied:
  assumes "deploy L order now saved M f w = (Replied, v)"
  obtains flow u where
    "install_flow now f flow (om_put f flow (fs_deployed w)) w = (u, None)" "brokers_only (clear_queued_events f u) v"
    "om_get (fs_drafts w) f \<noteq> None"
proof -
  obtain draft g where draft: "om_get (fs_drafts w) f = Some draft" and g: "normalize_and_validate L order True draft = Inr g"
    and saved: "saved = None"
    using assms by (auto simp: deploy_def of_flow_error_def Let_def split: option.splits sum.splits flow_error.splits)
  define flow where "flow = jset ''deployed_ms'' (JInt now) g"
  obtain u e where u: "install_flow now f flow (om_put f flow (fs_deployed w)) w = (u, e)" by fastforce
  have e: "e = None" and v: "or_threw (restart_mqtt M (clear_queued_events f u)) = (Replied, v)"
    using assms u by (auto simp: deploy_def draft g saved flow_def [symmetric] split: option.splits)
  obtain v' e' where r: "restart_mqtt M (clear_queued_events f u) = (v', e')" by fastforce
  then have "v' = v" using v by (auto simp: or_threw_def split: option.splits)
  then show thesis using that u e draft restart_mqtt_brokers [OF r] by auto
qed

text \<open>All that the nodes of a flow remember is gone.\<close>

definition nothing_retained :: "string \<Rightarrow> flow_state \<Rightarrow> bool" where
  "nothing_retained f w \<longleftrightarrow> (\<forall>n. fs_combine w f n = Map.empty \<and> fs_boolean w f n = Map.empty \<and> fs_json w f n = Map.empty
     \<and> fs_compute w f n = Map.empty \<and> fs_rate w f n = new_rate_limit \<and> fs_trigger w f n = 0
     \<and> fs_email w f n = new_email_memory \<and> fs_last_input w f n = JNull)"

lemma install_flow_ok:
  assumes "install_flow now f flow next w = (u, None)"
  shows "nothing_retained f u \<and> fs_epoch u f = fs_epoch w f + 1 \<and> fs_sent u = fs_sent w \<and> fs_deployed u = next
    \<and> fs_queue u = fs_queue w \<and> fs_delayed u = fs_delayed w"
  using assms
  by (auto simp: install_flow_def Let_def nothing_retained_def clear_inputs_def clear_memory_def update_flow_def switch_graph_def
      split: sum.splits)

lemma word_next_neq: "(x :: u64) + 1 \<noteq> x"
  by simp

text \<open>C14. Deploying a flow sends nothing and leaves no event of it in a queue and nothing in its nodes; an input read for the
  previous deployment that arrives later is dropped without a trace.\<close>

theorem deployment_starts_clean:
  assumes "deploy L order now saved M f w = (Replied, v)"
    and "q_flow q = f" and "q_epoch q = fs_epoch w f" and "q_epoch q \<noteq> 0" and "q_hops q \<le> max_hops"
  shows "fs_sent v = fs_sent w \<and> f \<notin> q_flow ` set (fs_queue v) \<and> f \<notin> (q_flow \<circ> snd) ` set (fs_delayed v)
    \<and> nothing_retained f v \<and> process_event max_hops E q v = Inr v"
  using assms(1)
proof (rule deploy_replied)
  fix flow u
  assume u: "install_flow now f flow (om_put f flow (fs_deployed w)) w = (u, None)" "brokers_only (clear_queued_events f u) v"
  obtain b where v: "v = (clear_queued_events f u)\<lparr>fs_brokers := b\<rparr>" using u(2) by (auto simp: brokers_only_def)
  note inst = install_flow_ok [OF u(1)]
  have "outdated q v"
    using inst assms(2-4) by (simp add: v outdated_def clear_queued_events_def word_next_neq)
  then have "process_event max_hops E q v = Inr v" using assms(5) by (simp add: process_event_def target_def)
  then show ?thesis using inst by (auto simp: v clear_queued_events_def nothing_retained_def)
qed

section \<open>Examples of the above\<close>

theorem accepted_flow_is_acyclic_witness: "acyclic {(''a'', ''b'') :: string \<times> string}"
proof -
  have "(case normalize_and_validate sample_math (\<lambda>xs. xs) True example_flow of Inr g \<Rightarrow> flow_edges g = [(''a'', ''b'')] | Inl e \<Rightarrow> False)"
    by code_simp
  then obtain g where "normalize_and_validate sample_math (\<lambda>xs. xs) True example_flow = Inr g" "flow_edges g = [(''a'', ''b'')]"
    by (auto split: sum.splits)
  then show ?thesis using accepted_flow_is_acyclic [of sample_math "\<lambda>xs. xs" True example_flow g] by simp
qed

definition example_queued :: flow_state where
  "example_queued = enqueue example_event example_deployed"

lemma example_queued_events: "fs_queue example_queued = [example_event]" "fs_delayed example_queued = []"
  by (simp_all add: example_queued_def enqueue_def example_idle)

theorem round_stays_in_its_flows_witness:
  "\<exists>v. work_off 64 (\<lambda>i. sample_io) 3 1000 example_queued = Some (Inr v) \<and> same_flow ''other'' example_queued v
     \<and> fs_sent v = [SentWrite ''plc'' ''Out'' ''7'']"
proof -
  have "(case work_off 64 (\<lambda>i. sample_io) 3 1000 example_queued of
      Some (Inr v) \<Rightarrow> fs_sent v = [SentWrite ''plc'' ''Out'' ''7''] | _ \<Rightarrow> False)" by code_simp
  then obtain v where v: "work_off 64 (\<lambda>i. sample_io) 3 1000 example_queued = Some (Inr v)" "fs_sent v = [SentWrite ''plc'' ''Out'' ''7'']"
    by (auto split: option.splits sum.splits)
  have "same_flow ''other'' example_queued v"
    using v(1) by (rule round_stays_in_its_flows) (auto simp: example_queued_events example_event_def)
  then show ?thesis using v by blast
qed

definition example_monitored :: flow_state where
  "example_monitored = enqueue example_event (snd (deploy sample_math (\<lambda>xs. xs) 500 None example_mqtt ''f1''
     (snd (save_draft sample_math (\<lambda>xs. xs) None (jset ''mode'' (JStr ''monitor'') example_flow) new_service))))"

theorem monitored_flows_send_nothing_witness:
  "\<exists>v. work_off 64 (\<lambda>i. sample_io) 3 1000 example_monitored = Some (Inr v) \<and> fs_sent v = []"
proof -
  have "(case work_off 64 (\<lambda>i. sample_io) 3 1000 example_monitored of Some (Inr v) \<Rightarrow> True | _ \<Rightarrow> False)" by code_simp
  then obtain v where v: "work_off 64 (\<lambda>i. sample_io) 3 1000 example_monitored = Some (Inr v)"
    by (auto split: option.splits sum.splits)
  have queue: "map q_flow (fs_queue example_monitored) = [''f1'']" "fs_delayed example_monitored = []" "fs_sent example_monitored = []"
    by code_simp+
  have mode: "(case om_get (fs_deployed example_monitored) ''f1'' of
      Some flow \<Rightarrow> jvalue get_string flow ''mode'' ''active'' = Inr ''monitor'' | None \<Rightarrow> False)" by code_simp
  have flow: "q_flow x = ''f1''" if "x \<in> set (fs_queue example_monitored)" for x
    using queue(1) that by (auto simp: map_eq_Cons_conv)
  have "fs_sent v = fs_sent example_monitored"
    using v
  proof (rule monitored_flows_send_nothing)
    fix x flow
    assume x: "x \<in> set (fs_queue example_monitored) \<or> x \<in> snd ` set (fs_delayed example_monitored)"
      and at: "om_get (fs_deployed example_monitored) (q_flow x) = Some flow"
    then have "q_flow x = ''f1''" using queue(2) flow by auto
    then show "jvalue get_string flow ''mode'' ''active'' = Inr ''monitor''" using mode at by simp
  qed
  then show ?thesis using v queue(3) by simp
qed

definition old_input :: queued_event where
  "old_input = \<lparr>q_flow = ''f1'', q_node = ''b'', q_event = test_event 900 (JInt 7), q_hops = 0, q_port = [], q_epoch = 1\<rparr>"

theorem deployment_starts_clean_witness:
  "process_event 64 sample_io old_input (snd (deploy sample_math (\<lambda>xs. xs) 600 None example_mqtt ''f1'' example_queued)) =
     Inr (snd (deploy sample_math (\<lambda>xs. xs) 600 None example_mqtt ''f1'' example_queued))"
proof -
  have "fst (deploy sample_math (\<lambda>xs. xs) 600 None example_mqtt ''f1'' example_queued) = Replied" by code_simp
  then have d: "deploy sample_math (\<lambda>xs. xs) 600 None example_mqtt ''f1'' example_queued =
      (Replied, snd (deploy sample_math (\<lambda>xs. xs) 600 None example_mqtt ''f1'' example_queued))"
    by (metis prod.collapse)
  have "fs_epoch example_queued ''f1'' = 1" by code_simp
  then show ?thesis using deployment_starts_clean [OF d, of old_input 64 sample_io] by (simp add: old_input_def)
qed

end
