(* ===== verification/FlowService.thy ===== *)
theory FlowService
  imports FlowBehaviour
begin

text \<open>
  The flow service as a transition system: the worker, the callbacks of the MQTT client and the HTTP operations in any
  order, from what \<open>load\_all\<close> finds. Each operation keeps the mutex for its changes, so it is one step. An exception
  that ends the process has no successor.
\<close>

inductive flow_step :: "int \<Rightarrow> flow_state \<Rightarrow> flow_state \<Rightarrow> bool" for max_hops where
  event: "process_event max_hops E q w = Inr v \<Longrightarrow> flow_step max_hops w v"
| due: "flow_step max_hops w (release_due now w)"
| taken: "flow_step max_hops w (snd (take_queue w))"
| poll: "poll_inputs Es now dflt w = Inr v \<Longrightarrow> flow_step max_hops w v"
| message: "on_mqtt_message E matches conn topic payload w = Inr v \<Longrightarrow> flow_step max_hops w v"
| connected: "on_connect subscribe conn failure w = Inr v \<Longrightarrow> flow_step max_hops w v"
| disconnected: "flow_step max_hops w (on_disconnect conn unexpected w)"
| drafted: "flow_step max_hops w (snd (save_draft L order saved flow w))"
| removed: "flow_step max_hops w (snd (remove_draft saved f w))"
| deployed: "flow_step max_hops w (snd (deploy L order now saved M f w))"
| disabled: "flow_step max_hops w (snd (disable saved M f w))"
| injected: "flow_step max_hops w (snd (inject now f n j w))"

inductive flow_reachable :: "int \<Rightarrow> flow_state \<Rightarrow> bool" for max_hops where
  loaded: "load_all drafts flows new_service = Inr w \<Longrightarrow> flow_reachable max_hops w"
| stepped: "flow_reachable max_hops w \<Longrightarrow> flow_step max_hops w v \<Longrightarrow> flow_reachable max_hops v"

section \<open>The invariant\<close>

definition service_ok :: "flow_state \<Rightarrow> bool" where
  "service_ok w \<longleftrightarrow> delayed_ok w \<and> retained_ok w \<and> om_ok (fs_drafts w) \<and> om_ok (fs_deployed w) \<and> om_ok (fs_brokers w)"

text \<open>Operations that leave all that the invariant speaks of alone, but for the brokers.\<close>

definition tame :: "flow_state \<Rightarrow> flow_state \<Rightarrow> bool" where
  "tame w v \<longleftrightarrow> fs_delayed v = fs_delayed w \<and> fs_combine v = fs_combine w \<and> fs_boolean v = fs_boolean w \<and> fs_json v = fs_json w
     \<and> fs_compute v = fs_compute w \<and> fs_drafts v = fs_drafts w \<and> fs_deployed v = fs_deployed w
     \<and> (om_ok (fs_brokers w) \<longrightarrow> om_ok (fs_brokers v)) \<and> fs_sent v = fs_sent w"

named_theorems tame \<open>operations that keep queues, memories and definitions\<close>

lemma tame_refl [tame, simp]: "tame w w"
  by (simp add: tame_def)

lemma tame_trans: "tame w v \<Longrightarrow> tame v u \<Longrightarrow> tame w u"
  by (simp add: tame_def)

lemma tame_service: "tame w v \<Longrightarrow> service_ok w \<Longrightarrow> service_ok v"
  by (simp add: tame_def service_ok_def delayed_ok_def retained_ok_def)

lemma tame_update [tame]:
  assumes "tame w v"
  shows "tame w (update_node f n g v)" "tame w (update_flow f g' v)" "tame w (enqueue q v)" "tame w (put_wait f n t v)"
    "tame w (set_node_error f n err v)" "tame w (reject_node f n err v)" "tame w (v\<lparr>fs_next_poll := p\<rparr>)"
    "tame w (v\<lparr>fs_last_input := l\<rparr>)" "tame w (clear_connection_error f n v)"
  using assms
  by (simp_all add: tame_def update_node_def update_flow_def enqueue_def put_wait_def set_node_error_def reject_node_def
      clear_connection_error_def)

lemma tame_brokers: "tame w v \<Longrightarrow> om_ok b \<or> (om_ok (fs_brokers v) \<longrightarrow> om_ok b) \<Longrightarrow> tame w (v\<lparr>fs_brokers := b\<rparr>)"
  by (auto simp: tame_def)

section \<open>Polls, messages and connections\<close>

lemma tame_poll_fail [tame]: "tame w v \<Longrightarrow> tame w (poll_fail f n epoch r err v)"
  by (simp add: poll_fail_def tame)

lemma tame_schedule_retry: "schedule_retry E f n epoch conn tag row w = Inr (b, v) \<Longrightarrow> tame w v"
  by (auto simp: schedule_retry_def retry_soon_def rbind_Inr Let_def intro: tame split: if_splits)

lemma tame_observe: "tame w v \<Longrightarrow> tame w (observe E f n cfg epoch r ev v)"
  by (auto simp: observe_def note_observed_def Let_def intro!: tame split: sum.split)

lemma tame_read_answer: "tame w (read_answer E f n cfg epoch conn tag fresh text w)"
proof -
  have retry: "tame w v" if "(if fresh then Inr (False, w) else schedule_retry E f n epoch conn tag row w) = Inr (b, v)" for row b v
    using that tame_schedule_retry by (auto split: if_splits)
  show ?thesis
    unfolding read_answer_def
    by (auto intro!: tame tame_observe dest!: retry tame_schedule_retry split: option.split sum.split)
qed

lemma tame_poll_tag: "poll_tag E f n cfg epoch w = Inr v \<Longrightarrow> tame w v"
  by (auto simp: poll_tag_def rbind_Inr Let_def intro: tame tame_read_answer split: if_splits)

lemma tame_next_poll [simp]: "tame (w\<lparr>fs_next_poll := p\<rparr>) v = tame w v"
  by (simp add: tame_def)

lemma tame_due_inputs: "due_inputs now d f ns w = Inr (ts, v) \<Longrightarrow> tame w v"
proof (induction ns arbitrary: w ts)
  case (Cons n ns)
  then show ?case
    by (auto simp: rbind_Inr split: if_splits dest!: Cons.IH)
qed simp

lemma tame_collect_polls: "collect_polls now d fs w = Inr (ts, v) \<Longrightarrow> tame w v"
proof (induction fs arbitrary: w ts)
  case (Cons p fs)
  obtain f flow where "p = (f, flow)" by (cases p)
  with Cons show ?case
    by (auto simp: rbind_Inr split: if_splits intro: tame_trans dest!: tame_due_inputs)
qed simp

lemma tame_run_polls: "run_polls Es i ts w = Inr v \<Longrightarrow> tame w v"
proof (induction ts arbitrary: i w)
  case (Cons t ts)
  then show ?case by (auto simp: rbind_Inr intro: tame_trans dest!: tame_poll_tag)
qed simp

lemma tame_poll_inputs: "poll_inputs Es now d w = Inr v \<Longrightarrow> tame w v"
  by (auto simp: poll_inputs_def rbind_Inr intro: tame_trans dest!: tame_collect_polls tame_run_polls)

lemma tame_fold: "(\<And>x v. tame w v \<Longrightarrow> tame w (g x v)) \<Longrightarrow> tame w v \<Longrightarrow> tame w (fold g xs v)"
  by (induction xs arbitrary: v) auto

lemma tame_message: "on_mqtt_message E matches conn topic payload w = Inr v \<Longrightarrow> tame w v"
  by (auto simp: on_mqtt_message_def rbind_Inr deliver_def intro!: tame_fold tame split: sum.split)

lemma tame_refresh_one: "refresh_one subscribe c w = Inr v \<Longrightarrow> tame w v"
  by (auto simp: refresh_one_def rbind_Inr om_ok_put intro!: tame_brokers split: option.splits if_splits)

lemma tame_connect: "on_connect subscribe conn failure w = Inr v \<Longrightarrow> tame w v"
proof -
  have clear: "tame w u" if "clear_mqtt_connection_errors conn v = Inr u" "tame w v" for v u
    using that by (auto simp: clear_mqtt_connection_errors_def rbind_Inr intro!: tame_fold tame)
  assume "on_connect subscribe conn failure w = Inr v"
  then show ?thesis
    by (auto simp: on_connect_def rbind_Inr Let_def om_ok_put split: option.splits if_splits intro!: tame_brokers
        dest!: tame_refresh_one intro: tame_trans [OF clear])
qed

lemma tame_disconnect: "tame w (on_disconnect conn unexpected w)"
  by (auto simp: on_disconnect_def om_ok_put intro!: tame_brokers split: option.split)

section \<open>Operations\<close>

lemma service_ok_event: "process_event max_hops E q w = Inr v \<Longrightarrow> service_ok w \<Longrightarrow> service_ok v"
  using process_event_extends(1) [of max_hops E q w v]
  by (simp add: service_ok_def extends_def same_setup_def delayed_grows_def)

lemma sorted_dropWhile_fst: "sorted (map fst xs) \<Longrightarrow> sorted (map fst (dropWhile P xs))"
  by (induction xs) auto

lemma service_ok_due: "service_ok w \<Longrightarrow> service_ok (release_due now w)"
  by (auto simp: service_ok_def release_due_def delayed_ok_def retained_ok_def sorted_dropWhile_fst
      intro: le_trans [OF length_dropWhile_le])

lemma service_ok_taken: "service_ok w \<Longrightarrow> service_ok (snd (take_queue w))"
  by (simp add: service_ok_def take_queue_def delayed_ok_def retained_ok_def)

lemma service_ok_drafts: "service_ok w \<Longrightarrow> om_ok m \<Longrightarrow> service_ok (w\<lparr>fs_drafts := m\<rparr>)"
  by (simp add: service_ok_def delayed_ok_def retained_ok_def)

lemma service_ok_save: "service_ok w \<Longrightarrow> service_ok (snd (save_draft L order saved flow w))"
  by (auto simp: save_draft_def Let_def service_ok_drafts om_ok_put service_ok_def [of w] split: sum.split option.split)

lemma om_ok_del: "om_ok m \<Longrightarrow> om_ok (om_del k m)"
  by (simp add: om_del_def om_ok_filter)

lemma service_ok_remove: "service_ok w \<Longrightarrow> service_ok (snd (remove_draft saved f w))"
  by (auto simp: remove_draft_def Let_def service_ok_drafts om_ok_del service_ok_def [of w] split: option.split)

lemma all_retained_clear: "all_retained P m \<Longrightarrow> all_retained P (m(f := \<lambda>n. Map.empty))"
  by (auto simp: all_retained_def)

lemma service_ok_brokers: "brokers_only w v \<Longrightarrow> om_ok (fs_brokers v) \<Longrightarrow> service_ok w \<Longrightarrow> service_ok v"
  by (auto simp: brokers_only_def service_ok_def delayed_ok_def retained_ok_def)

lemma om_ok_start: "start_mqtt files w = (v, e) \<Longrightarrow> om_ok (fs_brokers w) \<Longrightarrow> om_ok (fs_brokers v)"
  by (induction files w rule: start_mqtt.induct)
    (auto simp: om_ok_put Let_def split: sum.splits option.splits)

lemma om_ok_refresh: "refresh_each subscribe cs w = (v, e) \<Longrightarrow> om_ok (fs_brokers w) \<Longrightarrow> om_ok (fs_brokers v)"
  by (induction subscribe cs w rule: refresh_each.induct)
    (auto simp: refresh_one_def rbind_Inr om_ok_put split: sum.splits option.splits if_splits)

lemma service_ok_refresh: "service_ok w \<Longrightarrow> service_ok (snd (or_threw (refresh_all subscribe w)))"
proof -
  assume ok: "service_ok w"
  obtain v e where r: "refresh_all subscribe w = (v, e)" by fastforce
  then have "service_ok v"
    using ok refresh_each_brokers om_ok_refresh by (intro service_ok_brokers [of w v]) (auto simp: refresh_all_def service_ok_def)
  then show ?thesis using r by (cases e) (simp_all add: or_threw_def)
qed

lemma service_ok_restart: "service_ok w \<Longrightarrow> service_ok (snd (or_threw (restart_mqtt M w)))"
proof -
  assume ok: "service_ok w"
  obtain v e where s: "reload_mqtt (me_files M) w = (v, e)" by fastforce
  have v: "service_ok v"
  proof (rule service_ok_brokers)
    show "brokers_only (w\<lparr>fs_brokers := []\<rparr>) v" "om_ok (fs_brokers v)"
      using s start_mqtt_brokers om_ok_start by (auto simp: reload_mqtt_def om.ok_empty)
    show "service_ok (w\<lparr>fs_brokers := []\<rparr>)"
      using service_ok_brokers [OF brokers_only_put _ ok, of "[]"] by (simp add: om.ok_empty)
  qed
  show ?thesis
    using v s service_ok_refresh [OF v] by (cases e) (simp_all add: restart_mqtt_def or_threw_def)
qed

lemma service_ok_clear_queue: "service_ok w \<Longrightarrow> service_ok (clear_queued_events f w)"
  by (auto simp: service_ok_def clear_queued_events_def delayed_ok_def retained_ok_def sorted_filter_fst
      intro: le_trans [OF length_filter_le])

lemma service_ok_clear_memory: "service_ok w \<Longrightarrow> service_ok (clear_memory f w)"
  by (simp add: service_ok_def clear_memory_def delayed_ok_def retained_ok_def all_retained_clear)

lemma service_ok_graph: "service_ok w \<Longrightarrow> om_ok m \<Longrightarrow> service_ok (w\<lparr>fs_deployed := m, fs_epoch := e\<rparr>)"
  by (simp add: service_ok_def delayed_ok_def retained_ok_def)

lemma service_ok_runtime: "service_ok (update_flow f g w) = service_ok w"
  by (simp add: service_ok_def update_flow_def delayed_ok_def retained_ok_def)

lemma service_ok_clear_inputs: "service_ok (clear_inputs f w) = service_ok w"
  by (simp add: service_ok_def clear_inputs_def delayed_ok_def retained_ok_def)

lemma service_ok_install: "service_ok w \<Longrightarrow> om_ok m \<Longrightarrow> service_ok (fst (install_flow now f flow m w))"
  by (auto simp: install_flow_def Let_def switch_graph_def service_ok_runtime service_ok_clear_inputs
      intro!: service_ok_clear_memory service_ok_graph split: sum.split)

lemma service_ok_deploy: "service_ok w \<Longrightarrow> service_ok (snd (deploy L order now saved M f w))"
proof -
  assume ok: "service_ok w"
  have install: "service_ok u" if "install_flow now f c (om_put f c (fs_deployed w)) w = (u, e)" for c u e
    using service_ok_install [OF ok, of "om_put f c (fs_deployed w)" now f c] that ok by (simp add: om_ok_put service_ok_def)
  show ?thesis
    using ok
    by (auto simp: deploy_def Let_def split: option.split sum.split prod.split
        intro!: service_ok_restart service_ok_clear_queue dest!: install)
qed

lemma service_ok_disable: "service_ok w \<Longrightarrow> service_ok (snd (disable saved M f w))"
  by (auto simp: disable_def Let_def service_ok_runtime om_ok_del split: option.split
      intro!: service_ok_refresh service_ok_clear_queue service_ok_clear_memory service_ok_graph)
    (simp add: service_ok_def om_ok_del)

lemma service_ok_inject: "service_ok w \<Longrightarrow> service_ok (snd (inject now f n j w))"
  by (auto simp: inject_def split: option.split sum.split intro: tame_service [OF tame_update(3) [OF tame_refl]])

lemma om_ok_collect: "collect_flows fs m = Inr m' \<Longrightarrow> om_ok m \<Longrightarrow> om_ok m'"
proof (induction fs arbitrary: m)
  case (Cons f fs)
  show ?case
  proof (cases "is_object f")
    case True
    then obtain i where "collect_flows fs (if i = [] then m else om_put i f m) = Inr m'"
      using Cons.prems by (auto simp: rbind_Inr)
    then show ?thesis by (rule Cons.IH) (simp add: Cons.prems om_ok_put)
  next
    case False
    then have "collect_flows fs m = Inr m'" using Cons.prems(1) by simp
    then show ?thesis using Cons.IH Cons.prems(2) by blast
  qed
qed simp

lemma service_ok_start: "start_flows fs w = Inr v \<Longrightarrow> service_ok w \<Longrightarrow> service_ok v"
proof (induction fs w rule: start_flows.induct)
  case (2 f flow fs w)
  then show ?case by (auto simp: rbind_Inr service_ok_def delayed_ok_def retained_ok_def)
qed simp

lemma service_ok_load:
  assumes "load_all drafts flows new_service = Inr w"
  shows "service_ok w"
proof -
  obtain ds fs where ds: "load_collection drafts = Inr ds" and fs: "load_collection flows = Inr fs"
    and start: "start_flows fs (new_service\<lparr>fs_drafts := ds, fs_deployed := fs\<rparr>) = Inr w"
    using assms by (auto simp: load_all_def rbind_Inr)
  have "om_ok ds" "om_ok fs"
    using ds fs om_ok_collect [OF _ om.ok_empty] by (auto simp: load_collection_def rbind_Inr)
  then have "service_ok (new_service\<lparr>fs_drafts := ds, fs_deployed := fs\<rparr>)"
    by (simp add: service_ok_def new_service_def om.ok_empty delayed_ok_def retained_ok_def all_retained_def)
  then show ?thesis by (rule service_ok_start [OF start])
qed

lemma service_ok_step: "flow_step max_hops w v \<Longrightarrow> service_ok w \<Longrightarrow> service_ok v"
proof (induction rule: flow_step.induct)
  case (event E q w v)
  then show ?case using service_ok_event by blast
next
  case (poll Es now dflt w v)
  then show ?case using tame_poll_inputs tame_service by blast
next
  case (message E matches conn topic payload w v)
  then show ?case using tame_message tame_service by blast
next
  case (connected subscribe conn failure w v)
  then show ?case using tame_connect tame_service by blast
next
  case (disconnected w conn unexpected)
  then show ?case using tame_disconnect tame_service by blast
qed (simp_all add: service_ok_due service_ok_taken service_ok_save service_ok_remove service_ok_deploy service_ok_disable
    service_ok_inject)

lemma reachable_ok: "flow_reachable max_hops w \<Longrightarrow> service_ok w"
  by (induction rule: flow_reachable.induct) (auto dest: service_ok_load service_ok_step)


lemma load_nothing: "load_all (JObj []) (JObj []) new_service = Inr new_service"
proof -
  have "load_collection (JObj []) = Inr []" by (simp add: load_collection_def jvalue_def)
  then show ?thesis by (simp add: load_all_def) (simp add: new_service_def)
qed


end
