(* ===== verification/FlowNodeLaws.thy ===== *)
theory FlowNodeLaws
  imports FlowBehaviour
begin

text \<open>
  What single nodes of a flow compute: the Combine node against positional notation, the bit operations against
  arithmetic on integers of the word size, the rate limiter over any sequence of arrivals and timers, and a
  configuration that passes the checks and stops the service.
\<close>

section \<open>Words in arithmetic\<close>

lemma uint_and_mask: "uint (a AND mask k :: u64) = uint a mod 2 ^ k"
  unfolding take_bit_eq_mask [symmetric] unsigned_take_bit_eq by (simp add: take_bit_eq_mod)

lemma low_masks: "(0xff :: u64) = mask 8" "(0xffff :: u64) = mask 16"
  by (simp_all add: mask_eq_exp_minus_1)

lemma uint_low: "uint (a AND 0xff :: u64) = uint a mod 256" "uint (a AND 0xffff :: u64) = uint a mod 65536"
  unfolding low_masks uint_and_mask by simp_all

lemma int_join: "0 \<le> (y :: int) \<Longrightarrow> y < 2 ^ k \<Longrightarrow> push_bit k x OR y = x * 2 ^ k + y"
proof -
  assume "0 \<le> y" "y < 2 ^ k"
  then have "take_bit k y = y" by (simp add: take_bit_int_eq_self)
  then show ?thesis using concat_bit_eq [of k y x] by (simp add: concat_bit_def or.commute push_bit_eq_mult)
qed

lemma uint_join:
  assumes "uint (y :: u64) < 2 ^ k" and "uint (x :: u64) * 2 ^ k < 2 ^ 64"
  shows "uint (push_bit k x OR y) = uint x * 2 ^ k + uint y"
proof -
  have "uint (push_bit k x) = uint x * 2 ^ k"
    unfolding unsigned_push_bit_eq using assms(2) by (simp add: push_bit_eq_mult take_bit_int_eq_self)
  then have "uint (push_bit k x OR y) = push_bit k (uint x) OR uint y" by (simp add: unsigned_or_eq push_bit_eq_mult)
  then show ?thesis using int_join [OF _ assms(1)] by simp
qed

lemma join_bytes:
  assumes "uint (a :: u64) < 256" "uint (b :: u64) < 256" "uint (c :: u64) < 256" "uint (d :: u64) < 256"
  shows "uint (push_bit 24 a OR push_bit 16 b OR push_bit 8 c OR d) = ((uint a * 256 + uint b) * 256 + uint c) * 256 + uint d"
    "((uint a * 256 + uint b) * 256 + uint c) * 256 + uint d < 2 ^ 32"
proof -
  have 1: "uint (push_bit 8 c OR d) = uint c * 256 + uint d" using uint_join [of d 8 c] assms by simp
  have 2: "uint (push_bit 16 b OR push_bit 8 c OR d) = uint b * 65536 + (uint c * 256 + uint d)"
    using uint_join [of "push_bit 8 c OR d" 16 b] assms by (simp add: 1)
  show "uint (push_bit 24 a OR push_bit 16 b OR push_bit 8 c OR d) = ((uint a * 256 + uint b) * 256 + uint c) * 256 + uint d"
    using uint_join [of "push_bit 16 b OR push_bit 8 c OR d" 24 a] assms by (simp add: 2)
  show "((uint a * 256 + uint b) * 256 + uint c) * 256 + uint d < 2 ^ 32" using assms by simp
qed

lemma bit_word_mask_eq: "0 \<le> k \<Longrightarrow> k \<le> 64 \<Longrightarrow> bit_word_mask k = mask (nat k)"
  by (cases "k = 64") (simp_all add: bit_word_mask_def mask_eq_exp_minus_1 push_bit_eq_mult)

section \<open>Combine\<close>

text \<open>The reference: the values at the ports as digits, the most significant first, and two's complement.\<close>

definition port_digit :: "int \<Rightarrow> retained \<Rightarrow> string \<Rightarrow> int" where
  "port_digit base m p =
     (case m p of Some ev \<Rightarrow> (case parse_bit_integer (ev_value ev) of Some v \<Rightarrow> uint v mod base | None \<Rightarrow> 0) | None \<Rightarrow> 0)"

definition digit_base :: "string \<Rightarrow> int" where
  "digit_base mode = (if mode = ''two_words'' then 65536 else 256)"

definition positional :: "string \<Rightarrow> retained \<Rightarrow> int" where
  "positional mode m = foldl (\<lambda>n p. n * digit_base mode + port_digit (digit_base mode) m p) 0 (combine_ports mode)"

definition combine_range :: "string \<Rightarrow> int" where
  "combine_range mode = (if mode = ''two_bytes'' then 2 ^ 16 else 2 ^ 32)"

definition holds_integer :: "retained \<Rightarrow> string \<Rightarrow> bool" where
  "holds_integer m p \<longleftrightarrow> (case m p of Some ev \<Rightarrow> parse_bit_integer (ev_value ev) \<noteq> None | None \<Rightarrow> False)"

lemma holds_integer_bits:
  assumes "holds_integer m p"
  obtains v where "port_bits m p 0xff = Inr (v AND 0xff)" "port_bits m p 0xffff = Inr (v AND 0xffff)"
    "port_digit 256 m p = uint v mod 256" "port_digit 65536 m p = uint v mod 65536"
  using assms that by (fastforce simp: holds_integer_def port_bits_def port_digit_def split: option.splits)

lemma combined_positional:
  assumes "mode \<in> set combine_modes" and "list_all (holds_integer m) (combine_ports mode)"
  shows "\<exists>r. combined mode m = Inr r \<and> uint r = positional mode m \<and> 0 \<le> positional mode m \<and> positional mode m < combine_range mode"
proof -
  consider "mode = ''two_bytes''" | "mode = ''two_words''" | "mode = ''four_bytes''"
    using assms(1) by (auto simp: combine_modes_def)
  then show ?thesis
  proof cases
    case 1
    then have ports: "holds_integer m ''high_byte''" "holds_integer m ''low_byte''" using assms(2) by (auto simp: combine_ports_def)
    obtain a where a: "port_bits m ''high_byte'' 0xff = Inr (a AND 0xff)" "port_digit 256 m ''high_byte'' = uint a mod 256"
      using holds_integer_bits [OF ports(1)] by metis
    obtain b where b: "port_bits m ''low_byte'' 0xff = Inr (b AND 0xff)" "port_digit 256 m ''low_byte'' = uint b mod 256"
      using holds_integer_bits [OF ports(2)] by metis
    have "uint (push_bit 8 (a AND 0xff) OR (b AND 0xff)) = (uint a mod 256) * 256 + uint b mod 256"
      using uint_join [of "b AND 0xff" 8 "a AND 0xff"] by (simp add: uint_low)
    then show ?thesis using 1 a b
      by (simp add: combined_def positional_def combine_ports_def digit_base_def combine_range_def)
  next
    case 2
    then have ports: "holds_integer m ''high_word''" "holds_integer m ''low_word''" using assms(2) by (auto simp: combine_ports_def)
    obtain a where a: "port_bits m ''high_word'' 0xffff = Inr (a AND 0xffff)" "port_digit 65536 m ''high_word'' = uint a mod 65536"
      using holds_integer_bits [OF ports(1)] by metis
    obtain b where b: "port_bits m ''low_word'' 0xffff = Inr (b AND 0xffff)" "port_digit 65536 m ''low_word'' = uint b mod 65536"
      using holds_integer_bits [OF ports(2)] by metis
    have "uint (push_bit 16 (a AND 0xffff) OR (b AND 0xffff)) = (uint a mod 65536) * 65536 + uint b mod 65536"
      using uint_join [of "b AND 0xffff" 16 "a AND 0xffff"] by (simp add: uint_low)
    then show ?thesis using 2 a b
      by (simp add: combined_def positional_def combine_ports_def digit_base_def combine_range_def)
  next
    case 3
    then have ports: "holds_integer m ''byte_3''" "holds_integer m ''byte_2''" "holds_integer m ''byte_1''" "holds_integer m ''byte_0''"
      using assms(2) by (auto simp: combine_ports_def)
    obtain a where a: "port_bits m ''byte_3'' 0xff = Inr (a AND 0xff)" "port_digit 256 m ''byte_3'' = uint a mod 256"
      using holds_integer_bits [OF ports(1)] by metis
    obtain b where b: "port_bits m ''byte_2'' 0xff = Inr (b AND 0xff)" "port_digit 256 m ''byte_2'' = uint b mod 256"
      using holds_integer_bits [OF ports(2)] by metis
    obtain c where c: "port_bits m ''byte_1'' 0xff = Inr (c AND 0xff)" "port_digit 256 m ''byte_1'' = uint c mod 256"
      using holds_integer_bits [OF ports(3)] by metis
    obtain d where d: "port_bits m ''byte_0'' 0xff = Inr (d AND 0xff)" "port_digit 256 m ''byte_0'' = uint d mod 256"
      using holds_integer_bits [OF ports(4)] by metis
    show ?thesis using 3 a b c d join_bytes [of "a AND 0xff" "b AND 0xff" "c AND 0xff" "d AND 0xff"]
      by (simp add: combined_def positional_def combine_ports_def digit_base_def combine_range_def uint_low)
  qed
qed

lemma below_bit: "uint (r :: u64) < 2 ^ k \<Longrightarrow> bit r n \<Longrightarrow> n < k"
proof -
  assume "uint r < 2 ^ k" "bit r n"
  then have "take_bit k (uint r) = uint r" "bit (uint r) n" using bit_imp_le_length [of r n] by (simp_all add: take_bit_int_eq_self bit_uint_iff)
  then show "n < k" by (metis bit_take_bit_iff)
qed

lemma sign_bit:
  assumes "uint (r :: u64) < 2 ^ Suc k" and "k < 64"
  shows "r AND push_bit k 1 \<noteq> 0 \<longleftrightarrow> 2 ^ k \<le> uint r"
proof -
  have "r AND push_bit k 1 \<noteq> 0 \<longleftrightarrow> bit r k"
    by (simp only: bit_iff_and_push_bit_not_eq_0)
  also have "\<dots> \<longleftrightarrow> bit (uint r) k" using assms(2) by (simp add: bit_uint_iff)
  also have "\<dots> \<longleftrightarrow> odd (uint r div 2 ^ k)" by (simp add: bit_iff_odd)
  also have "\<dots> \<longleftrightarrow> 2 ^ k \<le> uint r"
  proof -
    have "2 ^ k * (uint r div 2 ^ k) \<le> uint r" 
      using mult_div_mod_eq [of "2 ^ k" "uint r"] pos_mod_sign [of "2 ^ k" "uint r"] zero_less_power [of "2 :: int" k] by linarith
    then have "2 ^ k * (uint r div 2 ^ k) < 2 ^ k * 2" using assms(1) unfolding power_Suc by linarith
    then have "uint r div 2 ^ k < 2" by (simp only: mult_less_cancel_left_pos zero_less_power zero_less_numeral)
    moreover have "0 \<le> uint r div 2 ^ k" by (simp add: pos_imp_zdiv_nonneg_iff)
    ultimately have "uint r div 2 ^ k = 0 \<or> uint r div 2 ^ k = 1" by linarith
    moreover have "uint r div 2 ^ k = 0 \<longleftrightarrow> uint r < 2 ^ k" by (auto simp: zdiv_eq_0_iff)
    ultimately show ?thesis by auto
  qed
  finally show ?thesis .
qed

lemma sign_extended:
  assumes "uint (r :: u64) < 2 ^ k" and "0 < k" and "k < 64"
  shows "sint (r OR NOT (mask k)) = uint r - 2 ^ k"
proof -
  have "r + NOT (mask k) = r OR NOT (mask k)"
    by (rule disjunctive_add) (auto simp: bit_not_iff bit_mask_iff dest: below_bit [OF assms(1)])
  moreover have "NOT (mask k) = - (2 ^ k :: u64)" by (simp add: mask_eq_exp_minus_1 not_eq_complement)
  ultimately have "r OR NOT (mask k) = word_of_int (uint r - 2 ^ k)" by simp
  moreover have "signed_take_bit 63 (uint r - 2 ^ k) = uint r - 2 ^ k"
  proof (rule signed_take_bit_int_eq_self)
    have "(2 :: int) ^ k \<le> 2 ^ 63" by (rule power_increasing) (use assms in auto)
    then show "- (2 ^ 63) \<le> uint r - 2 ^ k" "uint r - 2 ^ k < 2 ^ 63" using assms(1) uint_ge_0 [of r] by linarith+
  qed
  ultimately show ?thesis by (simp only: sint_sbintrunc') simp
qed

definition two_complement :: "int \<Rightarrow> int \<Rightarrow> int" where
  "two_complement m n = (if m \<le> 2 * n then n - m else n)"

text \<open>C24. The Combine node computes positional notation: the integers at its ports, each cut to a byte or a word, are the digits,
  and the result is read in two's complement when that is configured.\<close>

theorem combine_is_positional:
  assumes "mode \<in> set combine_modes" and "list_all (holds_integer m) (combine_ports mode)"
    and "jvalue get_bool cfg ''signed_result'' False = Inr as_signed"
  shows "rbind (combined mode m) (combined_value cfg mode) =
    Inr (JInt (if as_signed then two_complement (combine_range mode) (positional mode m) else positional mode m))"
proof -
  obtain r where r: "combined mode m = Inr r" "uint r = positional mode m" "positional mode m < combine_range mode"
    using combined_positional [OF assms(1,2)] by blast
  define k :: nat where "k = (if mode = ''two_bytes'' then 15 else 31)"
  have k: "combine_range mode = 2 ^ Suc k" "k < 63" "(if mode = ''two_bytes'' then 16 else 32) = Suc k"
    by (auto simp: k_def combine_range_def)
  have m: "bit_word_mask (int (Suc k)) = mask (Suc k)" using k(2) bit_word_mask_eq [of "int (Suc k)"] by (simp add: nat_add_distrib)
  have small: "uint r < 2 ^ Suc k" using r k by simp
  have "combined_value cfg mode r = Inr (JInt (if as_signed \<and> r AND push_bit k 1 \<noteq> 0 then sint (r OR NOT (mask (Suc k))) else uint r))"
    unfolding combined_value_def k(3) Let_def assms(3) m by simp
  also have "\<dots> = Inr (JInt (if as_signed then two_complement (combine_range mode) (positional mode m) else positional mode m))"
    using sign_bit [OF small] sign_extended [OF small] k(2) r(2) by (simp add: two_complement_def k(1))
  finally show ?thesis using r(1) by simp
qed

theorem combine_is_positional_witness:
  "rbind (combined ''two_bytes'' [''high_byte'' \<mapsto> test_event 0 (JInt 255), ''low_byte'' \<mapsto> test_event 0 (JStr ''0x1FE'')])
     (combined_value (JObj [(''signed_result'', JBool True)]) ''two_bytes'') = Inr (JInt (- 2))"
proof -
  have "list_all (holds_integer [''high_byte'' \<mapsto> test_event 0 (JInt 255), ''low_byte'' \<mapsto> test_event 0 (JStr ''0x1FE'')])
      (combine_ports ''two_bytes'')" by code_simp
  moreover have "two_complement (combine_range ''two_bytes'') (positional ''two_bytes''
      [''high_byte'' \<mapsto> test_event 0 (JInt 255), ''low_byte'' \<mapsto> test_event 0 (JStr ''0x1FE'')]) = - 2" by code_simp
  ultimately show ?thesis
    using combine_is_positional [of "''two_bytes''" _ "JObj [(''signed_result'', JBool True)]" True]
    by (simp add: combine_modes_def jvalue_def)
qed

section \<open>Bit operations\<close>

text \<open>The reference: the operations on integers of the word size.\<close>

definition word_operation :: "nat \<Rightarrow> string \<Rightarrow> int \<Rightarrow> int \<Rightarrow> int option" where
  "word_operation w operation a b =
     (if operation = ''and'' then Some (a AND b)
      else if operation = ''or'' then Some (a OR b)
      else if operation = ''xor'' then Some (a XOR b)
      else if operation = ''and_not'' then Some (a - (a AND b))
      else if operation = ''not'' then Some (2 ^ w - 1 - a)
      else if operation = ''low_byte'' then Some (a mod 256)
      else if operation = ''high_byte'' then Some (a div 256 mod 256)
      else if operation = ''low_word'' then Some (a mod 65536)
      else if operation = ''high_word'' then Some (a div 65536 mod 65536)
      else if operation = ''shift_left'' then (if int w \<le> b then None else Some (a * 2 ^ nat b mod 2 ^ w))
      else if operation = ''shift_right'' then (if int w \<le> b then None else Some (a div 2 ^ nat b))
      else Some a)"

lemma uint_masked: "uint (r AND mask w :: u64) = uint r mod 2 ^ w"
  by (rule uint_and_mask)

lemma mask_cut: "a = x AND mask w \<Longrightarrow> uint (a :: u64) < 2 ^ w" "a = x AND mask w \<Longrightarrow> uint a mod 2 ^ w = uint a"
  by (simp_all add: uint_and_mask)

lemma and_not_cut: "(a :: int) AND NOT b = a - (a AND b)"
proof -
  have "(a AND b) + (a AND NOT b) = (a AND b) OR (a AND NOT b)"
    by (rule disjunctive_add) (auto simp: bit_and_iff bit_not_iff)
  also have "\<dots> = a" by (rule bit_eqI) (auto simp: bit_and_iff bit_or_iff bit_not_iff)
  finally show ?thesis by simp
qed

lemma uint_and_not: "uint (a AND NOT b :: u64) = uint a - (uint a AND uint b)"
proof -
  have "(a AND b) + (a AND NOT b) = a" 
  proof -
    have "(a AND b) + (a AND NOT b) = (a AND b) OR (a AND NOT b)"
      by (rule disjunctive_add) (auto simp: bit_and_iff bit_not_iff)
    also have "\<dots> = a" by (rule bit_eqI) (auto simp: bit_and_iff bit_or_iff bit_not_iff)
    finally show ?thesis .
  qed
  then have "a AND NOT b = a - (a AND b)" by (simp add: algebra_simps)
  moreover have "uint (a AND b) \<le> uint a" by (simp add: unsigned_and_eq)
  ultimately show ?thesis by (simp add: uint_sub_if' unsigned_and_eq)
qed

lemma uint_shift_left: "k \<le> 64 \<Longrightarrow> uint (push_bit n a :: u64) mod 2 ^ k = uint a * 2 ^ n mod 2 ^ k"
  unfolding unsigned_push_bit_eq take_bit_eq_mod [symmetric] by (simp add: push_bit_eq_mult)

lemma uint_cut: "take_bit 64 (uint (a :: u64)) = uint a"
  using uint_lt2p [of a] by (intro take_bit_int_eq_self) simp_all

lemma uint_not:
  assumes "k \<le> 64"
  shows "uint (NOT a :: u64) mod 2 ^ k = 2 ^ k - 1 - uint a mod 2 ^ k"
proof -
  have "take_bit k (uint (NOT a)) = take_bit k (take_bit 64 (NOT (uint a)))" unfolding unsigned_not_eq by simp
  also have "\<dots> = take_bit k (NOT (uint a))" using assms unfolding take_bit_take_bit by (simp only: min_absorb1)
  also have "\<dots> = 2 ^ k - 1 - take_bit k (uint a)" unfolding take_bit_not_eq_mask_diff mask_eq_exp_minus_1 ..
  finally show ?thesis by (simp only: take_bit_eq_mod)
qed

lemma uint_drop: "uint (drop_bit n a :: u64) = uint a div 2 ^ n"
  unfolding unsigned_drop_bit_eq by (simp add: drop_bit_eq_div uint_cut)

lemma shift_limit: "0 \<le> w \<Longrightarrow> w \<le> 64 \<Longrightarrow> word_of_int w \<le> (b :: u64) \<longleftrightarrow> w \<le> uint b"
  by (simp add: word_le_def unsigned_of_int take_bit_int_eq_self)

text \<open>C23. Every bit operation is the operation on unsigned integers of the configured word size: complement and difference of
  the set bits, shifts as multiplication and division, a shift by the word size or more refused.\<close>

theorem bit_operations_are_word_operations:
  assumes "w \<in> {8, 16, 32, 64}" and "a = x AND bit_word_mask (int w)" and "b = y AND bit_word_mask (int w)"
  shows "map_option (\<lambda>r. uint (r AND bit_word_mask (int w))) (bit_result (int w) operation a b) =
    word_operation w operation (uint a) (uint b)"
proof -
  have w: "w \<le> 64" "8 \<le> w" and m: "bit_word_mask (int w) = mask w" using assms(1) bit_word_mask_eq [of "int w"] by auto
  have a: "uint a mod 2 ^ w = uint a" "uint a < 2 ^ w" and b: "uint b mod 2 ^ w = uint b" "uint b < 2 ^ w"
    using mask_cut [of a x w] mask_cut [of b y w] assms(2,3) m by auto
  have keep: "x mod 2 ^ w = x" if "0 \<le> x" "x \<le> uint a" for x
    using that a by simp
  have below: "uint a div k \<le> uint a" "uint a mod k \<le> uint a" if "0 < k" for k
    using that zdiv_mono2 [of "uint a" 1 k] by (simp_all add: zmod_le_nonneg_dividend)
  have below': "uint a div k mod k \<le> uint a" if "0 < k" for k
    using that below(1) [of k] zmod_le_nonneg_dividend [of "uint a div k" k] by (simp add: pos_imp_zdiv_nonneg_iff)
  have upper: "uint a OR uint b < 2 ^ w" "uint a XOR uint b < 2 ^ w" "uint a AND uint b \<le> uint a"
    using a(2) b(2) by (simp_all add: OR_upper XOR_upper)
  have logic: "uint (a AND b) mod 2 ^ w = uint a AND uint b" "uint (a OR b) mod 2 ^ w = uint a OR uint b"
    "uint (a XOR b) mod 2 ^ w = uint a XOR uint b" "uint (NOT a) mod 2 ^ w = 2 ^ w - 1 - uint a"
    using a b w upper keep [of "uint a AND uint b"] by (simp_all add: unsigned_and_eq unsigned_or_eq unsigned_xor_eq uint_not)
  have without: "uint (a AND NOT b) mod 2 ^ w = uint a - (uint a AND uint b)"
    unfolding uint_and_not by (rule keep) (use upper in simp_all)
  have narrow: "uint (a AND 0xff) mod 2 ^ w = uint a mod 256" "uint (a AND 0xffff) mod 2 ^ w = uint a mod 65536"
    unfolding uint_low by - (rule keep; use below in simp)+
  have high: "uint (drop_bit 8 a AND 0xff) mod 2 ^ w = uint a div 256 mod 256"
    "uint (drop_bit 16 a AND 0xffff) mod 2 ^ w = uint a div 65536 mod 65536"
    using keep [OF _ below' [of 256]] keep [OF _ below' [of 65536]] by (simp_all add: uint_low uint_drop)
  have left: "uint (push_bit (unat b) a) mod 2 ^ w = uint a * 2 ^ nat (uint b) mod 2 ^ w"
    unfolding uint_shift_left [OF w(1)] unat_eq_nat_uint ..
  have right: "uint (drop_bit (unat b) a) mod 2 ^ w = uint a div 2 ^ nat (uint b)"
    unfolding uint_drop unat_eq_nat_uint by (rule keep) (simp_all add: below pos_imp_zdiv_nonneg_iff)
  have limit: "(word_of_int (int w) \<le> b) = (int w \<le> uint b)"
    by (rule shift_limit) (use w in simp_all)
  show ?thesis
    unfolding bit_result_def word_operation_def m uint_and_mask option.map if_distrib [of "map_option _"]
      logic without narrow high left right limit a(1) ..
qed

theorem bit_operations_are_word_operations_witness:
  "map_option (\<lambda>r. uint (r AND bit_word_mask 16)) (bit_result 16 ''shift_left'' (0x81FF AND bit_word_mask 16) (4 AND bit_word_mask 16))
    = Some 0x1FF0"
proof -
  have "uint (0x81FF AND bit_word_mask 16) = 0x81FF" "uint (4 AND bit_word_mask 16) = 4" by code_simp+
  then show ?thesis
    using bit_operations_are_word_operations [of 16 "0x81FF AND bit_word_mask 16" "0x81FF" "4 AND bit_word_mask 16" 4 "''shift_left''"]
    by (simp add: word_operation_def)
qed

section \<open>The rate limiter\<close>

text \<open>What one Delay node sees in its rate limiting mode: events, and its timer, which the delayed queue fires no
  earlier than the time it was set for.\<close>

datatype rate_input = Arrives flow_event | Fires

fun rate_run :: "int \<Rightarrow> (int \<times> rate_input) list \<Rightarrow> rate_limit \<times> (int \<times> flow_event) list \<Rightarrow> rate_limit \<times> (int \<times> flow_event) list" where
  "rate_run d [] st = st"
| "rate_run d ((t, Arrives ev) # xs) (r, out) =
     (case rate_step t d ev r of (now, timer, r') \<Rightarrow> rate_run d xs (r', if now then out @ [(t, ev)] else out))"
| "rate_run d ((t, Fires) # xs) (r, out) =
     (if rl_scheduled r \<and> rl_next r \<le> t then rate_run d xs (rate_fire t d r, out @ [(t, rl_latest r)])
      else rate_run d xs (r, out))"

definition spaced :: "int \<Rightarrow> (int \<times> flow_event) list \<Rightarrow> bool" where
  "spaced d out \<longleftrightarrow> sorted_wrt (\<lambda>a b. fst a + d \<le> fst b) out"

definition rate_inv :: "int \<Rightarrow> rate_limit \<times> (int \<times> flow_event) list \<Rightarrow> bool" where
  "rate_inv d st \<longleftrightarrow> (case st of (r, out) \<Rightarrow> spaced d out \<and> (\<forall>x \<in> set out. fst x + d \<le> rl_next r))"

lemma rate_inv_release:
  assumes "rate_inv d (r, out)" and "rl_next r \<le> t" and "0 \<le> d" and "rl_next r' = t + d"
  shows "rate_inv d (r', out @ [(t, ev)])"
  using assms by (fastforce simp: rate_inv_def spaced_def sorted_wrt_append)

lemma rate_run_inv: "0 \<le> d \<Longrightarrow> rate_inv d st \<Longrightarrow> rate_inv d (rate_run d xs st)"
proof (induction d xs st rule: rate_run.induct)
  case (2 d t ev xs r out)
  obtain now timer r' where step: "rate_step t d ev r = (now, timer, r')" by (cases "rate_step t d ev r")
  have "rate_inv d (r', if now then out @ [(t, ev)] else out)"
    using "2.prems" step rate_inv_release [of d r out t r' ev]
    by (auto simp: rate_step_def split: if_splits) (auto simp: rate_inv_def)
  then show ?case using 2 step by simp
next
  case (3 d t xs r out)
  then show ?case using rate_inv_release [of d r out t "rate_fire t d r" "rl_latest r"] by (simp add: rate_fire_def)
qed simp

fun newest :: "flow_event option \<Rightarrow> (int \<times> rate_input) list \<Rightarrow> flow_event option" where
  "newest a [] = a"
| "newest a ((t, Arrives ev) # xs) = newest (Some ev) xs"
| "newest a ((t, Fires) # xs) = newest a xs"

definition in_hand :: "flow_event option \<Rightarrow> rate_limit \<times> (int \<times> flow_event) list \<Rightarrow> bool" where
  "in_hand a st \<longleftrightarrow> (case a of None \<Rightarrow> True | Some ev \<Rightarrow>
     rl_latest (fst st) = ev \<and> (rl_scheduled (fst st) \<or> snd st \<noteq> [] \<and> snd (last (snd st)) = ev))"

lemma rate_run_in_hand: "in_hand a st \<Longrightarrow> in_hand (newest a xs) (rate_run d xs st)"
proof (induction d xs st arbitrary: a rule: rate_run.induct)
  case (2 d t ev xs r out)
  obtain now timer r' where step: "rate_step t d ev r = (now, timer, r')" by (cases "rate_step t d ev r")
  have "in_hand (Some ev) (r', if now then out @ [(t, ev)] else out)"
    using step by (auto simp: rate_step_def in_hand_def split: if_splits)
  then show ?case using 2 step by simp
next
  case (3 d t xs r out)
  have fire: "in_hand a (rate_fire t d r, out @ [(t, rl_latest r)])" if "in_hand a (r, out)"
    using that by (auto simp: in_hand_def rate_fire_def split: option.splits)
  show ?case using 3 fire by auto
qed simp



section \<open>A configuration the checks let through\<close>

definition text_flag_flow :: json where
  "text_flag_flow = jset ''enabled'' (JStr ''yes'') example_flow"

definition text_flag_draft :: flow_state where
  "text_flag_draft = snd (save_draft sample_math (\<lambda>xs. xs) None text_flag_flow new_service)"


end
