(* ===== verification/Spec2Isabelle.thy ===== *)
theory Spec2Isabelle
  imports Prelude Doubles Freshness ActiveSweep ConnectionHealth OrderedMap Json Glob ConsumerDemand Leases WebSocket TagDemand SchedulerPreview DemandClient Paths SavedConfig ConnectionFiles AutomationDeps AutomationDemand AsyncBatch Numbers Floats TagValues PlcWords ConfigText ConfigNames ConfigLoad PollCache FreshInput WriteTag JsonNumbers AlarmEngine AlarmConfig AlarmMachine AlarmBehaviour AlarmHistory FlowGrammar FlowControl FlowFrame FlowDrain FlowAccepted FlowBehaviour FlowService FlowNodeLaws
begin

text \<open>
  The OPCBridge suite reads the tags of PLCs, offers them to other programs and reacts to their
  values. This development holds its core logic as definitions translated from the C++
  code under src/, and the theorems that say what it is to be relied on for.

  The parts of the program and how they meet. The gateway (src/opcbridge) polls PLC tags into a table of
  cached snapshots, one driver per connection, and serves that table over WebSocket, HTTP, MQTT and
  OPC UA. What is polled follows demand: each consumer registers scopes of tags, the registrations are
  leased and merged into a report, and from the report a plan says which tags may rest. A cached value
  counts as good only on evidence of a read, which a restart, a suspension or a write takes
  away. A write goes from a tag through its aliases and scalings to a PLC buffer and asks for a
  readback. The alarm server (src/opcbridge-alarms) is a consumer that runs a state machine per alarm
  over the values and keeps the history in a database. The flow runner (src/opcbridge-flow) is a
  consumer that passes values along a graph of nodes and writes tags, mails and messages at its ends.
\<close>

text \<open>
  Which theory models what.

  Foundations. \<open>Prelude\<close>: integer widths, clock values, \<open><cctype>\<close>. \<open>OrderedMap\<close>: \<open>std::map\<close> and \<open>std::set\<close>
  as ascending association lists, with a locale for their laws. \<open>Json\<close> and \<open>JsonNumbers\<close>: \<open>nlohmann::json\<close> values, their accessors and
  conversions, exceptions as \<open>Inl\<close>. \<open>Doubles\<close>: IEEE-754 binary64 with its rounding;
  \<open>Floats\<close>: the bit patterns of floats. \<open>Numbers\<close>: \<open>trim_copy\<close>, \<open>to_lower_copy\<close>, \<open>strtol\<close>, \<open>strtod\<close> and their like. \<open>Paths\<close>:
  \<open>std::filesystem::path\<close>.

  Freshness and connections (src/opcbridge/*.h). \<open>Freshness\<close>: \<open>PollReadStamp\<close>, \<open>PollReadGate\<close>. \<open>ActiveSweep\<close>: active_sweep.h.
  \<open>ConnectionHealth\<close>: idle_connection_probe.h, modbus_read_recovery.h, poll_sweep_estimate.h and the historian's
  snapshot_lifecycle.h. \<open>AsyncBatch\<close>: async_poll_batch.h, the driver being a locale.

  Demand. \<open>Glob\<close> and \<open>ConsumerDemand\<close>: consumer_demand.h. \<open>Leases\<close>: consumer_demand_leases.h. \<open>TagDemand\<close>: tag_demand.h.
  \<open>SchedulerPreview\<close>: demand_scheduler_preview.h. \<open>DemandClient\<close>: consumer_demand_client.h and execution_demand.h.
  \<open>WebSocket\<close>: ws.cpp. \<open>AutomationDeps\<close> and \<open>AutomationDemand\<close>: automation_dependencies.h and automation_demand.h.

  Configuration. \<open>SavedConfig\<close>: runtime_config_state.h. \<open>ConnectionFiles\<close>: connection_names.h,
  connection_tag_cleanup.h. \<open>ConfigText\<close>, \<open>ConfigNames\<close>, \<open>ConfigLoad\<close>: comments, CSV, names, \<open>load_connection_config\<close> and
  \<open>load_tag_file\<close> of src/opcbridge/main.cpp.

  Tags (src/opcbridge/main.cpp). \<open>TagValues\<close>: the \<open>TagValue\<close> variant, its casts and the scaling. \<open>PlcWords\<close>: values in PLC
  buffers. \<open>PollCache\<close>: snapshots and what turns them good or bad. \<open>FreshInput\<close>: \<open>check_fresh_input\<close>.
  \<open>WriteTag\<close>: \<open>write_tag_by_name\<close> with every branch.

  Alarms (src/opcbridge-alarms/src/main.cpp). \<open>AlarmEngine\<close>: \<open>AlarmEngine\<close>, rule and state records, updates, timer, operator calls. \<open>AlarmConfig\<close>: reading
  rules and carrying state over a reload. \<open>AlarmHistory\<close>: the database rows and \<open>restore_state_from_db\<close>.
  \<open>AlarmMachine\<close> and \<open>AlarmBehaviour\<close> hold proofs.

  Flows (src/opcbridge-flow/opcbridge_flow.cpp). \<open>FlowMath\<close>: \<open>MathExpression\<close>. \<open>FlowValues\<close>: events and conversions. \<open>FlowGraph\<close> and
  \<open>FlowDefinition\<close>: \<open>normalize_and_validate\<close>. \<open>FlowState\<close>: the members of \<open>FlowService\<close>. \<open>FlowNodes\<close> and
  \<open>FlowOutputs\<close>: the branches of \<open>process_event\<close>. \<open>FlowEngine\<close>: \<open>process_event\<close>, \<open>worker_loop\<close>. \<open>FlowPolling\<close>: \<open>poll_inputs\<close>. \<open>FlowMqtt\<close>: brokers,
  subscriptions, messages. \<open>FlowControl\<close>: drafts, deployment, test events, loading. \<open>FlowGrammar\<close>, \<open>FlowFrame\<close>, \<open>FlowDrain\<close>, \<open>FlowAccepted\<close>,
  \<open>FlowBehaviour\<close>, \<open>FlowService\<close> and \<open>FlowNodeLaws\<close> hold proofs and specifications.
\<close>

text \<open>
  How code becomes definitions. A class is a record of its members, a method a function from the record
  and its arguments to the new record and the result; an exception is \<open>Inl\<close> or \<open>None\<close>. A method that
  locks a mutex for its changes is one step; where the code lets it go in between, the model is a sequence of steps or a
  transition system (\<open>FlowService\<close>), and where that matters a finding says so. A clock is an argument, read once per call or event. Integers of
  a fixed width are words where they wrap or are taken apart and \<open>int\<close> where the code keeps them in
  range. Hash maps whose order shows are given with the order as an argument.

  What the code calls and the repository does not hold is an argument: libplctag (a record of
  getters and setters over a buffer), the OPC UA and MQTT clients, HTTP requests, the text of JSON, SQLite (rows as
  a list), \<open>sqrt\<close> and \<open>pow\<close> of the C library, files and their readers. The assumptions on them are named in the
  theorems: a buffer returns what was stored in it, a steady clock does not run backwards, a database row that was
  stored is returned by the query.

  What the lemmas show. Each theory of code has the behaviour of its operations on all branches and the
  invariant they keep; the properties are the numbered statements. The contracts between parts are locales, interpreted on the code's own
  definitions: the laws of an ordered map, of a polled driver, of the merging of demand. The
  specifications that definitions are shown to implement: the last message within 60 seconds for \<open>Leases\<close>,
  the running executions for \<open>DemandClient\<close>, one machine per alarm for \<open>AlarmMachine\<close>, the wildcard relation for
  \<open>Glob\<close>, the grammar for \<open>FlowMath\<close>, unsigned integers and positional notation for the bit nodes of \<open>FlowNodes\<close>.

  Bounds and fuel. \<open>write_tag_by_name\<close> takes fuel because nothing in the code stops it on a cycle of aliases; one more than the length of the
  chain is enough, and on a cycle no fuel is. \<open>source_chain\<close> stops after 64 tags as the code does. The
  evaluator of expressions takes \<open>enough_fuel\<close>, six times the length of the text and four, and is shown never to run out. The worker's loop takes fuel and is
  shown to end for every state; the measure is the multiset of hops that are left. The wait loop of \<open>AsyncBatch\<close> is a partial
  function and is shown to return when the clock goes on. A flow holds at most 10000 delayed messages.
\<close>

text \<open>
  Not modelled. The OPC UA stack (open62541.c, open62541.h) and the HTTP library (httplib.h) are third-party code. The
  threads, HTTP handlers, MQTT and OPC UA callbacks of the gateway, its polling cycle and its script
  engine call into libraries around the operations above and have no result that can be stated without
  those. The same holds of the delivery of alarm notifications and of the command line and status pages of the
  flow runner. The data logger and the historian service are SQL and threads around the modelled parts. The report tool, the front ends and the installation scripts are in other languages or are presentation.
\<close>

end
